(* ===== verification/Go_Prelude.thy ===== *)
theory Go_Prelude
  imports Main "HOL-Library.Word" "HOL-Library.Finite_Map" "HOL-Library.Char_ord"
begin

text \<open>
  Shared vocabulary of the development: the Go types the repository uses and the facts about
  them that every component needs.

  \<^item> \<open>u64\<close>, \<open>byte\<close>, \<open>hash\<close>, \<open>address\<close>: the fixed-width
    values (\<open>uint64\<close>, \<open>byte\<close>, \<open>common.Hash\<close>,
    \<open>common.Address\<close>) as words, so that \<open>+\<close> and \<open>-\<close> wrap around as they do in
    Go and \<open><\<close> is the unsigned comparison;
  \<^item> \<open>bigint\<close>: a pointer to a \<open>big.Int\<close>, nil being \<open>None\<close>;
  \<^item> \<open>outcome\<close>: what a Go call that returns a value and an error can do, including a
    run-time panic;
  \<^item> \<open>go_map\<close>: a Go map, nil or a finite map;
  \<^item> big-endian encodings (\<open>binary.BigEndian\<close>, \<open>FillBytes\<close>,
    \<open>common.BytesToHash\<close>) and the \<open>for i := start; i < end; i++\<close> loop over
    \<open>uint64\<close>.
\<close>

section \<open>Types\<close>

type_synonym u64 = "64 word"
type_synonym byte = "8 word"
type_synonym bytes = "byte list"
type_synonym hash = "256 word"
type_synonym address = "160 word"
type_synonym bigint = "int option"
type_synonym ('k, 'v) go_map = "('k, 'v) fmap option"

text \<open>The collections that the component proofs pass to the simplifier.\<close>

named_theorems range_simps \<open>block ranges and the sets of blocks they stand for\<close>
named_theorems store_simps \<open>what the storage operations read after a write\<close>
named_theorems go_defs \<open>definitions unfolded to compute a Go call\<close>

section \<open>Results of calls\<close>

datatype go_panic =
    NilDereference     \<comment> \<open>a field of a nil pointer\<close>
  | NilMapWrite        \<comment> \<open>an assignment to an entry of a nil map\<close>
  | IndexOutOfRange    \<comment> \<open>a slice read past its length\<close>
  | MakesliceCap       \<comment> \<open>\<open>make\<close> with a capacity out of range\<close>
  | DivideByZero       \<comment> \<open>integer division or remainder by zero\<close>
  | NegativeWaitGroup  \<comment> \<open>\<open>WaitGroup.Done\<close> without \<open>Add\<close>\<close>
  | FillBytesTooSmall  \<comment> \<open>\<open>FillBytes\<close> into a buffer that is too small\<close>

datatype ('e, 'a) outcome =
    Ok 'a
  | Err 'e
  | Panic go_panic

fun bind_outcome :: "('e, 'a) outcome \<Rightarrow> ('a \<Rightarrow> ('e, 'b) outcome) \<Rightarrow> ('e, 'b) outcome" where
  "bind_outcome (Ok a) f = f a"
| "bind_outcome (Err e) f = Err e"
| "bind_outcome (Panic p) f = Panic p"

text \<open>\<open>wrap_error\<close> is \<open>if err := c; err != nil { return fmt.Errorf("...: %w", err) }\<close>.\<close>

fun wrap_error :: "('e \<Rightarrow> 'f) \<Rightarrow> ('e, 'a) outcome \<Rightarrow> ('f, 'a) outcome" where
  "wrap_error w (Ok a) = Ok a"
| "wrap_error w (Err e) = Err (w e)"
| "wrap_error w (Panic p) = Panic p"

text \<open>Reading through a pointer: nil panics.\<close>

fun deref :: "'a option \<Rightarrow> ('a \<Rightarrow> ('e, 'b) outcome) \<Rightarrow> ('e, 'b) outcome" where
  "deref None f = Panic NilDereference"
| "deref (Some a) f = f a"

fun is_ok :: "('e, 'a) outcome \<Rightarrow> bool" where
  "is_ok (Ok _) = True"
| "is_ok (Err _) = False"
| "is_ok (Panic _) = False"

lemma bind_outcome_eq_Ok [simp]:
  "bind_outcome c f = Ok b \<longleftrightarrow> (\<exists>a. c = Ok a \<and> f a = Ok b)"
  by (cases c) auto

lemma wrap_error_eq_Ok [simp]: "wrap_error w c = Ok a \<longleftrightarrow> c = Ok a"
  by (cases c) auto

lemma deref_eq_Ok [simp]: "deref p f = Ok b \<longleftrightarrow> (\<exists>a. p = Some a \<and> f a = Ok b)"
  by (cases p) auto

lemma outcome_eq_Panic:
  "bind_outcome c f = Panic p \<longleftrightarrow> c = Panic p \<or> (\<exists>a. c = Ok a \<and> f a = Panic p)"
  "wrap_error w d = Panic p \<longleftrightarrow> d = Panic p"
  "deref q g = Panic p \<longleftrightarrow> q = None \<and> p = NilDereference \<or> (\<exists>a. q = Some a \<and> g a = Panic p)"
  by (cases c; cases d; cases q; auto)+

lemma outcome_eq_Err:
  "bind_outcome c f = Err e \<longleftrightarrow> c = Err e \<or> (\<exists>a. c = Ok a \<and> f a = Err e)"
  "wrap_error w d = Err e' \<longleftrightarrow> (\<exists>x. d = Err x \<and> e' = w x)"
  "deref q g = Err e \<longleftrightarrow> (\<exists>a. q = Some a \<and> g a = Err e)"
  by (cases c; cases d; cases q; auto)+

lemma is_ok_iff: "is_ok c \<longleftrightarrow> (\<exists>a. c = Ok a)"
  by (cases c) auto

lemma bind_outcome_assoc:
  "bind_outcome (bind_outcome c f) g = bind_outcome c (\<lambda>a. bind_outcome (f a) g)"
  by (cases c) auto

section \<open>Go maps\<close>

definition map_get :: "('k, 'v) go_map \<Rightarrow> 'k \<Rightarrow> 'v option" where
  "map_get m k = (case m of None \<Rightarrow> None | Some f \<Rightarrow> fmlookup f k)"

definition map_put :: "('k, 'v) go_map \<Rightarrow> 'k \<Rightarrow> 'v \<Rightarrow> ('e, ('k, 'v) go_map) outcome" where
  "map_put m k v = (case m of None \<Rightarrow> Panic NilMapWrite | Some f \<Rightarrow> Ok (Some (fmupd k v f)))"

definition map_len :: "('k, 'v) go_map \<Rightarrow> nat" where
  "map_len m = (case m of None \<Rightarrow> 0 | Some f \<Rightarrow> fcard (fmdom f))"

definition map_keys :: "('k, 'v) go_map \<Rightarrow> 'k set" where
  "map_keys m = {k. map_get m k \<noteq> None}"

lemma map_get_simps [simp]:
  "map_get None k = None"
  "map_get (Some f) k = fmlookup f k"
  by (simp_all add: map_get_def)

lemma map_put_eq_Ok [simp]:
  "map_put m k v = Ok m' \<longleftrightarrow> (\<exists>f. m = Some f \<and> m' = Some (fmupd k v f))"
  by (auto simp: map_put_def split: option.splits)

lemma map_put_Some [simp]: "map_put (Some f) k v = Ok (Some (fmupd k v f))"
  by (simp add: map_put_def)

lemma map_put_nil [simp]: "map_put None k v = Panic NilMapWrite"
  by (simp add: map_put_def)

lemma map_len_simps [simp]:
  "map_len None = 0"
  "map_len (Some f) = fcard (fmdom f)"
  by (simp_all add: map_len_def)

lemma map_keys_simps [simp]:
  "map_keys None = {}"
  "map_keys (Some f) = fset (fmdom f)"
  by (auto simp: map_keys_def fmdom'_alt_def[symmetric] fmlookup_dom'_iff)

lemma map_len_card: "map_len m = card (map_keys m)"
  by (cases m) (simp_all add: fcard.rep_eq)

section \<open>Unsigned 64-bit arithmetic\<close>

abbreviation u64_max :: u64 where
  "u64_max \<equiv> - 1"

lemma unat_less_2p: "unat (w :: 'a::len word) < 2 ^ LENGTH('a)"
  by (rule unsigned_less)

lemma le_u64_max [simp]: "x \<le> u64_max"
  by simp

lemma u64_less_max_iff: "x < u64_max \<longleftrightarrow> x \<noteq> u64_max"
  by (simp add: word_order.not_eq_extremum)

lemma unat_Suc_u64: "x < y \<Longrightarrow> unat (x + 1 :: u64) = Suc (unat x)"
  by unat_arith

lemma unat_succ_u64: "unat x < 2 ^ 64 - 1 \<Longrightarrow> unat (x + 1 :: u64) = Suc (unat x)"
  by (simp add: unat_word_ariths)

lemma less_succ_u64: "x < y \<Longrightarrow> (x < x + 1 \<and> x + 1 \<le> (y :: u64))"
  by unat_arith

lemma unat_diff_u64: "x \<le> y \<Longrightarrow> unat (y - x :: u64) = unat y - unat x"
  by (rule unat_sub)

lemma succ_wraps_iff: "x + 1 \<le> (x :: u64) \<longleftrightarrow> x = u64_max"
proof
  assume "x + 1 \<le> x"
  then show "x = u64_max" by (metis less_succ_u64 u64_less_max_iff linorder_not_le)
qed simp

lemma singleton_u64: "x \<noteq> u64_max \<Longrightarrow> {x ..< x + 1} = {x :: u64}"
proof -
  assume "x \<noteq> u64_max"
  then have "x < u64_max" by (simp add: u64_less_max_iff)
  then show ?thesis by (auto; unat_arith)
qed

lemma u64_set_image: "{a ..< b :: u64} = of_nat ` {unat a ..< unat b}"
proof (intro equalityI subsetI)
  fix x assume "x \<in> {a ..< b}"
  then have "unat x \<in> {unat a ..< unat b}" by (simp add: word_le_nat_alt word_less_nat_alt)
  then show "x \<in> of_nat ` {unat a ..< unat b}" by (intro image_eqI [of _ _ "unat x"]) simp_all
next
  fix x :: u64
  assume "x \<in> of_nat ` {unat a ..< unat b}"
  then obtain n where n: "x = of_nat n" "unat a \<le> n" "n < unat b" by auto
  have "n < 2 ^ 64" using n(3) unat_less_2p [of b] by simp
  with n show "x \<in> {a ..< b}"
    by (simp add: word_le_nat_alt word_less_nat_alt unat_of_nat)
qed

lemma card_u64_range: "card {a ..< b :: u64} = unat b - unat a"
proof -
  have "inj_on unat {a ..< b}" by (simp add: inj_on_def word_unat_eq_iff)
  moreover have "unat ` {a ..< b} = {unat a ..< unat b}"
  proof -
    have "unat (of_nat n :: u64) = n" if "n \<in> {unat a ..< unat b}" for n
      using that unat_less_2p [of b] by (simp add: unat_of_nat)
    then show ?thesis by (force simp: u64_set_image image_image)
  qed
  ultimately show ?thesis using card_image by fastforce
qed

subsection \<open>Counting loops\<close>

text \<open>The index values of \<open>for i := start; i < end; i++\<close>, in order.\<close>

function u64_loop :: "u64 \<Rightarrow> u64 \<Rightarrow> u64 list" where
  "u64_loop i end = (if i < end then i # u64_loop (i + 1) end else [])"
  by pat_completeness auto
termination
proof (relation "measure (\<lambda>(i, end). unat end - unat i)")
  fix i "end" :: u64
  assume "i < end"
  then show "((i + 1, end), i, end) \<in> measure (\<lambda>(i, end). unat end - unat i)"
    by (simp add: unat_Suc_u64) (simp add: word_less_nat_alt)
qed simp

declare u64_loop.simps [simp del]

lemma set_u64_loop [simp]: "set (u64_loop i end) = {i ..< end}"
proof (induction i "end" rule: u64_loop.induct)
  case (1 i "end")
  show ?case
  proof (cases "i < end")
    case True
    have "{i ..< end} = insert i {i + 1 ..< end}"
      using True by (auto; unat_arith)
    with 1 True show ?thesis by (simp add: u64_loop.simps [of i "end"])
  qed (simp add: u64_loop.simps [of i "end"])
qed

lemma sorted_u64_loop: "sorted_wrt (<) (u64_loop i end)"
proof (induction i "end" rule: u64_loop.induct)
  case (1 i "end")
  have "i < x" if "i < end" "i + 1 \<le> x" for x
    using less_succ_u64 [OF that(1)] that(2) by (blast intro: less_le_trans)
  with 1 show ?case by (simp add: u64_loop.simps [of i "end"])
qed

lemma distinct_u64_loop: "distinct (u64_loop i end)"
  using sorted_u64_loop by (rule strict_sorted_iff [THEN iffD1, THEN conjunct2])

lemma length_u64_loop: "length (u64_loop i end) = unat end - unat i"
  by (metis card_u64_range distinct_card distinct_u64_loop set_u64_loop)

lemma u64_loop_Nil_iff [simp]: "u64_loop a e = [] \<longleftrightarrow> \<not> a < e"
  by (simp add: u64_loop.simps [of a e])

lemma hd_u64_loop: "a < e \<Longrightarrow> hd (u64_loop a e) = a"
  by (simp add: u64_loop.simps [of a e])

lemma last_u64_loop: "a < e \<Longrightarrow> last (u64_loop a e) = e - 1"
proof (induction a e rule: u64_loop.induct)
  case (1 i "end")
  show ?case
  proof (cases "i + 1 < end")
    case True
    with 1 show ?thesis by (simp add: u64_loop.simps [of i "end"])
  next
    case False
    with less_succ_u64 [OF 1(2)] have "end = i + 1" by simp
    moreover from 1(2) this have "u64_loop i (i + 1) = [i]"
      by (subst u64_loop.simps) (simp add: u64_loop.simps [of "i + 1" "i + 1"])
    ultimately show ?thesis by simp
  qed
qed

section \<open>Byte strings\<close>

text \<open>The bytes of an (ASCII) Go string.\<close>

definition string_bytes :: "string \<Rightarrow> bytes" where
  "string_bytes s = map (\<lambda>c. of_char c) s"

fun nat_bytes :: "nat \<Rightarrow> nat \<Rightarrow> bytes" where
  "nat_bytes 0 x = []"
| "nat_bytes (Suc n) x = nat_bytes n (x div 256) @ [of_nat (x mod 256)]"

definition bytes_nat :: "bytes \<Rightarrow> nat" where
  "bytes_nat bs = foldl (\<lambda>acc b. 256 * acc + unat b) 0 bs"

lemma length_nat_bytes [simp]: "length (nat_bytes n x) = n"
  by (induction n arbitrary: x) simp_all

lemma bytes_nat_snoc: "bytes_nat (bs @ [b]) = 256 * bytes_nat bs + unat b"
  by (simp add: bytes_nat_def)

lemma bytes_nat_Nil [simp]: "bytes_nat [] = 0"
  by (simp add: bytes_nat_def)

lemma unat_of_nat_byte: "unat (of_nat (x mod 256) :: byte) = x mod 256"
  by (simp add: unat_of_nat)

lemma bytes_nat_nat_bytes: "bytes_nat (nat_bytes n x) = x mod 256 ^ n"
proof (induction n arbitrary: x)
  case (Suc n)
  have "bytes_nat (nat_bytes (Suc n) x) = 256 * (x div 256 mod 256 ^ n) + x mod 256"
    by (simp add: bytes_nat_snoc Suc unat_of_nat_byte)
  also have "\<dots> = x mod (256 * 256 ^ n)"
    by (simp add: mod_mult2_eq)
  finally show ?case by simp
qed simp

lemma nat_bytes_inj: "nat_bytes n x = nat_bytes n y \<Longrightarrow> x mod 256 ^ n = y mod 256 ^ n"
  by (metis bytes_nat_nat_bytes)

lemma bytes_nat_less: "bytes_nat bs < 256 ^ length bs"
proof (induction bs rule: rev_induct)
  case (snoc b bs)
  have "unat b < 256" using unat_less_2p [of b] by simp
  with snoc show ?case by (simp add: bytes_nat_snoc)
qed simp

lemma nat_bytes_bytes_nat: "nat_bytes (length bs) (bytes_nat bs) = bs"
proof (induction bs rule: rev_induct)
  case (snoc b bs)
  have "unat b < 256" using unat_less_2p [of b] by simp
  with snoc show ?case by (simp add: bytes_nat_snoc)
qed simp

text \<open>
  \<open>binary.BigEndian.PutUint64\<close> into a fresh 8-byte buffer, and
  \<open>binary.BigEndian.Uint64\<close>, which reads the first eight bytes and panics when there are
  fewer.
\<close>

definition put_uint64 :: "u64 \<Rightarrow> bytes" where
  "put_uint64 x = nat_bytes 8 (unat x)"

definition be_uint64 :: "bytes \<Rightarrow> ('e, u64) outcome" where
  "be_uint64 bs = (if length bs < 8 then Panic IndexOutOfRange
                   else Ok (of_nat (bytes_nat (take 8 bs))))"

lemma length_put_uint64 [simp]: "length (put_uint64 x) = 8"
  by (simp add: put_uint64_def)

lemma be_uint64_put_uint64 [simp]: "be_uint64 (put_uint64 x) = Ok x"
proof -
  have "unat x mod 256 ^ 8 = unat x" using unat_less_2p [of x] by simp
  then show ?thesis by (simp add: be_uint64_def put_uint64_def bytes_nat_nat_bytes)
qed

lemma put_uint64_inject [simp]: "put_uint64 x = put_uint64 y \<longleftrightarrow> x = y"
  by (metis be_uint64_put_uint64 outcome.inject(1))

text \<open>\<open>hash[:]\<close>, \<open>hash.Bytes()\<close> and \<open>common.BytesToHash\<close> (which keeps the last 32 bytes).\<close>

definition hash_bytes :: "hash \<Rightarrow> bytes" where
  "hash_bytes h = nat_bytes 32 (unat h)"

definition BytesToHash :: "bytes \<Rightarrow> hash" where
  "BytesToHash bs = of_nat (bytes_nat (drop (length bs - 32) bs))"

lemma length_hash_bytes [simp]: "length (hash_bytes h) = 32"
  by (simp add: hash_bytes_def)

lemma BytesToHash_hash_bytes [simp]: "BytesToHash (hash_bytes h) = h"
proof -
  have "unat h mod 256 ^ 32 = unat h" using unat_less_2p [of h] by simp
  then show ?thesis by (simp add: BytesToHash_def hash_bytes_def bytes_nat_nat_bytes)
qed

lemma hash_bytes_inject [simp]: "hash_bytes x = hash_bytes y \<longleftrightarrow> x = y"
  by (metis BytesToHash_hash_bytes)

lemma hash_bytes_BytesToHash: "length bs = 32 \<Longrightarrow> hash_bytes (BytesToHash bs) = bs"
proof -
  assume len: "length bs = 32"
  have "bytes_nat bs < 2 ^ 256" using bytes_nat_less [of bs] len by simp
  then have "unat (of_nat (bytes_nat bs) :: hash) = bytes_nat bs" by (simp add: unat_of_nat)
  with nat_bytes_bytes_nat [of bs] len show ?thesis by (simp add: hash_bytes_def BytesToHash_def)
qed

definition address_bytes :: "address \<Rightarrow> bytes" where
  "address_bytes a = nat_bytes 20 (unat a)"

section \<open>Signed 64-bit conversions\<close>

text \<open>\<open>int64(x)\<close> for an integer \<open>x\<close>: the representative of \<open>x\<close> modulo \<open>2^64\<close>.\<close>

definition to_int64 :: "int \<Rightarrow> int" where
  "to_int64 x = sint (word_of_int x :: u64)"

lemma to_int64_id: "- (2 ^ 63) \<le> x \<Longrightarrow> x < 2 ^ 63 \<Longrightarrow> to_int64 x = x"
  by (simp add: to_int64_def sint_sbintrunc' signed_take_bit_int_eq_self)

lemma uint_bounds: "unat (x :: u64) < 2 ^ 63 \<Longrightarrow> 0 \<le> uint x \<and> uint x < 2 ^ 63"
proof -
  assume "unat x < 2 ^ 63"
  then have "int (unat x) < int (2 ^ 63)" by (simp only: of_nat_less_iff)
  then show ?thesis by simp
qed

lemma to_int64_uint: "unat x < 2 ^ 63 \<Longrightarrow> to_int64 (uint x) = uint (x :: u64)"
  using uint_bounds [of x] by (intro to_int64_id) (auto intro: order_trans [of _ 0])

section \<open>Lists\<close>

lemma sorted_wrt_snoc:
  "sorted_wrt P (xs @ [x]) \<longleftrightarrow> sorted_wrt P xs \<and> (\<forall>y \<in> set xs. P y x)"
  by (simp add: sorted_wrt_append)

lemma foldl_invariant:
  assumes "P s" and "\<And>s x. P s \<Longrightarrow> x \<in> set xs \<Longrightarrow> P (f s x)"
  shows "P (foldl f s xs)"
  using assms by (induction xs arbitrary: s) auto

lemma find_append:
  "find P (xs @ ys) = (case find P xs of None \<Rightarrow> find P ys | Some x \<Rightarrow> Some x)"
  by (induction xs) auto

lemma find_by_key: "distinct (map f xs) \<Longrightarrow> x \<in> set xs \<Longrightarrow> find (\<lambda>y. f y = f x) xs = Some x"
  by (induction xs) (auto simp: image_iff)

end
