(* ===== verification/Chain_Types.thy ===== *)
theory Chain_Types
  imports Go_Prelude
begin

text \<open>
  The data model of \<open>internal/types/types.go\<close>: one record per struct, with the fields in
  the order of the source. A pointer field is an \<open>option\<close> (nil is \<open>None\<close>), a slice a list (a nil
  and an empty slice are the same list). Durations and times are integers (nanoseconds).
\<close>

record Signature =
  sig_ValidatorID :: string
  sig_PubKey :: bytes
  sig_Signature :: bytes

record Checkpoint =
  cp_BlockNumber :: u64
  cp_BlockHash :: hash
  cp_StateRoot :: hash
  cp_Timestamp :: u64
  cp_ValidatorSigs :: "Signature list"
  cp_ChainID :: bigint

record BlockRange =
  br_Start :: u64
  br_End :: u64

record Header =
  hd_Number :: u64
  hd_Hash :: hash
  hd_ParentHash :: hash
  hd_Coinbase :: address
  hd_StateRoot :: hash
  hd_TxHash :: hash
  hd_ReceiptHash :: hash
  hd_GasLimit :: u64
  hd_GasUsed :: u64
  hd_Timestamp :: u64
  hd_ExtraData :: bytes
  hd_MixDigest :: hash
  hd_Nonce :: u64

record Transaction =
  tx_Hash :: hash
  tx_Nonce :: u64
  tx_From :: address
  tx_To :: address
  tx_Value :: bigint
  tx_Gas :: u64
  tx_GasPrice :: bigint
  tx_Data :: bytes
  tx_V :: bigint
  tx_R :: bigint
  tx_S :: bigint

record Block =
  blk_Header :: "Header option"
  blk_Transactions :: "Transaction option list"
  blk_Size :: u64

record Validator =
  val_ID :: string
  val_Address :: address
  val_PubKey :: bytes
  val_Stake :: bigint
  val_Active :: bool

definition EmptyRootHash :: hash where
  "EmptyRootHash = 0x56e81f171bcc55a6ff8345e692c0f86e5b47e18b2452b1162f28c3b61c899469"

text \<open>
  The number of a block whose header pointer is set: \<open>block.Header.Number\<close>. The code reads it
  through two pointers; operations that may see a nil one use \<open>deref\<close>.
\<close>

definition block_number :: "Block \<Rightarrow> u64 option" where
  "block_number b = map_option hd_Number (blk_Header b)"

definition block_hash :: "Block \<Rightarrow> hash option" where
  "block_hash b = map_option hd_Hash (blk_Header b)"

text \<open>The blocks a half-open range \<open>[Start, End)\<close> stands for.\<close>

definition blocks_of :: "BlockRange \<Rightarrow> u64 set" where
  "blocks_of r = {br_Start r ..< br_End r}"

definition covered :: "BlockRange list \<Rightarrow> u64 set" where
  "covered rs = (\<Union>r \<in> set rs. blocks_of r)"

definition range_size :: "BlockRange \<Rightarrow> nat" where
  "range_size r = unat (br_End r) - unat (br_Start r)"

lemma blocks_of_iff [range_simps]: "x \<in> blocks_of r \<longleftrightarrow> br_Start r \<le> x \<and> x < br_End r"
  by (simp add: blocks_of_def)

lemma covered_Nil [simp]: "covered [] = {}"
  by (simp add: covered_def)

lemma covered_Cons [simp]: "covered (r # rs) = blocks_of r \<union> covered rs"
  by (simp add: covered_def)

lemma covered_append [simp]: "covered (rs @ ss) = covered rs \<union> covered ss"
  by (auto simp: covered_def)

lemma covered_iff: "x \<in> covered rs \<longleftrightarrow> (\<exists>r \<in> set rs. x \<in> blocks_of r)"
  by (simp add: covered_def)

lemma card_blocks_of: "card (blocks_of r) = range_size r"
  by (simp add: blocks_of_def range_size_def card_u64_range)

lemma finite_covered [simp]: "finite (covered rs)"
  by simp

section \<open>Hashing and RLP\<close>

text \<open>
  Keccak-256 and the RLP encoder are functions of go-ethereum; definitions that use them take them
  as an argument. \<open>rlp_EncodeList\<close> encodes a \<open>[]interface{}\<close> and fails (\<open>None\<close>) on values RLP
  cannot represent, such as negative integers.
\<close>

datatype rlp_item =
    ItemHash hash
  | ItemAddress address
  | ItemUint u64
  | ItemBytes bytes
  | ItemBig bigint

record hash_env =
  keccak256 :: "bytes \<Rightarrow> hash"
  rlp_EncodeList :: "rlp_item list \<Rightarrow> bytes option"

text \<open>
  \<open>rlp.Encode(hasher, items)\<close> followed by \<open>hasher.Read\<close>: the error of \<open>rlp.Encode\<close> is
  dropped by the callers, and a failed encoding writes nothing to the hasher.
\<close>

definition hash_items :: "hash_env \<Rightarrow> rlp_item list \<Rightarrow> hash" where
  "hash_items H items =
     keccak256 H (case rlp_EncodeList H items of None \<Rightarrow> [] | Some bs \<Rightarrow> bs)"

section \<open>Example data\<close>

text \<open>
  Small blocks for the worked examples, like \<open>createTestBlock\<close> of the repository's tests: the
  hash of block \<open>n\<close> is \<open>n\<close> and its parent's hash \<open>n - 1\<close>.
\<close>

definition example_header :: "u64 \<Rightarrow> Header" where
  "example_header n = \<lparr>hd_Number = n, hd_Hash = ucast n, hd_ParentHash = ucast (n - 1),
     hd_Coinbase = 1, hd_StateRoot = 0, hd_TxHash = EmptyRootHash, hd_ReceiptHash = EmptyRootHash,
     hd_GasLimit = 8000000, hd_GasUsed = 0, hd_Timestamp = 1000000 + 2 * n,
     hd_ExtraData = replicate 97 0, hd_MixDigest = 0, hd_Nonce = 0\<rparr>"

definition example_block :: "u64 \<Rightarrow> Block" where
  "example_block n = \<lparr>blk_Header = Some (example_header n), blk_Transactions = [], blk_Size = 1024\<rparr>"

lemma example_block_simps [simp]:
  "blk_Header (example_block n) = Some (example_header n)"
  "blk_Transactions (example_block n) = []"
  "block_number (example_block n) = Some n"
  "block_hash (example_block n) = Some (ucast n)"
  "hd_Number (example_header n) = n"
  "hd_Hash (example_header n) = ucast n"
  "hd_ParentHash (example_header n) = ucast (n - 1)"
  by (simp_all add: example_block_def example_header_def block_number_def block_hash_def)

end
