(* ===== verification/Block_Validation.thy ===== *)
theory Block_Validation
  imports Chain_Types
begin

text \<open>
  \<open>pkg/validation/validator.go\<close>: the block validators. A validator is a value of the datatype
  \<open>BlockValidator\<close> (the three implementations of the interface); validating returns \<open>Ok ()\<close>, the
  first error, or the panic the code runs into (the code reads \<open>parent.Header\<close> without a nil
  check, and divides by the sprint size). \<open>now\<close> is the Unix time the call reads.
\<close>

section \<open>Model\<close>

datatype validation_error =
    HeaderIsNil
  | InvalidBlockNumber
  | GasLimitTooLow u64 u64
  | GasLimitTooHigh u64 u64
  | GasUsedExceedsLimit u64 u64
  | UnexpectedNumber u64 u64
  | InvalidParentHash hash hash
  | InvalidTimestamp u64 u64
  | TimestampInFuture u64 u64
  | GasLimitChangedTooMuch int int
  | HeaderHashMismatch hash hash
  | ExtraDataTooShort nat
  | SprintExtraDataTooShort nat
  | UnauthorizedMiner address
  | NegativeNonce
  | ZeroGasLimit
  | InvalidGasPrice
  | InvalidValue
  | TransactionHashMismatch hash hash
  | TxHashRootMismatch hash hash
  | TotalGasExceedsLimit u64 u64
  | TransactionFailed nat validation_error
  | HeaderFailed validation_error
  | TransactionsFailed validation_error
  | ConsensusFailed validation_error
  | ExtraDataFailed validation_error
  | MinerFailed validation_error

record PolygonValidator =
  pv_chainID :: bigint
  pv_minGasLimit :: u64
  pv_maxGasLimit :: u64
  pv_blockPeriod :: u64
  pv_sprintSize :: u64
  pv_validatorSetFn :: "(u64 \<Rightarrow> (string, address list) outcome) option"
  pv_strictTimestamp :: bool

record ValidatorConfig =
  vc_ChainID :: bigint
  vc_MinGasLimit :: u64
  vc_MaxGasLimit :: u64
  vc_BlockPeriod :: u64
  vc_SprintSize :: u64
  vc_StrictTimestamp :: bool

definition DefaultPolygonConfig :: ValidatorConfig where
  "DefaultPolygonConfig = \<lparr>vc_ChainID = Some 137, vc_MinGasLimit = 5000, vc_MaxGasLimit = 30000000,
     vc_BlockPeriod = 2, vc_SprintSize = 16, vc_StrictTimestamp = False\<rparr>"

definition NewPolygonValidator :: "ValidatorConfig option \<Rightarrow> PolygonValidator" where
  "NewPolygonValidator cfg =
     (let c = (case cfg of None \<Rightarrow> DefaultPolygonConfig | Some c \<Rightarrow> c) in
      \<lparr>pv_chainID = vc_ChainID c, pv_minGasLimit = vc_MinGasLimit c, pv_maxGasLimit = vc_MaxGasLimit c,
       pv_blockPeriod = vc_BlockPeriod c, pv_sprintSize = vc_SprintSize c,
       pv_validatorSetFn = None, pv_strictTimestamp = vc_StrictTimestamp c\<rparr>)"

definition SetValidatorSetFunction ::
  "PolygonValidator \<Rightarrow> (u64 \<Rightarrow> (string, address list) outcome) option \<Rightarrow> PolygonValidator" where
  "SetValidatorSetFunction v fn = v\<lparr>pv_validatorSetFn := fn\<rparr>"

subsection \<open>Headers\<close>

definition computeHeaderHash :: "hash_env \<Rightarrow> Header \<Rightarrow> hash" where
  "computeHeaderHash H h = hash_items H
     [ItemHash (hd_ParentHash h), ItemAddress (hd_Coinbase h), ItemHash (hd_StateRoot h),
      ItemHash (hd_TxHash h), ItemHash (hd_ReceiptHash h), ItemUint (hd_Number h),
      ItemUint (hd_GasLimit h), ItemUint (hd_GasUsed h), ItemUint (hd_Timestamp h),
      ItemBytes (hd_ExtraData h), ItemHash (hd_MixDigest h), ItemUint (hd_Nonce h)]"

definition validateHeaderHash :: "hash_env \<Rightarrow> Header \<Rightarrow> (validation_error, unit) outcome" where
  "validateHeaderHash H h =
     (let computed = computeHeaderHash H h in
      if computed \<noteq> hd_Hash h then Err (HeaderHashMismatch computed (hd_Hash h)) else Ok ())"

text \<open>The gas limit rule, in 64-bit signed arithmetic.\<close>

definition gasLimitDelta :: "Header \<Rightarrow> Header \<Rightarrow> int" where
  "gasLimitDelta h p =
     (let d = to_int64 (to_int64 (uint (hd_GasLimit h)) - to_int64 (uint (hd_GasLimit p))) in
      if d < 0 then to_int64 (- d) else d)"

definition maxGasDelta :: "Header \<Rightarrow> int" where
  "maxGasDelta p = to_int64 (uint (hd_GasLimit p div 1024))"

definition validateHeaderAgainstParent ::
  "u64 \<Rightarrow> PolygonValidator \<Rightarrow> Header \<Rightarrow> Header \<Rightarrow> (validation_error, unit) outcome" where
  "validateHeaderAgainstParent now v h p =
     (if hd_Number h \<noteq> hd_Number p + 1 then Err (UnexpectedNumber (hd_Number p + 1) (hd_Number h))
      else if hd_ParentHash h \<noteq> hd_Hash p then Err (InvalidParentHash (hd_Hash p) (hd_ParentHash h))
      else if hd_Timestamp h \<le> hd_Timestamp p then Err (InvalidTimestamp (hd_Timestamp h) (hd_Timestamp p))
      else if pv_strictTimestamp v \<and> hd_Timestamp h > now + 15 then
        Err (TimestampInFuture (hd_Timestamp h) (now + 15))
      else if gasLimitDelta h p > maxGasDelta p then
        Err (GasLimitChangedTooMuch (gasLimitDelta h p) (maxGasDelta p))
      else Ok ())"

definition ValidateBlockHeader ::
  "hash_env \<Rightarrow> u64 \<Rightarrow> PolygonValidator \<Rightarrow> Header option \<Rightarrow> Header option \<Rightarrow> (validation_error, unit) outcome" where
  "ValidateBlockHeader H now v header parent =
     (case header of
        None \<Rightarrow> Err HeaderIsNil
      | Some h \<Rightarrow>
          if hd_Number h = 0 then Err InvalidBlockNumber
          else if hd_GasLimit h < pv_minGasLimit v then Err (GasLimitTooLow (hd_GasLimit h) (pv_minGasLimit v))
          else if hd_GasLimit h > pv_maxGasLimit v then Err (GasLimitTooHigh (hd_GasLimit h) (pv_maxGasLimit v))
          else if hd_GasUsed h > hd_GasLimit h then Err (GasUsedExceedsLimit (hd_GasUsed h) (hd_GasLimit h))
          else
            bind_outcome (case parent of None \<Rightarrow> Ok () | Some p \<Rightarrow> validateHeaderAgainstParent now v h p) (\<lambda>_.
            validateHeaderHash H h))"

subsection \<open>Consensus\<close>

definition validateExtraData :: "Header \<Rightarrow> bool \<Rightarrow> (validation_error, unit) outcome" where
  "validateExtraData h isSprintEnd =
     (let extraDataLen = length (hd_ExtraData h) in
      if extraDataLen < 32 then Err (ExtraDataTooShort extraDataLen)
      else if isSprintEnd \<and> extraDataLen < 32 + 65 then Err (SprintExtraDataTooShort extraDataLen)
      else Ok ())"

fun validateMiner :: "Header \<Rightarrow> address list \<Rightarrow> (validation_error, unit) outcome" where
  "validateMiner h [] = Err (UnauthorizedMiner (hd_Coinbase h))"
| "validateMiner h (a # validators) = (if a = hd_Coinbase h then Ok () else validateMiner h validators)"

definition ValidateConsensus ::
  "PolygonValidator \<Rightarrow> Block option \<Rightarrow> Block option \<Rightarrow> (validation_error, unit) outcome" where
  "ValidateConsensus v block parent =
     deref block (\<lambda>b. deref (blk_Header b) (\<lambda>h.
     if pv_sprintSize v = 0 then Panic DivideByZero
     else
       bind_outcome (wrap_error ExtraDataFailed
         (validateExtraData h (hd_Number h mod pv_sprintSize v = 0))) (\<lambda>_.
       case pv_validatorSetFn v of
         None \<Rightarrow> Ok ()
       | Some fn \<Rightarrow>
           (case fn (hd_Number h) of
              Err _ \<Rightarrow> Ok ()
            | Panic p \<Rightarrow> Panic p
            | Ok validators \<Rightarrow> wrap_error MinerFailed (validateMiner h validators)))))"

subsection \<open>Transactions\<close>

definition computeTransactionHash :: "hash_env \<Rightarrow> Transaction \<Rightarrow> hash" where
  "computeTransactionHash H tx = hash_items H
     [ItemUint (tx_Nonce tx), ItemBig (tx_GasPrice tx), ItemUint (tx_Gas tx), ItemAddress (tx_To tx),
      ItemBig (tx_Value tx), ItemBytes (tx_Data tx), ItemBig (tx_V tx), ItemBig (tx_R tx), ItemBig (tx_S tx)]"

definition validateTransaction :: "hash_env \<Rightarrow> Transaction \<Rightarrow> u64 \<Rightarrow> (validation_error, unit) outcome" where
  "validateTransaction H tx blockNumber =
     (if tx_Nonce tx < 0 then Err NegativeNonce
      else if tx_Gas tx = 0 then Err ZeroGasLimit
      else if (case tx_GasPrice tx of None \<Rightarrow> True | Some p \<Rightarrow> p < 0) then Err InvalidGasPrice
      else if (case tx_Value tx of None \<Rightarrow> True | Some p \<Rightarrow> p < 0) then Err InvalidValue
      else
        (let computed = computeTransactionHash H tx in
         if computed \<noteq> tx_Hash tx then Err (TransactionHashMismatch computed (tx_Hash tx)) else Ok ()))"

definition computeMerkleRoot :: "hash_env \<Rightarrow> bytes list \<Rightarrow> hash" where
  "computeMerkleRoot H hashes =
     (case hashes of
        [] \<Rightarrow> 0
      | [x] \<Rightarrow> BytesToHash x
      | x # xs \<Rightarrow> BytesToHash (foldl (\<lambda>current y. hash_bytes (keccak256 H (current @ y))) x xs))"

fun txHashes :: "Transaction option list \<Rightarrow> ('e, bytes list) outcome" where
  "txHashes [] = Ok []"
| "txHashes (tx # txs) =
     deref tx (\<lambda>t. bind_outcome (txHashes txs) (\<lambda>hs. Ok (hash_bytes (tx_Hash t) # hs)))"

definition computeTxHashRoot :: "hash_env \<Rightarrow> Transaction option list \<Rightarrow> ('e, hash) outcome" where
  "computeTxHashRoot H txs =
     (if length txs = 0 then Ok EmptyRootHash
      else bind_outcome (txHashes txs) (\<lambda>hs. Ok (computeMerkleRoot H hs)))"

definition validateTxHashRoot :: "hash_env \<Rightarrow> Block \<Rightarrow> (validation_error, unit) outcome" where
  "validateTxHashRoot H b =
     bind_outcome (computeTxHashRoot H (blk_Transactions b)) (\<lambda>root.
     deref (blk_Header b) (\<lambda>h.
     if root \<noteq> hd_TxHash h then Err (TxHashRootMismatch root (hd_TxHash h)) else Ok ()))"

text \<open>The loop over the transactions: \<open>i\<close> is the index, \<open>totalGas\<close> the 64-bit sum so far.\<close>

fun validateEach ::
  "hash_env \<Rightarrow> Header option \<Rightarrow> nat \<Rightarrow> u64 \<Rightarrow> Transaction option list \<Rightarrow> (validation_error, u64) outcome" where
  "validateEach H hdr i totalGas [] = Ok totalGas"
| "validateEach H hdr i totalGas (tx # txs) =
     deref hdr (\<lambda>h. deref tx (\<lambda>t.
     bind_outcome (wrap_error (TransactionFailed i) (validateTransaction H t (hd_Number h))) (\<lambda>_.
     validateEach H hdr (i + 1) (totalGas + tx_Gas t) txs)))"

definition ValidateTransactions :: "hash_env \<Rightarrow> Block option \<Rightarrow> (validation_error, unit) outcome" where
  "ValidateTransactions H block =
     deref block (\<lambda>b.
     if length (blk_Transactions b) = 0 then Ok ()
     else
       bind_outcome (validateTxHashRoot H b) (\<lambda>_.
       bind_outcome (validateEach H (blk_Header b) 0 0 (blk_Transactions b)) (\<lambda>totalGas.
       deref (blk_Header b) (\<lambda>h.
       if totalGas > hd_GasLimit h then Err (TotalGasExceedsLimit totalGas (hd_GasLimit h)) else Ok ()))))"

subsection \<open>The validators\<close>

definition polygon_ValidateBlock ::
  "hash_env \<Rightarrow> u64 \<Rightarrow> PolygonValidator \<Rightarrow> Block option \<Rightarrow> Block option \<Rightarrow> (validation_error, unit) outcome" where
  "polygon_ValidateBlock H now v block parent =
     deref block (\<lambda>b. deref parent (\<lambda>p.
     bind_outcome (wrap_error HeaderFailed (ValidateBlockHeader H now v (blk_Header b) (blk_Header p))) (\<lambda>_.
     bind_outcome (wrap_error TransactionsFailed (ValidateTransactions H block)) (\<lambda>_.
     wrap_error ConsensusFailed (ValidateConsensus v block parent)))))"

definition light_ValidateBlock ::
  "hash_env \<Rightarrow> u64 \<Rightarrow> PolygonValidator \<Rightarrow> Block option \<Rightarrow> Block option \<Rightarrow> (validation_error, unit) outcome" where
  "light_ValidateBlock H now v block parent =
     deref block (\<lambda>b. deref parent (\<lambda>p. ValidateBlockHeader H now v (blk_Header b) (blk_Header p)))"

datatype BlockValidator =
    Polygon PolygonValidator
  | Light PolygonValidator
  | NoOp

definition NewLightValidator :: "ValidatorConfig option \<Rightarrow> BlockValidator" where
  "NewLightValidator cfg = Light (NewPolygonValidator cfg)"

definition NewNoOpValidator :: BlockValidator where
  "NewNoOpValidator = NoOp"

text \<open>Interface dispatch: the light validator embeds a \<open>PolygonValidator\<close> and overrides \<open>ValidateBlock\<close>.\<close>

fun ValidateBlock ::
  "hash_env \<Rightarrow> u64 \<Rightarrow> BlockValidator \<Rightarrow> Block option \<Rightarrow> Block option \<Rightarrow> (validation_error, unit) outcome" where
  "ValidateBlock H now (Polygon v) block parent = polygon_ValidateBlock H now v block parent"
| "ValidateBlock H now (Light v) block parent = light_ValidateBlock H now v block parent"
| "ValidateBlock H now NoOp block parent = Ok ()"

fun validator_Header ::
  "hash_env \<Rightarrow> u64 \<Rightarrow> BlockValidator \<Rightarrow> Header option \<Rightarrow> Header option \<Rightarrow> (validation_error, unit) outcome" where
  "validator_Header H now (Polygon v) header parent = ValidateBlockHeader H now v header parent"
| "validator_Header H now (Light v) header parent = ValidateBlockHeader H now v header parent"
| "validator_Header H now NoOp header parent = Ok ()"

fun validator_Consensus ::
  "BlockValidator \<Rightarrow> Block option \<Rightarrow> Block option \<Rightarrow> (validation_error, unit) outcome" where
  "validator_Consensus (Polygon v) block parent = ValidateConsensus v block parent"
| "validator_Consensus (Light v) block parent = ValidateConsensus v block parent"
| "validator_Consensus NoOp block parent = Ok ()"

fun validator_Transactions :: "hash_env \<Rightarrow> BlockValidator \<Rightarrow> Block option \<Rightarrow> (validation_error, unit) outcome" where
  "validator_Transactions H (Polygon v) block = ValidateTransactions H block"
| "validator_Transactions H (Light v) block = ValidateTransactions H block"
| "validator_Transactions H NoOp block = Ok ()"

section \<open>What acceptance means\<close>

definition header_ok :: "hash_env \<Rightarrow> PolygonValidator \<Rightarrow> Header \<Rightarrow> bool" where
  "header_ok H v h \<longleftrightarrow>
     hd_Number h \<noteq> 0 \<and> pv_minGasLimit v \<le> hd_GasLimit h \<and> hd_GasLimit h \<le> pv_maxGasLimit v \<and>
     hd_GasUsed h \<le> hd_GasLimit h \<and> hd_Hash h = computeHeaderHash H h"

definition child_ok :: "u64 \<Rightarrow> PolygonValidator \<Rightarrow> Header \<Rightarrow> Header \<Rightarrow> bool" where
  "child_ok now v p h \<longleftrightarrow>
     hd_Number h = hd_Number p + 1 \<and> hd_ParentHash h = hd_Hash p \<and> hd_Timestamp p < hd_Timestamp h \<and>
     (pv_strictTimestamp v \<longrightarrow> hd_Timestamp h \<le> now + 15) \<and> gasLimitDelta h p \<le> maxGasDelta p"

lemma validateHeaderAgainstParent_iff:
  "validateHeaderAgainstParent now v h p = Ok () \<longleftrightarrow> child_ok now v p h"
  by (simp add: validateHeaderAgainstParent_def child_ok_def not_less not_le)

lemma ValidateBlockHeader_iff:
  "ValidateBlockHeader H now v (Some h) parent = Ok () \<longleftrightarrow>
     header_ok H v h \<and> (case parent of None \<Rightarrow> True | Some p \<Rightarrow> child_ok now v p h)"
  by (auto simp: ValidateBlockHeader_def header_ok_def validateHeaderHash_def Let_def not_less
      validateHeaderAgainstParent_iff split: option.splits)

lemma ValidateBlockHeader_nil [simp]: "ValidateBlockHeader H now v None parent = Err HeaderIsNil"
  by (simp add: ValidateBlockHeader_def)

text \<open>Both real validators accept only blocks whose header they accept.\<close>

fun rules_of :: "BlockValidator \<Rightarrow> PolygonValidator option" where
  "rules_of (Polygon v) = Some v"
| "rules_of (Light v) = Some v"
| "rules_of NoOp = None"

lemma ValidateBlock_header:
  assumes "ValidateBlock H now V (Some b) (Some p) = Ok ()" and "rules_of V = Some v"
  shows "ValidateBlockHeader H now v (blk_Header b) (blk_Header p) = Ok ()"
  using assms by (cases V) (auto simp: polygon_ValidateBlock_def light_ValidateBlock_def)

lemma ValidateBlock_child:
  assumes "ValidateBlock H now V (Some b) (Some p) = Ok ()" and "rules_of V = Some v"
    and "blk_Header p = Some ph"
  obtains h where "blk_Header b = Some h" "header_ok H v h" "child_ok now v ph h"
proof (cases "blk_Header b")
  case None
  with ValidateBlock_header [OF assms(1,2)] show thesis by simp
next
  case (Some h)
  with ValidateBlock_header [OF assms(1,2)] assms(3) that show thesis
    by (simp add: ValidateBlockHeader_iff)
qed

lemma child_number:
  assumes "child_ok now v p h" and "header_ok H v h"
  shows "unat (hd_Number h) = Suc (unat (hd_Number p))"
proof -
  have "hd_Number p \<noteq> u64_max" using assms by (auto simp: child_ok_def header_ok_def)
  then have "hd_Number p < u64_max" by (simp add: u64_less_max_iff)
  with assms(1) show ?thesis by (simp add: child_ok_def unat_Suc_u64)
qed

section \<open>Validated chains\<close>

text \<open>Each block of the list was accepted against its predecessor, at some time.\<close>

fun validated_chain :: "hash_env \<Rightarrow> BlockValidator \<Rightarrow> Block list \<Rightarrow> bool" where
  "validated_chain H V (p # b # bs) \<longleftrightarrow>
     (\<exists>now. ValidateBlock H now V (Some b) (Some p) = Ok ()) \<and> validated_chain H V (b # bs)"
| "validated_chain H V bs \<longleftrightarrow> True"

text \<open>The headers of a chain above the header \<open>p\<close>.\<close>

fun header_chain :: "hash_env \<Rightarrow> PolygonValidator \<Rightarrow> Header \<Rightarrow> Header list \<Rightarrow> bool" where
  "header_chain H v p [] \<longleftrightarrow> True"
| "header_chain H v p (h # hs) \<longleftrightarrow>
     header_ok H v h \<and> (\<exists>now. child_ok now v p h) \<and> header_chain H v h hs"

lemma validated_chain_headers:
  assumes "validated_chain H V (g # bs)" and "rules_of V = Some v" and "blk_Header g = Some p"
  shows "\<exists>hs. map blk_Header bs = map Some hs \<and> header_chain H v p hs"
  using assms(1,3)
proof (induction bs arbitrary: g p)
  case (Cons b bs)
  then obtain now where ok: "ValidateBlock H now V (Some b) (Some g) = Ok ()"
    and rest: "validated_chain H V (b # bs)" by auto
  obtain h where h: "blk_Header b = Some h" "header_ok H v h" "child_ok now v p h"
    using ok assms(2) Cons.prems(2) by (rule ValidateBlock_child)
  obtain hs where "map blk_Header bs = map Some hs" "header_chain H v h hs"
    using Cons.IH [OF rest h(1)] by auto
  then have "map blk_Header (b # bs) = map Some (h # hs)" "header_chain H v p (h # hs)"
    using h by auto
  then show ?case by blast
qed simp

lemma header_chain_links:
  "header_chain H v p hs \<Longrightarrow> i < length hs \<Longrightarrow>
   header_ok H v (hs ! i) \<and> (\<exists>now. child_ok now v ((p # hs) ! i) (hs ! i))"
proof (induction hs arbitrary: p i)
  case (Cons h hs)
  then show ?case by (cases i) auto
qed simp

lemma header_chain_numbers:
  "header_chain H v p hs \<Longrightarrow> i < length hs \<Longrightarrow> unat (hd_Number (hs ! i)) = unat (hd_Number p) + Suc i"
proof (induction hs arbitrary: p i)
  case (Cons h hs)
  then show ?case using child_number by (cases i) auto
qed simp

lemma header_chain_timestamps:
  "header_chain H v p hs \<Longrightarrow> sorted_wrt (\<lambda>a b. hd_Timestamp a < hd_Timestamp b) (p # hs)"
proof (induction hs arbitrary: p)
  case (Cons h hs)
  then have IH: "sorted_wrt (\<lambda>a b. hd_Timestamp a < hd_Timestamp b) (h # hs)"
    and "hd_Timestamp p < hd_Timestamp h" by (auto simp: child_ok_def)
  then show ?case by (auto dest: less_trans)
qed simp

text \<open>
  No two different headers of \<open>S\<close> have the same digest, up to the \<open>Hash\<close> field (which is not
  part of the digest).
\<close>

definition collision_free :: "hash_env \<Rightarrow> Header set \<Rightarrow> bool" where
  "collision_free H S \<longleftrightarrow>
     (\<forall>h \<in> S. \<forall>h' \<in> S. computeHeaderHash H h = computeHeaderHash H h' \<longrightarrow>
        h\<lparr>hd_Hash := 0\<rparr> = h'\<lparr>hd_Hash := 0\<rparr>)"

lemma collision_free_eq:
  assumes "collision_free H S" and "h \<in> S" and "h' \<in> S" and "hd_Hash h = hd_Hash h'"
    and "header_ok H v h" and "header_ok H v h'"
  shows "h = h'"
proof -
  have "computeHeaderHash H h = computeHeaderHash H h'"
    using assms(4-6) unfolding header_ok_def by metis
  then have "h\<lparr>hd_Hash := 0\<rparr> = h'\<lparr>hd_Hash := 0\<rparr>"
    using assms(1-3) unfolding collision_free_def by blast
  with assms(4) show ?thesis by (cases h; cases h') simp
qed

lemma collision_free_subset: "collision_free H T \<Longrightarrow> S \<subseteq> T \<Longrightarrow> collision_free H S"
  unfolding collision_free_def by (meson subsetD)

lemma header_chain_unique:
  assumes "header_chain H v p hs" and "header_chain H v q ks" and "length hs = length ks"
    and "hd_Hash (last (p # hs)) = hd_Hash (last (q # ks))"
    and "collision_free H (set hs \<union> set ks)"
  shows "hs = ks \<and> hd_Hash p = hd_Hash q"
  using assms(3,1,2,4,5)
proof (induction hs ks arbitrary: p q rule: list_induct2)
  case (Cons h hs k ks)
  have cf: "collision_free H (set hs \<union> set ks)"
    by (rule collision_free_subset [OF Cons.prems(4)]) auto
  have "hs = ks \<and> hd_Hash h = hd_Hash k"
    by (rule Cons.IH [OF _ _ _ cf]) (use Cons.prems(1-3) in simp_all)
  then have "hs = ks" and hk: "hd_Hash h = hd_Hash k" by simp_all
  have "h = k"
    by (rule collision_free_eq [OF Cons.prems(4) _ _ hk, of v]) (use Cons.prems(1,2) in simp_all)
  with \<open>hs = ks\<close> Cons.prems(1,2) show ?case by (auto simp: child_ok_def)
qed simp

section \<open>Transactions\<close>

definition tx_ok :: "hash_env \<Rightarrow> Transaction \<Rightarrow> bool" where
  "tx_ok H t \<longleftrightarrow>
     tx_Gas t \<noteq> 0 \<and> (\<exists>p \<ge> 0. tx_GasPrice t = Some p) \<and> (\<exists>x \<ge> 0. tx_Value t = Some x) \<and>
     tx_Hash t = computeTransactionHash H t"

definition total_gas :: "Transaction list \<Rightarrow> nat" where
  "total_gas ts = sum_list (map (\<lambda>t. unat (tx_Gas t)) ts)"

lemma validateTransaction_iff: "validateTransaction H t n = Ok () \<longleftrightarrow> tx_ok H t"
  by (auto simp: validateTransaction_def tx_ok_def Let_def split: option.splits)

lemma validateEach_ok:
  "validateEach H hdr i g txs = Ok g' \<longleftrightarrow>
     (\<exists>ts. txs = map Some ts \<and> list_all (tx_ok H) ts \<and> (ts \<noteq> [] \<longrightarrow> hdr \<noteq> None) \<and>
       g' = g + of_nat (total_gas ts))"
proof (induction txs arbitrary: i g)
  case Nil
  then show ?case by (auto simp: total_gas_def)
next
  case (Cons tx txs)
  have "validateEach H hdr i g (tx # txs) = Ok g' \<longleftrightarrow>
      (\<exists>h t. hdr = Some h \<and> tx = Some t \<and> tx_ok H t \<and>
        validateEach H hdr (i + 1) (g + tx_Gas t) txs = Ok g')"
    by (auto simp: validateTransaction_iff)
  also have "\<dots> \<longleftrightarrow> (\<exists>ts. tx # txs = map Some ts \<and> list_all (tx_ok H) ts \<and> (ts \<noteq> [] \<longrightarrow> hdr \<noteq> None) \<and>
       g' = g + of_nat (total_gas ts))"
  proof
    assume "\<exists>h t. hdr = Some h \<and> tx = Some t \<and> tx_ok H t \<and>
        validateEach H hdr (i + 1) (g + tx_Gas t) txs = Ok g'"
    then obtain h t ts where "hdr = Some h" "tx = Some t" "tx_ok H t" "txs = map Some ts"
      "list_all (tx_ok H) ts" "g' = g + tx_Gas t + of_nat (total_gas ts)" using Cons.IH by auto
    then show "\<exists>ts. tx # txs = map Some ts \<and> list_all (tx_ok H) ts \<and> (ts \<noteq> [] \<longrightarrow> hdr \<noteq> None) \<and>
       g' = g + of_nat (total_gas ts)"
      by (intro exI [of _ "t # ts"]) (simp add: total_gas_def add.assoc)
  next
    assume "\<exists>ts. tx # txs = map Some ts \<and> list_all (tx_ok H) ts \<and> (ts \<noteq> [] \<longrightarrow> hdr \<noteq> None) \<and>
       g' = g + of_nat (total_gas ts)"
    then obtain t ts where "tx = Some t" "txs = map Some ts" "tx_ok H t" "list_all (tx_ok H) ts"
      "hdr \<noteq> None" "g' = g + of_nat (total_gas (t # ts))" by (auto simp: Cons_eq_map_conv)
    then show "\<exists>h t. hdr = Some h \<and> tx = Some t \<and> tx_ok H t \<and>
        validateEach H hdr (i + 1) (g + tx_Gas t) txs = Ok g'"
      using Cons.IH [of "i + 1" "g + tx_Gas t"] by (auto simp: total_gas_def add.assoc)
  qed
  finally show ?case .
qed

lemma txHashes_ok: "txHashes txs = Ok hs \<longleftrightarrow> (\<exists>ts. txs = map Some ts \<and> hs = map (\<lambda>t. hash_bytes (tx_Hash t)) ts)"
proof (induction txs arbitrary: hs)
  case (Cons tx txs)
  then show ?case by (auto simp: Cons_eq_map_conv)
qed auto

lemma ValidateTransactions_iff:
  "ValidateTransactions H (Some b) = Ok () \<longleftrightarrow>
     blk_Transactions b = [] \<or>
     (\<exists>h ts. blk_Header b = Some h \<and> blk_Transactions b = map Some ts \<and> ts \<noteq> [] \<and>
       computeMerkleRoot H (map (\<lambda>t. hash_bytes (tx_Hash t)) ts) = hd_TxHash h \<and>
       list_all (tx_ok H) ts \<and> total_gas ts mod 2 ^ 64 \<le> unat (hd_GasLimit h))"
proof (cases "\<exists>ts. blk_Transactions b = map Some ts")
  case True
  then obtain ts where ts: "blk_Transactions b = map Some ts" by blast
  have gas: "\<not> hd_GasLimit h < of_nat (total_gas ts) \<longleftrightarrow> total_gas ts mod 2 ^ 64 \<le> unat (hd_GasLimit h)" for h
    by (simp add: not_less word_le_nat_alt unat_of_nat)
  have hashes: "txHashes (map Some ts) = Ok (map (\<lambda>t. hash_bytes (tx_Hash t)) ts)"
    by (auto simp: txHashes_ok)
  have each: "validateEach H (Some h) 0 0 (map Some ts) = Ok g \<longleftrightarrow>
      list_all (tx_ok H) ts \<and> g = of_nat (total_gas ts)" for h g
    by (auto simp: validateEach_ok)
  show ?thesis
    using gas by (cases "blk_Header b")
      (auto simp: ValidateTransactions_def validateTxHashRoot_def computeTxHashRoot_def ts hashes each)
next
  case False
  then have "txHashes (blk_Transactions b) \<noteq> Ok hs" for hs by (simp add: txHashes_ok)
  with False show ?thesis
    by (auto simp: ValidateTransactions_def validateTxHashRoot_def computeTxHashRoot_def)
qed

text \<open>Removing every transaction from an accepted block keeps it acceptable.\<close>

definition strip_body :: "Block \<Rightarrow> Block" where
  "strip_body b = b\<lparr>blk_Transactions := []\<rparr>"

section \<open>The transaction root\<close>

text \<open>The inputs that \<open>computeMerkleRoot\<close> hashes, in order.\<close>

fun merkle_inputs :: "hash_env \<Rightarrow> bytes \<Rightarrow> bytes list \<Rightarrow> bytes list" where
  "merkle_inputs H c [] = []"
| "merkle_inputs H c (x # xs) = (c @ x) # merkle_inputs H (hash_bytes (keccak256 H (c @ x))) xs"

fun root_inputs :: "hash_env \<Rightarrow> bytes list \<Rightarrow> bytes set" where
  "root_inputs H [] = {}"
| "root_inputs H (x # xs) = set (merkle_inputs H x xs)"

lemma merkle_fold_inject:
  assumes "length xs = length ys"
    and "foldl (\<lambda>c y. hash_bytes (keccak256 H (c @ y))) c xs = foldl (\<lambda>c y. hash_bytes (keccak256 H (c @ y))) d ys"
    and "inj_on (keccak256 H) (set (merkle_inputs H c xs) \<union> set (merkle_inputs H d ys))"
    and "length c = length d" and "list_all2 (\<lambda>x y. length x = length y) xs ys"
  shows "c = d \<and> xs = ys"
  using assms
proof (induction xs ys arbitrary: c d rule: list_induct2)
  case (Cons x xs y ys)
  let ?c = "hash_bytes (keccak256 H (c @ x))" and ?d = "hash_bytes (keccak256 H (d @ y))"
  have inj: "inj_on (keccak256 H) (set (merkle_inputs H ?c xs) \<union> set (merkle_inputs H ?d ys))"
    by (rule inj_on_subset [OF Cons.prems(2)]) auto
  have "?c = ?d \<and> xs = ys"
    by (rule Cons.IH [OF _ inj]) (use Cons.prems in simp_all)
  moreover from this have "c @ x = d @ y"
    by (intro inj_onD [OF Cons.prems(2)]) simp_all
  ultimately show ?case using Cons.prems(3) by simp
qed simp

lemma computeMerkleRoot_Cons:
  assumes "length x = 32" and "list_all (\<lambda>y. length y = 32) xs"
  shows "computeMerkleRoot H (x # xs) = BytesToHash (foldl (\<lambda>c y. hash_bytes (keccak256 H (c @ y))) x xs)"
  by (cases xs) (simp_all add: computeMerkleRoot_def)

lemma merkle_fold_length:
  "length c = 32 \<Longrightarrow> length (foldl (\<lambda>c y. hash_bytes (keccak256 H (c @ y))) c xs) = 32"
  by (induction xs arbitrary: c) simp_all

text \<open>
  The root binds the list of transaction hashes of a given length, as long as no two of the hashed
  inputs collide.
\<close>

lemma merkle_root_binds:
  assumes "length ts = length us"
    and "computeMerkleRoot H (map hash_bytes ts) = computeMerkleRoot H (map hash_bytes us)"
    and "inj_on (keccak256 H) (root_inputs H (map hash_bytes ts) \<union> root_inputs H (map hash_bytes us))"
  shows "ts = us"
proof (cases ts)
  case Nil
  with assms(1) show ?thesis by simp
next
  case (Cons t ts')
  then obtain u us' where us: "us = u # us'" "length ts' = length us'"
    using assms(1) by (cases us) auto
  let ?f = "foldl (\<lambda>c y. hash_bytes (keccak256 H (c @ y)))"
  have len: "list_all (\<lambda>y. length y = 32) (map hash_bytes xs)" for xs by (induction xs) simp_all
  have root: "computeMerkleRoot H (map hash_bytes (x # xs)) = BytesToHash (?f (hash_bytes x) (map hash_bytes xs))" for x xs
    using computeMerkleRoot_Cons [OF length_hash_bytes len, of H x xs] by simp
  have "hash_bytes (BytesToHash (?f (hash_bytes t) (map hash_bytes ts'))) =
      hash_bytes (BytesToHash (?f (hash_bytes u) (map hash_bytes us')))"
    using assms(2) Cons us root by simp
  then have eq: "?f (hash_bytes t) (map hash_bytes ts') = ?f (hash_bytes u) (map hash_bytes us')"
    by (simp add: hash_bytes_BytesToHash merkle_fold_length)
  have "list_all2 (\<lambda>x y. length x = length y) (map hash_bytes ts') (map hash_bytes us')"
    using us(2) by (simp add: list_all2_conv_all_nth)
  then have "hash_bytes t = hash_bytes u \<and> map hash_bytes ts' = map hash_bytes us'"
    using merkle_fold_inject [OF _ eq] assms(3) Cons us by simp
  moreover have "inj hash_bytes" by (simp add: inj_def)
  ultimately show ?thesis using Cons us by (simp add: inj_map_eq_map)
qed

section \<open>The gas limit rule\<close>

lemma gas_delta_exact:
  assumes "unat (hd_GasLimit h) < 2 ^ 63" and "unat (hd_GasLimit p) < 2 ^ 63"
  shows "gasLimitDelta h p = \<bar>uint (hd_GasLimit h) - uint (hd_GasLimit p)\<bar>"
    and "maxGasDelta p = uint (hd_GasLimit p) div 1024"
proof -
  have b: "0 \<le> uint (hd_GasLimit h)" "uint (hd_GasLimit h) < 2 ^ 63"
    "0 \<le> uint (hd_GasLimit p)" "uint (hd_GasLimit p) < 2 ^ 63"
    using uint_bounds [OF assms(1)] uint_bounds [OF assms(2)] by simp_all
  have d: "to_int64 (uint (hd_GasLimit h)) = uint (hd_GasLimit h)"
    "to_int64 (uint (hd_GasLimit p)) = uint (hd_GasLimit p)"
    using assms by (simp_all add: to_int64_uint)
  have "to_int64 (uint (hd_GasLimit h) - uint (hd_GasLimit p)) = uint (hd_GasLimit h) - uint (hd_GasLimit p)"
    "to_int64 (- (uint (hd_GasLimit h) - uint (hd_GasLimit p))) = - (uint (hd_GasLimit h) - uint (hd_GasLimit p))"
    by (rule to_int64_id; use b in linarith)+
  then show "gasLimitDelta h p = \<bar>uint (hd_GasLimit h) - uint (hd_GasLimit p)\<bar>"
    by (simp add: gasLimitDelta_def Let_def d)
  have "uint (hd_GasLimit p div 1024) = uint (hd_GasLimit p) div 1024" by (simp add: uint_div)
  moreover have "to_int64 (uint (hd_GasLimit p) div 1024) = uint (hd_GasLimit p) div 1024"
    by (rule to_int64_id; use b(3,4) in linarith)
  ultimately show "maxGasDelta p = uint (hd_GasLimit p) div 1024" by (simp add: maxGasDelta_def)
qed

section \<open>Panics\<close>

definition complete_block :: "Block \<Rightarrow> bool" where
  "complete_block b \<longleftrightarrow> blk_Header b \<noteq> None \<and> None \<notin> set (blk_Transactions b)"

lemma txHashes_no_panic: "None \<notin> set txs \<Longrightarrow> txHashes txs \<noteq> Panic x"
  by (induction txs) (auto simp: outcome_eq_Panic)

lemma validateTransaction_no_panic: "validateTransaction H t n \<noteq> Panic x"
  by (simp add: validateTransaction_def Let_def)

lemma validateEach_no_panic:
  "hdr \<noteq> None \<Longrightarrow> None \<notin> set txs \<Longrightarrow> validateEach H hdr i g txs \<noteq> Panic x"
proof (induction txs arbitrary: i g)
  case (Cons tx txs)
  then show ?case by (auto simp: outcome_eq_Panic validateTransaction_no_panic)
qed simp

lemma ValidateTransactions_no_panic:
  "complete_block b \<Longrightarrow> ValidateTransactions H (Some b) \<noteq> Panic x"
  by (auto simp: ValidateTransactions_def validateTxHashRoot_def computeTxHashRoot_def complete_block_def
      outcome_eq_Panic txHashes_no_panic validateEach_no_panic split: if_splits)

lemma validateMiner_no_panic: "validateMiner h as \<noteq> Panic x"
  by (induction as) auto

lemma ValidateConsensus_no_panic:
  assumes "complete_block b" and "pv_sprintSize v \<noteq> 0" and "pv_validatorSetFn v = None"
  shows "ValidateConsensus v (Some b) parent \<noteq> Panic x"
  using assms
  by (auto simp: ValidateConsensus_def complete_block_def validateExtraData_def Let_def
      outcome_eq_Panic split: if_splits)

lemma ValidateBlockHeader_no_panic: "ValidateBlockHeader H now v h p \<noteq> Panic x"
  by (simp add: ValidateBlockHeader_def validateHeaderAgainstParent_def validateHeaderHash_def Let_def
      outcome_eq_Panic split: option.split)

section \<open>A hash function for the examples\<close>

text \<open>
  The digest of an example header is its number, of an example transaction its nonce: enough for
  the headers and transactions of the examples to carry the right hashes.
\<close>

definition ex_rlp :: "rlp_item list \<Rightarrow> bytes option" where
  "ex_rlp items =
     (case (if length items = 12 then items ! 5 else items ! 0) of
        ItemUint n \<Rightarrow> Some (put_uint64 n)
      | _ \<Rightarrow> None)"

definition ex_hash :: hash_env where
  "ex_hash = \<lparr>keccak256 = (\<lambda>bs. of_nat (bytes_nat bs)), rlp_EncodeList = ex_rlp\<rparr>"

lemma bytes_nat_put_uint64: "bytes_nat (put_uint64 x) = unat x"
proof -
  have "unat x mod 256 ^ 8 = unat x" using unat_less_2p [of x] by simp
  then show ?thesis by (simp add: put_uint64_def bytes_nat_nat_bytes)
qed

lemma ex_header_hash [simp]: "computeHeaderHash ex_hash h = of_nat (unat (hd_Number h))"
  by (simp add: computeHeaderHash_def hash_items_def ex_hash_def ex_rlp_def bytes_nat_put_uint64)

lemma ex_tx_hash [simp]: "computeTransactionHash ex_hash t = of_nat (unat (tx_Nonce t))"
  by (simp add: computeTransactionHash_def hash_items_def ex_hash_def ex_rlp_def bytes_nat_put_uint64)

lemma ucast_hash_inject [simp]: "(ucast (a :: u64) :: hash) = ucast b \<longleftrightarrow> a = b"
proof -
  have "uint (ucast c :: hash) = uint c" for c :: u64
    by (rule uint_up_ucast) (simp add: is_up)
  then show ?thesis by (metis word_uint_eq_iff)
qed

definition polygon_mainnet :: PolygonValidator where
  "polygon_mainnet = NewPolygonValidator None"

lemma ex_valid_5_6:
  "ValidateBlock ex_hash now (Polygon polygon_mainnet) (Some (example_block 6)) (Some (example_block 5)) = Ok ()"
  "ValidateBlock ex_hash now (Polygon polygon_mainnet) (Some (example_block 7)) (Some (example_block 6)) = Ok ()"
  by (simp_all add: polygon_ValidateBlock_def ValidateBlockHeader_def validateHeaderAgainstParent_def
      validateHeaderHash_def ValidateTransactions_def ValidateConsensus_def validateExtraData_def
      polygon_mainnet_def NewPolygonValidator_def DefaultPolygonConfig_def example_header_def
      gasLimitDelta_def maxGasDelta_def to_int64_def Let_def)

section \<open>Properties\<close>

text \<open>
  C13. A chain of blocks each of which the full or the light validator accepted against its
  predecessor is a hash chain: every block has a header, numbers go up by exactly one without
  64-bit wrap-around, each parent hash is the predecessor's hash, each hash is the digest of the
  header it belongs to, timestamps increase strictly, gas used is within the gas limit, and the gas
  limit is within the configured bounds.
\<close>

theorem validated_chain_is_linked:
  assumes "validated_chain H V (g # bs)" and "rules_of V = Some v" and "blk_Header g = Some p"
  shows "\<exists>hs. map blk_Header bs = map Some hs \<and>
    sorted_wrt (\<lambda>a b. hd_Timestamp a < hd_Timestamp b) (p # hs) \<and>
    (\<forall>i < length hs.
       unat (hd_Number (hs ! i)) = unat (hd_Number p) + Suc i \<and>
       hd_ParentHash (hs ! i) = hd_Hash ((p # hs) ! i) \<and>
       hd_Hash (hs ! i) = computeHeaderHash H (hs ! i) \<and>
       hd_GasUsed (hs ! i) \<le> hd_GasLimit (hs ! i) \<and>
       hd_GasLimit (hs ! i) \<in> {pv_minGasLimit v .. pv_maxGasLimit v})"
proof -
  obtain hs where hs: "map blk_Header bs = map Some hs" "header_chain H v p hs"
    using validated_chain_headers [OF assms] by blast
  have "unat (hd_Number (hs ! i)) = unat (hd_Number p) + Suc i \<and>
       hd_ParentHash (hs ! i) = hd_Hash ((p # hs) ! i) \<and>
       hd_Hash (hs ! i) = computeHeaderHash H (hs ! i) \<and>
       hd_GasUsed (hs ! i) \<le> hd_GasLimit (hs ! i) \<and>
       hd_GasLimit (hs ! i) \<in> {pv_minGasLimit v .. pv_maxGasLimit v}" if "i < length hs" for i
    using header_chain_links [OF hs(2) that] header_chain_numbers [OF hs(2) that]
    by (auto simp: header_ok_def child_ok_def)
  with hs header_chain_timestamps [OF hs(2)] show ?thesis by blast
qed

theorem validated_chain_is_linked_witness:
  "validated_chain ex_hash (Polygon polygon_mainnet) [example_block 5, example_block 6, example_block 7] \<and>
   hd_Timestamp (example_header 6) < hd_Timestamp (example_header 7) \<and>
   hd_Hash (example_header 7) = computeHeaderHash ex_hash (example_header 7)"
proof -
  have chain: "validated_chain ex_hash (Polygon polygon_mainnet) [example_block 5, example_block 6, example_block 7]"
    using ex_valid_5_6 by auto
  with validated_chain_is_linked [OF chain, of polygon_mainnet "example_header 5"]
  show ?thesis by (auto simp: Cons_eq_map_conv)
qed

text \<open>
  C14. The hash of the tip commits to the whole chain: two chains of the same length that end in
  blocks with the same hash have the same headers, and start from blocks with the same hash. The
  digests of the headers involved must not collide.
\<close>

theorem tip_hash_determines_chain:
  assumes "validated_chain H V (g # bs)" and "validated_chain H V (g' # bs')"
    and "rules_of V = Some v" and "blk_Header g = Some p" and "blk_Header g' = Some p'"
    and "length bs = length bs'" and "block_hash (last (g # bs)) = block_hash (last (g' # bs'))"
    and "collision_free H {h. Some h \<in> blk_Header ` (set bs \<union> set bs')}"
  shows "map blk_Header bs = map blk_Header bs' \<and> hd_Hash p = hd_Hash p'"
proof -
  obtain hs where hs: "map blk_Header bs = map Some hs" "header_chain H v p hs"
    using validated_chain_headers [OF assms(1,3,4)] by blast
  obtain ks where ks: "map blk_Header bs' = map Some ks" "header_chain H v p' ks"
    using validated_chain_headers [OF assms(2,3,5)] by blast
  have "blk_Header ` set bs = Some ` set hs" "blk_Header ` set bs' = Some ` set ks"
    using arg_cong [OF hs(1), of set] arg_cong [OF ks(1), of set] by simp_all
  then have S: "{h. Some h \<in> blk_Header ` (set bs \<union> set bs')} = set hs \<union> set ks"
    by (simp add: image_Un) blast
  have len: "length hs = length ks"
    using arg_cong [OF hs(1), of length] arg_cong [OF ks(1), of length] assms(6) by simp
  have "blk_Header (last (g # bs)) = Some (last (p # hs))"
    using assms(4) hs(1) by (metis last_map list.distinct(1) list.simps(9))
  moreover have "blk_Header (last (g' # bs')) = Some (last (p' # ks))"
    using assms(5) ks(1) by (metis last_map list.distinct(1) list.simps(9))
  ultimately have "hd_Hash (last (p # hs)) = hd_Hash (last (p' # ks))"
    using assms(7) by (simp add: block_hash_def)
  with header_chain_unique [OF hs(2) ks(2) len] assms(8) S hs(1) ks(1) show ?thesis by simp
qed

theorem tip_hash_determines_chain_witness:
  "validated_chain ex_hash (Polygon polygon_mainnet) [example_block 5, example_block 6, example_block 7] \<and>
   map blk_Header [example_block 6, example_block 7] = map blk_Header [example_block 6, example_block 7]"
proof -
  have chain: "validated_chain ex_hash (Polygon polygon_mainnet) [example_block 5, example_block 6, example_block 7]"
    using ex_valid_5_6 by auto
  have "collision_free ex_hash {h. Some h \<in> blk_Header ` (set [example_block 6, example_block 7] \<union>
      set [example_block 6, example_block 7])}"
    by (auto simp: collision_free_def)
  with tip_hash_determines_chain [OF chain chain, of polygon_mainnet "example_header 5" "example_header 5"] chain
  show ?thesis by simp
qed

text \<open>
  C15. Exactly which transaction lists \<open>ValidateTransactions\<close> accepts: the empty list, whatever
  the header's transaction root says; and a list of non-nil transactions whose root is the header's
  \<open>TxHash\<close>, each of which has gas, a price and a value that are not negative and its own digest as
  hash, and whose gas limits sum to at most the block's gas limit \<^emph>\<open>modulo\<close> \<open>2^64\<close>.
\<close>

theorem transactions_accepted_iff:
  "ValidateTransactions H (Some b) = Ok () \<longleftrightarrow>
     blk_Transactions b = [] \<or>
     (\<exists>h ts. blk_Header b = Some h \<and> blk_Transactions b = map Some ts \<and> ts \<noteq> [] \<and>
       computeTxHashRoot H (blk_Transactions b) = (Ok (hd_TxHash h) :: (validation_error, hash) outcome) \<and>
       list_all (tx_ok H) ts \<and> total_gas ts mod 2 ^ 64 \<le> unat (hd_GasLimit h))"
proof -
  have "computeTxHashRoot H (map Some ts) = (Ok r :: (validation_error, hash) outcome) \<longleftrightarrow>
      computeMerkleRoot H (map (\<lambda>t. hash_bytes (tx_Hash t)) ts) = r" if "ts \<noteq> []" for ts r
  proof -
    have "txHashes (map Some ts) = (Ok (map (\<lambda>t. hash_bytes (tx_Hash t)) ts) :: (validation_error, bytes list) outcome)"
      by (auto simp: txHashes_ok)
    with that show ?thesis by (simp add: computeTxHashRoot_def)
  qed
  then show ?thesis unfolding ValidateTransactions_iff by auto
qed

text \<open>
  The full validator does not protect the body of a block: whatever block it accepts, it also
  accepts the same block with all its transactions removed.
\<close>

theorem stripped_body_is_accepted:
  assumes "ValidateBlock H now (Polygon v) (Some b) parent = Ok ()"
  shows "ValidateBlock H now (Polygon v) (Some (strip_body b)) parent = Ok ()"
  using assms
  by (auto simp: polygon_ValidateBlock_def strip_body_def ValidateTransactions_def ValidateConsensus_def)

definition example_tx :: "u64 \<Rightarrow> u64 \<Rightarrow> Transaction" where
  "example_tx n gas = \<lparr>tx_Hash = ucast n, tx_Nonce = n, tx_From = 1, tx_To = 2, tx_Value = Some 7, tx_Gas = gas,
     tx_GasPrice = Some 1, tx_Data = [], tx_V = Some 0, tx_R = Some 0, tx_S = Some 0\<rparr>"

definition one_tx_block :: Block where
  "one_tx_block = \<lparr>blk_Header = Some ((example_header 6)\<lparr>hd_TxHash := 9\<rparr>),
     blk_Transactions = [Some (example_tx 9 21000)], blk_Size = 1024\<rparr>"

lemma one_tx_block_valid:
  "ValidateBlock ex_hash now (Polygon polygon_mainnet) (Some one_tx_block) (Some (example_block 5)) = Ok ()"
proof -
  have "ValidateTransactions ex_hash (Some one_tx_block) = Ok ()"
    by (simp add: ValidateTransactions_iff one_tx_block_def computeMerkleRoot_def tx_ok_def example_tx_def
        total_gas_def example_header_def Cons_eq_map_conv)
  then show ?thesis
    by (simp add: polygon_ValidateBlock_def ValidateBlockHeader_def validateHeaderAgainstParent_def
      validateHeaderHash_def ValidateConsensus_def validateExtraData_def one_tx_block_def
      polygon_mainnet_def NewPolygonValidator_def DefaultPolygonConfig_def example_header_def
      gasLimitDelta_def maxGasDelta_def to_int64_def Let_def)
qed

theorem stripped_body_is_accepted_witness:
  "blk_Transactions one_tx_block \<noteq> [] \<and>
   ValidateBlock ex_hash 0 (Polygon polygon_mainnet) (Some (strip_body one_tx_block)) (Some (example_block 5)) = Ok ()"
  using stripped_body_is_accepted [OF one_tx_block_valid [of 0]] by (simp add: one_tx_block_def)

text \<open>
  The sum of the gas limits wraps: two transactions with \<open>2^63\<close> gas each fit into any block.
\<close>

lemma gas_overflow_accepted:
  "ValidateTransactions ex_hash (Some \<lparr>blk_Header = Some ((example_header 6)\<lparr>hd_TxHash :=
       computeMerkleRoot ex_hash [hash_bytes 3, hash_bytes 4]\<rparr>),
     blk_Transactions = [Some (example_tx 3 (2 ^ 63)), Some (example_tx 4 (2 ^ 63))], blk_Size = 1024\<rparr>) = Ok ()"
  by (simp add: ValidateTransactions_iff tx_ok_def example_tx_def total_gas_def example_header_def
      Cons_eq_map_conv)

definition tx_collision_free :: "hash_env \<Rightarrow> Transaction set \<Rightarrow> bool" where
  "tx_collision_free H S \<longleftrightarrow>
     (\<forall>t \<in> S. \<forall>u \<in> S. computeTransactionHash H t = computeTransactionHash H u \<longrightarrow>
        t\<lparr>tx_Hash := 0, tx_From := 0\<rparr> = u\<lparr>tx_Hash := 0, tx_From := 0\<rparr>)"

definition root_inputs_of :: "hash_env \<Rightarrow> Transaction list \<Rightarrow> bytes set" where
  "root_inputs_of H ts = root_inputs H (map (\<lambda>t. hash_bytes (tx_Hash t)) ts)"

lemma tx_collision_free_eq:
  assumes "tx_collision_free H S" and "t \<in> S" and "u \<in> S" and "tx_Hash t = tx_Hash u"
    and "tx_ok H t" and "tx_ok H u"
  shows "t\<lparr>tx_From := 0\<rparr> = u\<lparr>tx_From := 0\<rparr>"
proof -
  have "computeTransactionHash H t = computeTransactionHash H u"
    using assms(4-6) unfolding tx_ok_def by metis
  then have "t\<lparr>tx_Hash := 0, tx_From := 0\<rparr> = u\<lparr>tx_Hash := 0, tx_From := 0\<rparr>"
    using assms(1-3) unfolding tx_collision_free_def by blast
  with assms(4) show ?thesis by (cases t; cases u) simp
qed

text \<open>
  Two blocks accepted by the full validator with the same number of transactions and the same
  transaction root carry the same transactions, up to the sender field (which is not part of a
  transaction's digest), when neither the root nor the transaction digests collide.
\<close>

theorem accepted_bodies_agree:
  assumes "ValidateTransactions H (Some b) = Ok ()" and "ValidateTransactions H (Some c) = Ok ()"
    and "blk_Header b = Some h" and "blk_Header c = Some k" and "hd_TxHash h = hd_TxHash k"
    and "blk_Transactions b = map Some ts" and "blk_Transactions c = map Some us"
    and "length ts = length us"
    and "inj_on (keccak256 H) (root_inputs_of H ts \<union> root_inputs_of H us)"
    and "tx_collision_free H (set ts \<union> set us)"
  shows "map (\<lambda>t. t\<lparr>tx_From := 0\<rparr>) ts = map (\<lambda>t. t\<lparr>tx_From := 0\<rparr>) us"
proof (cases "ts = []")
  case False
  have eq: "ts' = ts" if "map Some ts = map Some ts'" for ts ts' :: "Transaction list"
    using that by (simp add: inj_map_eq_map)
  have ts: "computeMerkleRoot H (map (\<lambda>t. hash_bytes (tx_Hash t)) ts) = hd_TxHash h" "list_all (tx_ok H) ts"
    using assms(1) assms(3,6) False unfolding ValidateTransactions_iff by (auto dest!: eq)
  have us: "computeMerkleRoot H (map (\<lambda>t. hash_bytes (tx_Hash t)) us) = hd_TxHash k" "list_all (tx_ok H) us"
    using assms(2) assms(4,7,8) False unfolding ValidateTransactions_iff by (auto dest!: eq)
  have hashes: "map tx_Hash ts = map tx_Hash us"
  proof (rule merkle_root_binds)
    show "computeMerkleRoot H (map hash_bytes (map tx_Hash ts)) = computeMerkleRoot H (map hash_bytes (map tx_Hash us))"
      using ts(1) us(1) assms(5) by (simp add: comp_def)
    show "inj_on (keccak256 H) (root_inputs H (map hash_bytes (map tx_Hash ts)) \<union>
        root_inputs H (map hash_bytes (map tx_Hash us)))"
      using assms(9) by (simp add: root_inputs_of_def comp_def)
  qed (simp add: assms(8))
  have "(ts ! i)\<lparr>tx_From := 0\<rparr> = (us ! i)\<lparr>tx_From := 0\<rparr>" if i: "i < length ts" for i
  proof (rule tx_collision_free_eq [OF assms(10)])
    show "tx_Hash (ts ! i) = tx_Hash (us ! i)"
      using arg_cong [OF hashes, of "\<lambda>xs. xs ! i"] i assms(8) by simp
    show "tx_ok H (ts ! i)" "tx_ok H (us ! i)"
      using ts(2) us(2) i assms(8) by (simp_all add: list_all_length)
  qed (use i assms(8) in simp_all)
  then show ?thesis using assms(8) by (simp add: list_eq_iff_nth_eq)
qed (use assms(8) in simp)

theorem accepted_bodies_agree_witness:
  "ValidateTransactions ex_hash (Some one_tx_block) = Ok () \<and>
   map (\<lambda>t. t\<lparr>tx_From := 0\<rparr>) [example_tx 9 21000] = [(example_tx 9 21000)\<lparr>tx_From := 0\<rparr>]"
proof -
  have ok: "ValidateTransactions ex_hash (Some one_tx_block) = Ok ()"
    using one_tx_block_valid [of 0] by (simp add: polygon_ValidateBlock_def)
  from accepted_bodies_agree [OF ok ok, of _ _ "[example_tx 9 21000]" "[example_tx 9 21000]"] ok
  show ?thesis by (simp add: one_tx_block_def root_inputs_of_def tx_collision_free_def)
qed

text \<open>
  When validation panics. Both real validators panic on a nil parent (as they get for the
  first block after a start without history). On complete blocks, with a non-zero sprint size and
  no validator set function, validation always returns a verdict.
\<close>

theorem validation_panics:
  assumes "rules_of V = Some v"
  shows "ValidateBlock H now V (Some b) None = Panic NilDereference \<and>
    (complete_block b \<and> pv_sprintSize v \<noteq> 0 \<and> pv_validatorSetFn v = None \<longrightarrow>
       (\<forall>x. ValidateBlock H now V (Some b) (Some p) \<noteq> Panic x))"
proof (cases V)
  case (Polygon w)
  with assms show ?thesis
    by (simp add: polygon_ValidateBlock_def outcome_eq_Panic ValidateBlockHeader_no_panic
        ValidateTransactions_no_panic ValidateConsensus_no_panic)
next
  case (Light w)
  with assms show ?thesis by (simp add: light_ValidateBlock_def ValidateBlockHeader_no_panic)
qed (use assms in simp)

theorem validation_panics_witness:
  "ValidateBlock ex_hash 0 (NewLightValidator None) (Some (example_block 6)) None = Panic NilDereference"
  using validation_panics [of "NewLightValidator None" "NewPolygonValidator None" ex_hash 0 "example_block 6"]
  by (simp add: NewLightValidator_def)

end
