(* ===== verification/Chain_Rules.thy ===== *)
theory Chain_Rules
  imports Block_Validation
begin

text \<open>
  \<open>pkg/validation/chain_rules.go\<close>: chain parameters, the Bor consensus and fork rules, and the
  validation levels. \<open>%\<close> and \<open>/\<close> by a sprint size of 0 panic; \<open>chainID.Int64()\<close> keeps the low
  64 bits of a big integer and panics on a nil pointer.
\<close>

section \<open>Model\<close>

record ChainConfig =
  cc_ChainID :: bigint
  cc_ChainName :: string
  cc_BlockPeriod :: u64
  cc_SprintSize :: u64
  cc_MinGasLimit :: u64
  cc_MaxGasLimit :: u64
  cc_MaxCodeSize :: u64
  cc_MaxTxSize :: u64
  cc_MaxExtraDataLen :: u64

definition PolygonMainnetConfig :: ChainConfig where
  "PolygonMainnetConfig = \<lparr>cc_ChainID = Some 137, cc_ChainName = ''polygon-mainnet'', cc_BlockPeriod = 2,
     cc_SprintSize = 16, cc_MinGasLimit = 5000, cc_MaxGasLimit = 30000000, cc_MaxCodeSize = 24576,
     cc_MaxTxSize = 131072, cc_MaxExtraDataLen = 65\<rparr>"

definition PolygonAmoyConfig :: ChainConfig where
  "PolygonAmoyConfig = \<lparr>cc_ChainID = Some 80002, cc_ChainName = ''polygon-amoy'', cc_BlockPeriod = 2,
     cc_SprintSize = 16, cc_MinGasLimit = 5000, cc_MaxGasLimit = 30000000, cc_MaxCodeSize = 24576,
     cc_MaxTxSize = 131072, cc_MaxExtraDataLen = 65\<rparr>"

definition PolygonMumbaiConfig :: ChainConfig where
  "PolygonMumbaiConfig = \<lparr>cc_ChainID = Some 80001, cc_ChainName = ''polygon-mumbai'', cc_BlockPeriod = 2,
     cc_SprintSize = 16, cc_MinGasLimit = 5000, cc_MaxGasLimit = 30000000, cc_MaxCodeSize = 24576,
     cc_MaxTxSize = 131072, cc_MaxExtraDataLen = 65\<rparr>"

definition GetChainConfig :: "bigint \<Rightarrow> ('e, ChainConfig) outcome" where
  "GetChainConfig chainID =
     deref chainID (\<lambda>c.
     if to_int64 c = 137 then Ok PolygonMainnetConfig
     else if to_int64 c = 80002 then Ok PolygonAmoyConfig
     else if to_int64 c = 80001 then Ok PolygonMumbaiConfig
     else Ok PolygonMainnetConfig)"

record BorConsensusRules =
  bcr_config :: ChainConfig

definition NewBorConsensusRules :: "ChainConfig \<Rightarrow> BorConsensusRules" where
  "NewBorConsensusRules cfg = \<lparr>bcr_config = cfg\<rparr>"

text \<open>Unsigned remainder and quotient: division by zero panics.\<close>

definition u64_mod :: "u64 \<Rightarrow> u64 \<Rightarrow> ('e, u64) outcome" where
  "u64_mod a b = (if b = 0 then Panic DivideByZero else Ok (a mod b))"

definition u64_div :: "u64 \<Rightarrow> u64 \<Rightarrow> ('e, u64) outcome" where
  "u64_div a b = (if b = 0 then Panic DivideByZero else Ok (a div b))"

definition IsSprintEnd :: "BorConsensusRules \<Rightarrow> u64 \<Rightarrow> ('e, bool) outcome" where
  "IsSprintEnd r blockNumber =
     bind_outcome (u64_mod blockNumber (cc_SprintSize (bcr_config r))) (\<lambda>m. Ok (m = 0))"

definition IsSprintStart :: "BorConsensusRules \<Rightarrow> u64 \<Rightarrow> ('e, bool) outcome" where
  "IsSprintStart r blockNumber =
     bind_outcome (u64_mod blockNumber (cc_SprintSize (bcr_config r))) (\<lambda>m. Ok (m = 1))"

definition GetSprintNumber :: "BorConsensusRules \<Rightarrow> u64 \<Rightarrow> ('e, u64) outcome" where
  "GetSprintNumber r blockNumber = u64_div blockNumber (cc_SprintSize (bcr_config r))"

definition ValidateBlockPeriod :: "BorConsensusRules \<Rightarrow> Header \<Rightarrow> Header \<Rightarrow> bool" where
  "ValidateBlockPeriod r h p =
     (let timeDiff = hd_Timestamp h - hd_Timestamp p;
          minPeriod = cc_BlockPeriod (bcr_config r) div 2;
          maxPeriod = cc_BlockPeriod (bcr_config r) * 3
      in timeDiff \<ge> minPeriod \<and> timeDiff \<le> maxPeriod)"

definition ValidateGasLimit :: "BorConsensusRules \<Rightarrow> u64 \<Rightarrow> bool" where
  "ValidateGasLimit r gasLimit \<longleftrightarrow>
     gasLimit \<ge> cc_MinGasLimit (bcr_config r) \<and> gasLimit \<le> cc_MaxGasLimit (bcr_config r)"

definition ValidateExtraDataLength :: "BorConsensusRules \<Rightarrow> bytes \<Rightarrow> bool" where
  "ValidateExtraDataLength r extraData \<longleftrightarrow> of_nat (length extraData) \<le> cc_MaxExtraDataLen (bcr_config r)"

definition WiggleTime :: u64 where "WiggleTime = 500"
definition DiffInTurn :: u64 where "DiffInTurn = 2"
definition DiffNoTurn :: u64 where "DiffNoTurn = 1"

text \<open>\<open>uint64(succession)\<close> of an \<open>int\<close>: the low 64 bits.\<close>

definition CalcProducerDelay :: "u64 \<Rightarrow> int \<Rightarrow> u64" where
  "CalcProducerDelay blockNumber succession = word_of_int succession * WiggleTime"

definition IsDifficultyValid :: "u64 \<Rightarrow> bool \<Rightarrow> bool" where
  "IsDifficultyValid difficulty isInTurn =
     (if isInTurn then difficulty = DiffInTurn else difficulty = DiffNoTurn)"

definition GenesisValidators :: "address list" where
  "GenesisValidators = [0]"

text \<open>
  \<open>ValidationLevel\<close> is an \<open>int\<close>; the named constants are 0 to 3, other values print as
  \<open>unknown\<close>.
\<close>

datatype ValidationLevel = ValidationNone | ValidationHeader | ValidationLight | ValidationFull | OtherLevel int

fun level_String :: "ValidationLevel \<Rightarrow> string" where
  "level_String ValidationNone = ''none''"
| "level_String ValidationHeader = ''header''"
| "level_String ValidationLight = ''light''"
| "level_String ValidationFull = ''full''"
| "level_String (OtherLevel n) = ''unknown''"

definition ParseValidationLevel :: "string \<Rightarrow> ValidationLevel" where
  "ParseValidationLevel s =
     (if s = ''none'' then ValidationNone
      else if s = ''header'' then ValidationHeader
      else if s = ''light'' then ValidationLight
      else if s = ''full'' then ValidationFull
      else ValidationFull)"

definition BlockReward :: "u64 \<Rightarrow> int" where
  "BlockReward blockNumber = 0"

definition TransactionFee :: "u64 \<Rightarrow> bigint \<Rightarrow> ('e, int) outcome" where
  "TransactionFee gasUsed gasPrice = deref gasPrice (\<lambda>p. Ok (to_int64 (uint gasUsed) * p))"

definition IsEIP1559Compatible :: "bigint \<Rightarrow> u64 \<Rightarrow> ('e, bool) outcome" where
  "IsEIP1559Compatible chainID blockNumber =
     deref chainID (\<lambda>c.
     if to_int64 c = 137 then Ok (blockNumber \<ge> 23850000)
     else if to_int64 c = 80001 then Ok (blockNumber \<ge> 29368000)
     else if to_int64 c = 80002 then Ok True
     else Ok False)"

definition ValidateEIP1559Header :: "Header option \<Rightarrow> Header option \<Rightarrow> (validation_error, unit) outcome" where
  "ValidateEIP1559Header header parent = Ok ()"

record BorForkRules =
  bfr_chainID :: bigint

definition NewBorForkRules :: "bigint \<Rightarrow> BorForkRules" where
  "NewBorForkRules chainID = \<lparr>bfr_chainID = chainID\<rparr>"

definition IsHomestead :: "BorForkRules \<Rightarrow> u64 \<Rightarrow> bool" where "IsHomestead f n = True"
definition IsEIP150 :: "BorForkRules \<Rightarrow> u64 \<Rightarrow> bool" where "IsEIP150 f n = True"
definition IsEIP155 :: "BorForkRules \<Rightarrow> u64 \<Rightarrow> bool" where "IsEIP155 f n = True"
definition IsEIP158 :: "BorForkRules \<Rightarrow> u64 \<Rightarrow> bool" where "IsEIP158 f n = True"
definition IsByzantium :: "BorForkRules \<Rightarrow> u64 \<Rightarrow> bool" where "IsByzantium f n = True"
definition IsConstantinople :: "BorForkRules \<Rightarrow> u64 \<Rightarrow> bool" where "IsConstantinople f n = True"
definition IsIstanbul :: "BorForkRules \<Rightarrow> u64 \<Rightarrow> bool" where "IsIstanbul f n = True"
definition IsBerlin :: "BorForkRules \<Rightarrow> u64 \<Rightarrow> bool" where "IsBerlin f n = True"

definition IsLondon :: "BorForkRules \<Rightarrow> u64 \<Rightarrow> ('e, bool) outcome" where
  "IsLondon f n = IsEIP1559Compatible (bfr_chainID f) n"

section \<open>Lemmas\<close>

lemma level_roundtrip: "ParseValidationLevel (level_String l) = (case l of OtherLevel n \<Rightarrow> ValidationFull | _ \<Rightarrow> l)"
  by (cases l) (simp_all add: ParseValidationLevel_def)

lemma London_from_fork:
  "n \<le> m \<Longrightarrow> IsLondon f n = Ok True \<Longrightarrow> (IsLondon f m :: ('e, bool) outcome) = Ok True"
  by (auto simp: IsLondon_def IsEIP1559Compatible_def split: if_splits intro: order_trans)

lemma TransactionFee_exact:
  "unat gas < 2 ^ 63 \<Longrightarrow> TransactionFee gas (Some p) = Ok (uint gas * p)"
  by (simp add: TransactionFee_def to_int64_uint)

text \<open>From \<open>2^63\<close> on the conversion to \<open>int64\<close> makes the fee negative.\<close>

lemma TransactionFee_wraps: "TransactionFee (2 ^ 63) (Some 1) = Ok (- (2 ^ 63))"
  by (simp add: TransactionFee_def to_int64_def)

lemma GetChainConfig_cases:
  "GetChainConfig chainID = Ok cfg \<Longrightarrow> cfg \<in> {PolygonMainnetConfig, PolygonAmoyConfig, PolygonMumbaiConfig}"
  by (auto simp: GetChainConfig_def split: if_splits)

text \<open>A validator configured like the chain applies the chain's sprint and gas rules.\<close>

lemma header_ok_gas_rule:
  assumes "header_ok H v h" and "pv_minGasLimit v = cc_MinGasLimit (bcr_config r)"
    and "pv_maxGasLimit v = cc_MaxGasLimit (bcr_config r)"
  shows "ValidateGasLimit r (hd_GasLimit h)"
  using assms by (simp add: header_ok_def ValidateGasLimit_def)

section \<open>Properties\<close>

text \<open>
  The two rules on extra data exclude each other on sprint ends: with any of the built-in
  chain configurations, a block whose number is a multiple of the sprint size and that the full
  validator accepts (at least 32 + 65 bytes of extra data) fails \<open>ValidateExtraDataLength\<close> (at
  most 65 bytes), as long as its extra data is shorter than \<open>2^64\<close> bytes.
\<close>

theorem sprint_end_extra_data_conflict:
  assumes "GetChainConfig chainID = (Ok cfg :: (unit, ChainConfig) outcome)"
    and "pv_sprintSize v = cc_SprintSize cfg"
    and "ValidateConsensus v (Some b) parent = Ok ()" and "blk_Header b = Some h"
    and "IsSprintEnd (NewBorConsensusRules cfg) (hd_Number h) = (Ok True :: (unit, bool) outcome)"
    and "length (hd_ExtraData h) < 2 ^ 64"
  shows "\<not> ValidateExtraDataLength (NewBorConsensusRules cfg) (hd_ExtraData h)"
proof -
  have cfg: "cc_SprintSize cfg = 16" "cc_MaxExtraDataLen cfg = 65"
    using GetChainConfig_cases [OF assms(1)]
    by (auto simp: PolygonMainnetConfig_def PolygonAmoyConfig_def PolygonMumbaiConfig_def)
  have "hd_Number h mod 16 = 0"
    using assms(5) cfg by (simp add: IsSprintEnd_def NewBorConsensusRules_def u64_mod_def)
  then have "97 \<le> length (hd_ExtraData h)"
    using assms(2,3,4) cfg
    by (auto simp: ValidateConsensus_def validateExtraData_def Let_def split: if_splits)
  moreover have "unat (of_nat (length (hd_ExtraData h)) :: u64) = length (hd_ExtraData h)"
    using assms(6) by (simp add: unat_of_nat)
  ultimately show ?thesis
    by (simp add: ValidateExtraDataLength_def NewBorConsensusRules_def cfg word_le_nat_alt)
qed

theorem sprint_end_extra_data_conflict_witness:
  "\<not> ValidateExtraDataLength (NewBorConsensusRules PolygonMainnetConfig) (hd_ExtraData (example_header 32))"
proof (rule sprint_end_extra_data_conflict [of "Some 137" PolygonMainnetConfig polygon_mainnet "example_block 32" None])
  show "GetChainConfig (Some 137) = (Ok PolygonMainnetConfig :: (unit, ChainConfig) outcome)"
    by (simp add: GetChainConfig_def to_int64_def)
  show "ValidateConsensus polygon_mainnet (Some (example_block 32)) None = Ok ()"
    by (simp add: ValidateConsensus_def validateExtraData_def polygon_mainnet_def NewPolygonValidator_def
        DefaultPolygonConfig_def example_header_def Let_def)
  show "IsSprintEnd (NewBorConsensusRules PolygonMainnetConfig) (hd_Number (example_header 32)) =
      (Ok True :: (unit, bool) outcome)"
    by (simp add: IsSprintEnd_def NewBorConsensusRules_def PolygonMainnetConfig_def u64_mod_def)
qed (simp_all add: polygon_mainnet_def NewPolygonValidator_def DefaultPolygonConfig_def
    PolygonMainnetConfig_def example_header_def)

end
