(* ===== verification/Float64.thy ===== *)
theory Float64
  imports Complex_Main "HOL-Library.Log_Nat" Go_Prelude
begin

text \<open>
  Go's \<open>float64\<close> on the values the repository computes with it: ratios and percentages of
  counters. A value is the rational number it denotes, and every operation rounds its exact result
  to the nearest number with a 53-bit significand, ties to even (\<open>f64\<close>). The operands are
  non-negative and the results lie between \<open>2^-64\<close> and \<open>2^72\<close>, so neither subnormal numbers nor
  infinities occur and the exponent needs no bounds.
\<close>

section \<open>Rounding\<close>

type_synonym float64 = rat

text \<open>The nearest integer, ties to even.\<close>

definition round_even :: "rat \<Rightarrow> int" where
  "round_even x =
     (let n = \<lfloor>x\<rfloor>; d = x - of_int n in
      if d < 1 / 2 then n else if d > 1 / 2 then n + 1 else if even n then n else n + 1)"

text \<open>The exponent of a positive number: \<open>2^e \<le> x < 2^(e+1)\<close>.\<close>

definition binary_exponent :: "rat \<Rightarrow> int" where
  "binary_exponent x =
     (let (p, q) = quotient_of x; k = int (floorlog 2 (nat p)) - int (floorlog 2 (nat q)) in
      if 2 powi k \<le> x then k else k - 1)"

definition f64 :: "rat \<Rightarrow> float64" where
  "f64 x =
     (if x \<le> 0 then 0
      else let k = binary_exponent x - 52 in of_int (round_even (x * 2 powi (- k))) * 2 powi k)"

text \<open>\<open>float64(n)\<close> of a \<open>uint64\<close>, and \<open>a / b\<close>, \<open>a * b\<close> on floats.\<close>

definition f64_of_nat :: "nat \<Rightarrow> float64" where
  "f64_of_nat n = f64 (of_nat n)"

abbreviation f64_of_u64 :: "u64 \<Rightarrow> float64" where
  "f64_of_u64 n \<equiv> f64_of_nat (unat n)"

definition f64_div :: "float64 \<Rightarrow> float64 \<Rightarrow> float64" where
  "f64_div a b = f64 (a / b)"

definition f64_mult :: "float64 \<Rightarrow> float64 \<Rightarrow> float64" where
  "f64_mult a b = f64 (a * b)"

section \<open>Rounding to an integer\<close>

lemma round_even_int [simp]: "round_even (of_int n) = n"
  by (simp add: round_even_def)

lemma round_even_numeral [simp]: "round_even (numeral n) = numeral n"
  using round_even_int [of "numeral n"] by simp

lemma round_even_cases: "round_even x = \<lfloor>x\<rfloor> \<and> x - of_int \<lfloor>x\<rfloor> \<le> 1 / 2 \<or>
    round_even x = \<lfloor>x\<rfloor> + 1 \<and> 1 / 2 \<le> x - of_int \<lfloor>x\<rfloor>"
  by (simp add: round_even_def Let_def)

lemma round_even_error: "\<bar>of_int (round_even x) - x\<bar> \<le> 1 / 2"
proof -
  have "of_int \<lfloor>x\<rfloor> \<le> x" "x < of_int \<lfloor>x\<rfloor> + 1" by linarith+
  with round_even_cases [of x] show ?thesis by (auto simp: abs_le_iff)
qed

lemma round_even_mono: "x \<le> y \<Longrightarrow> round_even x \<le> round_even y"
proof -
  assume le: "x \<le> y"
  show ?thesis
  proof (cases "\<lfloor>x\<rfloor> = \<lfloor>y\<rfloor>")
    case True
    with le show ?thesis by (simp add: round_even_def Let_def)
  next
    case False
    with le have "\<lfloor>x\<rfloor> + 1 \<le> \<lfloor>y\<rfloor>" using floor_mono [OF le] by linarith
    with round_even_cases [of x] round_even_cases [of y] show ?thesis by linarith
  qed
qed

section \<open>The exponent\<close>

lemma floorlog2_bounds: "0 < n \<Longrightarrow> 2 ^ (floorlog 2 n - 1) \<le> n \<and> n < 2 ^ floorlog 2 n \<and> 0 < floorlog 2 n"
  using floorlog_bounds [of n 2] by (cases "floorlog 2 n") auto

lemma rat_powi_nat: "(2 :: rat) ^ n = 2 powi int n"
  by (simp add: power_int_def)

lemma powi2_less_iff [simp]: "(2 :: rat) powi a < 2 powi b \<longleftrightarrow> a < b"
  by (meson linorder_not_le power_int_increasing power_int_strict_increasing one_le_numeral numeral_le_one_iff one_less_numeral_iff semiring_norm(76))

lemma powi2_le_iff [simp]: "(2 :: rat) powi a \<le> 2 powi b \<longleftrightarrow> a \<le> b"
  by (meson linorder_not_le powi2_less_iff)

lemma powi2_pos [simp]: "0 < (2 :: rat) powi a"
  by (simp add: zero_less_power_int)

lemma powi2_nz [simp]: "(2 :: rat) powi a \<noteq> 0"
  by simp

lemma powi2_add: "(2 :: rat) powi (a + b) = 2 powi a * 2 powi b"
  by (simp add: power_int_add)

lemma binary_exponent_bounds:
  assumes "0 < x"
  shows "2 powi binary_exponent x \<le> x" and "x < 2 powi (binary_exponent x + 1)"
proof -
  obtain p q where pq: "quotient_of x = (p, q)" by (cases "quotient_of x")
  have q: "0 < q" using quotient_of_denom_pos [OF pq] .
  have x: "x = of_int p / of_int q" using quotient_of_div [OF pq] .
  have p: "0 < p" using assms q by (simp add: x zero_less_divide_iff)
  define lp lq where "lp = floorlog 2 (nat p)" and "lq = floorlog 2 (nat q)"
  have P: "2 ^ (lp - 1) \<le> nat p" "nat p < 2 ^ lp" "0 < lp" using floorlog2_bounds [of "nat p"] p by (auto simp: lp_def)
  have Q: "2 ^ (lq - 1) \<le> nat q" "nat q < 2 ^ lq" "0 < lq" using floorlog2_bounds [of "nat q"] q by (auto simp: lq_def)
  have cast: "(of_nat (nat z) :: rat) = of_int z" if "0 < z" for z using that by simp
  have P': "2 powi (int lp - 1) \<le> (of_int p :: rat)" "(of_int p :: rat) < 2 powi int lp"
    using P cast [OF p] by (metis of_nat_le_iff of_nat_power of_nat_numeral rat_powi_nat of_nat_diff One_nat_def Suc_leI of_nat_1,
      metis of_nat_less_iff of_nat_power of_nat_numeral rat_powi_nat)
  have Q': "2 powi (int lq - 1) \<le> (of_int q :: rat)" "(of_int q :: rat) < 2 powi int lq"
    using Q cast [OF q] by (metis of_nat_le_iff of_nat_power of_nat_numeral rat_powi_nat of_nat_diff One_nat_def Suc_leI of_nat_1,
      metis of_nat_less_iff of_nat_power of_nat_numeral rat_powi_nat)
  define k where "k = int lp - int lq"
  have qpos: "(0 :: rat) < of_int q" using q by simp
  have up: "x < 2 powi (k + 1)"
  proof -
    have "(of_int p :: rat) < 2 powi (k + 1) * 2 powi (int lq - 1)"
      using P'(2) by (simp add: powi2_add [symmetric] k_def)
    also have "\<dots> \<le> 2 powi (k + 1) * of_int q" using Q'(1) by simp
    finally show ?thesis using qpos by (simp add: x field_simps)
  qed
  have low: "2 powi (k - 1) \<le> x"
  proof -
    have "2 powi (k - 1) * of_int q \<le> 2 powi (k - 1) * (2 powi int lq :: rat)" using Q'(2) by simp
    also have "\<dots> = 2 powi (int lp - 1)" unfolding powi2_add [symmetric] k_def by simp
    also have "\<dots> \<le> of_int p" by (rule P'(1))
    finally show ?thesis using qpos by (simp add: x field_simps)
  qed
  have e: "binary_exponent x = (if 2 powi k \<le> x then k else k - 1)"
    by (simp add: binary_exponent_def pq lp_def lq_def k_def)
  show "2 powi binary_exponent x \<le> x" using low by (simp add: e)
  show "x < 2 powi (binary_exponent x + 1)" using up by (auto simp: e)
qed

lemma binary_exponent_unique:
  assumes "2 powi k \<le> x" and "x < 2 powi (k + 1)"
  shows "binary_exponent x = k"
proof -
  have "0 < x" using powi2_pos assms(1) by (rule less_le_trans)
  note b = binary_exponent_bounds [OF this]
  have "(2 :: rat) powi k < 2 powi (binary_exponent x + 1)" "(2 :: rat) powi binary_exponent x < 2 powi (k + 1)"
    using assms b by linarith+
  then show ?thesis by simp
qed

lemma binary_exponent_mono: "0 < x \<Longrightarrow> x \<le> y \<Longrightarrow> binary_exponent x \<le> binary_exponent y"
proof -
  assume "0 < x" "x \<le> y"
  then have "(2 :: rat) powi binary_exponent x < 2 powi (binary_exponent y + 1)"
    using binary_exponent_bounds [of x] binary_exponent_bounds [of y] by linarith
  then show ?thesis by simp
qed


section \<open>Properties of rounding\<close>

lemma f64_nonpos [simp]: "x \<le> 0 \<Longrightarrow> f64 x = 0"
  by (simp add: f64_def)

lemma f64_pos_eq: "0 < x \<Longrightarrow> f64 x =
    of_int (round_even (x * 2 powi (52 - binary_exponent x))) * 2 powi (binary_exponent x - 52)"
  by (simp add: f64_def Let_def)

text \<open>A number with a significand of at most 53 bits is its own rounding.\<close>

lemma f64_exact:
  assumes "x = of_int m * 2 powi k" and "0 \<le> m" and "m < 2 ^ 53"
  shows "f64 x = x"
proof (cases "m = 0")
  case False
  with assms have pos: "0 < x" by simp
  have "(of_int m :: rat) < 2 powi 53" using assms(3) by (simp add: of_int_less_numeral_iff)
  then have "x < 2 powi (53 + k)" using assms(1) by (simp only: powi2_add mult_strict_right_mono powi2_pos)
  with binary_exponent_bounds(1) [OF pos] have "(2 :: rat) powi binary_exponent x < 2 powi (53 + k)" by linarith
  then have e: "0 \<le> k + (52 - binary_exponent x)" by simp
  define j where "j = nat (k + (52 - binary_exponent x))"
  have "x * 2 powi (52 - binary_exponent x) = of_int m * 2 powi (k + (52 - binary_exponent x))"
    by (simp only: assms(1) powi2_add mult.assoc)
  also have "\<dots> = of_int (m * 2 ^ j)" using e by (simp add: j_def power_int_def)
  finally have sig: "x * 2 powi (52 - binary_exponent x) = of_int (m * 2 ^ j)" .
  have "f64 x = x * 2 powi (52 - binary_exponent x) * 2 powi (binary_exponent x - 52)"
    unfolding f64_pos_eq [OF pos] sig round_even_int ..
  also have "\<dots> = x" by (simp add: mult.assoc powi2_add [symmetric])
  finally show ?thesis .
qed (simp add: assms)

lemma f64_power: "f64 (2 powi k) = 2 powi k"
  by (rule f64_exact [of _ 1 k]) simp_all

lemma f64_nat: "n < 2 ^ 53 \<Longrightarrow> f64 (of_nat n) = of_nat n"
  by (rule f64_exact [of _ "int n" 0]) simp_all

lemma f64_numeral: "(numeral n :: int) < 2 ^ 53 \<Longrightarrow> f64 (numeral n) = numeral n"
  by (rule f64_exact [of _ "numeral n" 0]) simp_all

lemma f64_binade:
  assumes "0 < x"
  shows "2 powi binary_exponent x \<le> f64 x" and "f64 x \<le> 2 powi (binary_exponent x + 1)"
proof -
  let ?e = "binary_exponent x"
  note b = binary_exponent_bounds [OF assms]
  have lo: "of_int (2 ^ 52) \<le> x * 2 powi (52 - ?e)" "x * 2 powi (52 - ?e) \<le> of_int (2 ^ 53)"
  proof -
    have "2 powi ?e * 2 powi (52 - ?e) \<le> x * 2 powi (52 - ?e)"
      "x * 2 powi (52 - ?e) \<le> 2 powi (?e + 1) * 2 powi (52 - ?e)" using b by simp_all
    then show "of_int (2 ^ 52) \<le> x * 2 powi (52 - ?e)" "x * 2 powi (52 - ?e) \<le> of_int (2 ^ 53)"
      by (simp_all add: powi2_add [symmetric])
  qed
  have r: "2 ^ 52 \<le> round_even (x * 2 powi (52 - ?e))" "round_even (x * 2 powi (52 - ?e)) \<le> 2 ^ 53"
    using round_even_mono [OF lo(1)] round_even_mono [OF lo(2)] by simp_all
  have "2 powi ?e = of_int (2 ^ 52) * (2 :: rat) powi (?e - 52)"
    "2 powi (?e + 1) = of_int (2 ^ 53) * (2 :: rat) powi (?e - 52)"
    using powi2_add [of 52 "?e - 52"] powi2_add [of 53 "?e - 52"] by (simp_all add: algebra_simps)
  with r show "2 powi ?e \<le> f64 x" "f64 x \<le> 2 powi (?e + 1)"
    by (simp_all only: f64_pos_eq [OF assms] mult_right_mono of_int_le_iff powi2_pos less_imp_le)
qed

theorem f64_mono: "x \<le> y \<Longrightarrow> f64 x \<le> f64 y"
proof (cases "x \<le> 0")
  case True
  moreover have "0 \<le> f64 y" if "0 < y"
    using f64_binade(1) [OF that] powi2_pos [of "binary_exponent y"] by linarith
  ultimately show ?thesis by (cases "y \<le> 0") auto
next
  case False
  assume le: "x \<le> y"
  then have pos: "0 < x" "0 < y" using False by auto
  show ?thesis
  proof (cases "binary_exponent x = binary_exponent y")
    case True
    have "round_even (x * 2 powi (52 - binary_exponent y)) \<le> round_even (y * 2 powi (52 - binary_exponent y))"
      using le by (intro round_even_mono) simp
    then show ?thesis by (simp add: f64_pos_eq pos True)
  next
    case False
    with binary_exponent_mono [OF pos(1) le] have "binary_exponent x + 1 \<le> binary_exponent y" by simp
    then have "(2 :: rat) powi (binary_exponent x + 1) \<le> 2 powi binary_exponent y" by simp
    with f64_binade(2) [OF pos(1)] f64_binade(1) [OF pos(2)] show ?thesis by linarith
  qed
qed

lemma f64_nonneg [simp]: "0 \<le> f64 x"
  using f64_mono [of 0 x] f64_mono [of x 0] by (cases "0 \<le> x") simp_all

text \<open>The relative error of one rounding is at most \<open>2^-53\<close>.\<close>

lemma f64_error:
  assumes "0 \<le> x"
  shows "\<bar>f64 x - x\<bar> \<le> x / 2 ^ 53"
proof (cases "x = 0")
  case False
  with assms have pos: "0 < x" by simp
  let ?e = "binary_exponent x" and ?s = "x * 2 powi (52 - binary_exponent x)"
  have back_x: "x = ?s * 2 powi (?e - 52)" by (simp add: mult.assoc powi2_add [symmetric])
  have "f64 x - x = (of_int (round_even ?s) - ?s) * 2 powi (?e - 52)"
    using back_x by (simp add: f64_pos_eq [OF pos] left_diff_distrib)
  then have "\<bar>f64 x - x\<bar> = \<bar>of_int (round_even ?s) - ?s\<bar> * 2 powi (?e - 52)"
    by (simp add: abs_mult)
  also have "\<dots> \<le> 1 / 2 * 2 powi (?e - 52)"
    by (rule mult_right_mono [OF round_even_error]) (simp add: less_imp_le)
  also have "\<dots> = 2 powi ?e / 2 ^ 53"
    using powi2_add [of ?e "- 52"] by simp
  also have "\<dots> \<le> x / 2 ^ 53" using binary_exponent_bounds(1) [OF pos] by (simp add: divide_right_mono)
  finally show ?thesis .
qed simp


section \<open>Ratios of counters\<close>

lemma f64_of_nat_exact: "n < 2 ^ 53 \<Longrightarrow> f64_of_nat n = of_nat n"
  by (simp add: f64_of_nat_def f64_nat)

lemma f64_of_nat_mono: "m \<le> n \<Longrightarrow> f64_of_nat m \<le> f64_of_nat n"
  by (simp add: f64_of_nat_def f64_mono)

lemma f64_of_nat_pos: "0 < n \<Longrightarrow> 1 \<le> f64_of_nat n"
  using f64_mono [of 1 "of_nat n"] f64_power [of 0] by (simp add: f64_of_nat_def)

lemma round_even_above: "of_int n + 1 / 2 < x \<Longrightarrow> n + 1 \<le> round_even x"
  using round_even_error [of x] by linarith

text \<open>Comparing a ratio with one half is exact, as long as both counters have at most 53 bits.\<close>

lemma f64_above_half:
  assumes "1 / 2 + 1 / 2 ^ 54 < z"
  shows "1 / 2 < f64 z"
proof (cases "z < 1")
  case True
  have e: "binary_exponent z = - 1"
    using assms True by (intro binary_exponent_unique) simp_all
  have "2 ^ 52 + 1 \<le> round_even (z * 2 ^ 53)"
    using assms by (intro round_even_above) simp
  then have "of_int (2 ^ 52 + 1) \<le> (of_int (round_even (z * 2 ^ 53)) :: rat)"
    by (simp only: of_int_le_iff)
  moreover have "f64 z = of_int (round_even (z * 2 ^ 53)) / 2 ^ 53"
    using assms by (simp add: f64_pos_eq e power_int_def power_divide)
  ultimately show ?thesis by (simp add: field_simps)
next
  case False
  then show ?thesis using f64_mono [of 1 z] f64_power [of 0] by simp
qed

lemma f64_ratio_half:
  assumes "a < 2 ^ 53" and "b < 2 ^ 53" and "0 < b"
  shows "1 / 2 < f64_div (f64_of_nat a) (f64_of_nat b) \<longleftrightarrow> b < 2 * a"
proof
  define x y :: rat where "x = of_nat a" and "y = of_nat b"
  have y: "0 < y" "y < 2 ^ 53" "f64_div (f64_of_nat a) (f64_of_nat b) = f64 (x / y)"
    using assms by (simp_all add: x_def y_def f64_div_def f64_of_nat_exact of_nat_less_numeral_iff)
  show "b < 2 * a" if "1 / 2 < f64_div (f64_of_nat a) (f64_of_nat b)"
  proof (rule ccontr)
    assume "\<not> ?thesis"
    then have "2 * x \<le> y" unfolding x_def y_def by (metis not_less of_nat_le_iff of_nat_mult of_nat_numeral)
    then have "x / y \<le> 1 / 2" using y by (simp add: field_simps)
    from f64_mono [OF this] that y show False using f64_power [of "- 1"] by simp
  qed
  show "1 / 2 < f64_div (f64_of_nat a) (f64_of_nat b)" if "b < 2 * a"
  proof -
    have "y + 1 \<le> 2 * x" using that unfolding x_def y_def
      by (metis Suc_leI of_nat_Suc of_nat_le_iff of_nat_mult of_nat_numeral add.commute)
    then have "(y + 1) / (2 * y) \<le> 2 * x / (2 * y)" using y by (intro divide_right_mono) simp_all
    then have "1 / 2 + 1 / (2 * y) \<le> x / y" using y by (simp add: add_divide_distrib)
    moreover have "1 / 2 ^ 54 < 1 / (2 * y)" using y by (simp add: field_simps)
    ultimately show ?thesis unfolding y(3) by (intro f64_above_half) linarith
  qed
qed

section \<open>Percentages\<close>

text \<open>\<open>(float64(a) / float64(b)) * 100.0\<close>.\<close>

definition percentage :: "nat \<Rightarrow> nat \<Rightarrow> float64" where
  "percentage a b = f64_mult (f64_div (f64_of_nat a) (f64_of_nat b)) 100"

lemma percentage_nonneg [simp]: "0 \<le> percentage a b"
  by (simp add: percentage_def f64_mult_def)

lemma percentage_le_100: "a \<le> b \<Longrightarrow> percentage a b \<le> 100"
proof (cases "b = 0")
  case False
  assume "a \<le> b"
  then have "f64_of_nat a \<le> f64_of_nat b" "1 \<le> f64_of_nat b"
    using f64_of_nat_mono f64_of_nat_pos False by auto
  then have "f64_of_nat a / f64_of_nat b \<le> 1" by simp
  from f64_mono [OF this] have "f64_div (f64_of_nat a) (f64_of_nat b) * 100 \<le> 100"
    using f64_power [of 0] by (simp add: f64_div_def)
  from f64_mono [OF this] show ?thesis using f64_numeral [of "num.Bit0 (num.Bit0 (num.Bit1 (num.Bit0 (num.Bit0 (num.Bit1 num.One)))))"]
    by (simp add: percentage_def f64_mult_def)
qed (simp add: percentage_def f64_mult_def f64_div_def f64_of_nat_def)

lemma percentage_100: "0 < b \<Longrightarrow> b \<le> a \<Longrightarrow> 100 \<le> percentage a b"
proof -
  assume "0 < b" "b \<le> a"
  then have "f64_of_nat b \<le> f64_of_nat a" "1 \<le> f64_of_nat b"
    using f64_of_nat_mono f64_of_nat_pos by auto
  then have "1 \<le> f64_of_nat a / f64_of_nat b" by simp
  from f64_mono [OF this] have "100 \<le> f64_div (f64_of_nat a) (f64_of_nat b) * 100"
    using f64_power [of 0] by (simp add: f64_div_def)
  from f64_mono [OF this] show ?thesis using f64_numeral [of "num.Bit0 (num.Bit0 (num.Bit1 (num.Bit0 (num.Bit0 (num.Bit1 num.One)))))"]
    by (simp add: percentage_def f64_mult_def)
qed

text \<open>A counter less than one in a hundred short of its target shows more than 99 percent.\<close>

lemma f64_lower: "0 \<le> x \<Longrightarrow> x * (1 - 1 / 2 ^ 53) \<le> f64 x"
proof -
  assume "0 \<le> x"
  with f64_error [of x] have "x - x / 2 ^ 53 \<le> f64 x" by linarith
  then show ?thesis by (simp only: right_diff_distrib mult_1_right times_divide_eq_right)
qed

lemma f64_upper: "0 \<le> x \<Longrightarrow> f64 x \<le> x * (1 + 1 / 2 ^ 53)"
proof -
  assume "0 \<le> x"
  with f64_error [of x] have "f64 x \<le> x + x / 2 ^ 53" by linarith
  then show ?thesis by (simp only: distrib_left mult_1_right times_divide_eq_right)
qed

lemma percentage_above_99:
  assumes "0 < b" and "991 * b \<le> 1000 * a"
  shows "99 < percentage a b"
proof -
  define u :: rat where "u = 1 / 2 ^ 53"
  have u: "0 < u" "u < 1 / 100000" by (simp_all add: u_def)
  have A: "of_nat a * (1 - u) \<le> f64_of_nat a" and B: "f64_of_nat b \<le> of_nat b * (1 + u)" "1 \<le> f64_of_nat b"
    using f64_lower [of "of_nat a"] f64_upper [of "of_nat b"] f64_of_nat_pos [OF assms(1)]
    by (simp_all add: f64_of_nat_def u_def)
  have ab: "991 / 1000 * (of_nat b :: rat) \<le> of_nat a"
    using of_nat_mono [OF assms(2), where 'a = rat] by simp
  have "0 < (of_nat b :: rat)" using assms(1) by simp
  have "9909 / 10000 * f64_of_nat b \<le> 9909 / 10000 * (of_nat b * (1 + u))" using B by simp
  also have "\<dots> \<le> 991 / 1000 * of_nat b * (1 - u)" 
  proof -
    have "9909 / 10000 * (1 + u) \<le> 991 / 1000 * (1 - u)" using u by (simp add: field_simps)
    from mult_left_mono [OF this, of "of_nat b"] show ?thesis by (simp add: algebra_simps)
  qed
  also have "\<dots> \<le> of_nat a * (1 - u)" using ab u by (intro mult_right_mono) simp_all
  also have "\<dots> \<le> f64_of_nat a" by (rule A)
  finally have r: "9909 / 10000 \<le> f64_of_nat a / f64_of_nat b" using B(2) by (simp add: field_simps)
  have "9908 / 10000 \<le> 9909 / 10000 * (1 - u)" using u by (simp add: field_simps)
  also have "\<dots> \<le> f64 (9909 / 10000)" using f64_lower [of "9909 / 10000"] by (simp add: u_def)
  also have "\<dots> \<le> f64_div (f64_of_nat a) (f64_of_nat b)" using f64_mono [OF r] by (simp add: f64_div_def)
  finally have s: "9908 / 100 \<le> f64_div (f64_of_nat a) (f64_of_nat b) * 100" by simp
  have "99 < 9908 / 100 * (1 - u)" using u by (simp add: field_simps)
  also have "\<dots> \<le> f64 (9908 / 100)" using f64_lower [of "9908 / 100"] by (simp add: u_def)
  also have "\<dots> \<le> percentage a b" using f64_mono [OF s] by (simp add: percentage_def f64_mult_def)
  finally show ?thesis .
qed

end
