(* ===== verification/Connection_Pool.thy ===== *)
theory Connection_Pool
  imports Go_Prelude Float64
begin

text \<open>
  \<open>pkg/p2p/connection_pool.go\<close>: a pool of connection slots. The semaphore channel is the number of
  tokens in it; a send on a full channel and a receive from an empty one block, which the model
  shows as the result \<open>None\<close> (the call does not return in this state). \<open>now\<close> is the time of a call, in
  nanoseconds. The counters are 64-bit in the code; the model keeps the signed ones as integers,
  which the bound on the number of slots keeps far from the limits. A call is one step, so the count
  of waiting calls, which \<open>Acquire\<close> raises and lowers again, is unchanged by it. The field
  \<open>totalRequests\<close> of the pool is never used.
\<close>

section \<open>Model\<close>

text \<open>\<open>maxConnections\<close> is a natural number: \<open>make(chan struct{}, n)\<close> panics for a negative \<open>n\<close>.\<close>

record PooledConnection =
  pc_ID :: string
  pc_ClientIP :: string
  pc_UserAgent :: string
  pc_Connected :: int
  pc_LastActivity :: int
  pc_RequestCount :: u64
  pc_BytesSent :: u64
  pc_BytesRecv :: u64
  pc_Active :: bool

record PoolMetrics =
  pm_TotalConnections :: u64
  pm_ActiveConnections :: int
  pm_RejectedConnections :: u64
  pm_AvgWaitTime :: int
  pm_PeakConnections :: int
  pm_TotalRequests :: u64
  pm_RequestsPerSecond :: u64

record ConnectionPool =
  cp_maxConnections :: nat
  cp_activeConns :: int
  cp_waitingConns :: int
  cp_semaphore :: nat
  cp_metrics :: PoolMetrics
  cp_clients :: "(string, PooledConnection) fmap"

definition NewConnectionPool :: "nat \<Rightarrow> ConnectionPool" where
  "NewConnectionPool maxConnections =
     \<lparr>cp_maxConnections = maxConnections, cp_activeConns = 0, cp_waitingConns = 0, cp_semaphore = 0,
      cp_metrics = \<lparr>pm_TotalConnections = 0, pm_ActiveConnections = 0, pm_RejectedConnections = 0,
        pm_AvgWaitTime = 0, pm_PeakConnections = 0, pm_TotalRequests = 0, pm_RequestsPerSecond = 0\<rparr>,
      cp_clients = fmempty\<rparr>"

text \<open>
  \<open>Acquire\<close>: \<open>cancelled\<close> tells that the select took the case of the context (which it may do even
  when a slot is free); otherwise it takes a slot, and blocks while there is none. The wait took
  \<open>waited\<close> milliseconds.
\<close>

definition Acquire ::
  "bool \<Rightarrow> int \<Rightarrow> int \<Rightarrow> ConnectionPool \<Rightarrow> string \<Rightarrow> string \<Rightarrow> string \<Rightarrow>
   (PooledConnection option \<times> ConnectionPool) option" where
  "Acquire cancelled now waited p clientID clientIP userAgent =
     (if cancelled then
        Some (None, p\<lparr>cp_metrics := (cp_metrics p)\<lparr>pm_RejectedConnections := pm_RejectedConnections (cp_metrics p) + 1\<rparr>\<rparr>)
      else if cp_semaphore p \<ge> cp_maxConnections p then None
      else
        (let conn = \<lparr>pc_ID = clientID, pc_ClientIP = clientIP, pc_UserAgent = userAgent, pc_Connected = now,
               pc_LastActivity = now, pc_RequestCount = 0, pc_BytesSent = 0, pc_BytesRecv = 0, pc_Active = True\<rparr>;
             activeCount = cp_activeConns p + 1;
             m = cp_metrics p in
         Some (Some conn, p\<lparr>
           cp_semaphore := cp_semaphore p + 1,
           cp_clients := fmupd clientID conn (cp_clients p),
           cp_activeConns := activeCount,
           cp_metrics := m\<lparr>pm_AvgWaitTime := waited, pm_ActiveConnections := activeCount,
             pm_TotalConnections := pm_TotalConnections m + 1,
             pm_PeakConnections := (if activeCount \<le> pm_PeakConnections m then pm_PeakConnections m else activeCount)\<rparr>\<rparr>)))"

definition Release :: "ConnectionPool \<Rightarrow> string \<Rightarrow> ConnectionPool option" where
  "Release p clientID =
     (let p = p\<lparr>cp_clients := fmdrop clientID (cp_clients p)\<rparr> in
      if cp_semaphore p = 0 then None
      else
        (let activeCount = cp_activeConns p - 1 in
         Some (p\<lparr>cp_semaphore := cp_semaphore p - 1, cp_activeConns := activeCount,
                 cp_metrics := (cp_metrics p)\<lparr>pm_ActiveConnections := activeCount\<rparr>\<rparr>)))"

definition RecordRequest :: "int \<Rightarrow> ConnectionPool \<Rightarrow> string \<Rightarrow> u64 \<Rightarrow> u64 \<Rightarrow> ConnectionPool" where
  "RecordRequest now p clientID bytesSent bytesRecv =
     (let clients = (case fmlookup (cp_clients p) clientID of
            None \<Rightarrow> cp_clients p
          | Some conn \<Rightarrow> fmupd clientID (conn\<lparr>pc_RequestCount := pc_RequestCount conn + 1,
              pc_BytesSent := pc_BytesSent conn + bytesSent, pc_BytesRecv := pc_BytesRecv conn + bytesRecv,
              pc_LastActivity := now\<rparr>) (cp_clients p)) in
      p\<lparr>cp_clients := clients,
        cp_metrics := (cp_metrics p)\<lparr>pm_TotalRequests := pm_TotalRequests (cp_metrics p) + 1\<rparr>\<rparr>)"

definition GetActiveCount :: "ConnectionPool \<Rightarrow> int" where
  "GetActiveCount p = cp_activeConns p"

definition GetWaitingCount :: "ConnectionPool \<Rightarrow> int" where
  "GetWaitingCount p = cp_waitingConns p"

definition IsAvailable :: "ConnectionPool \<Rightarrow> bool" where
  "IsAvailable p \<longleftrightarrow> cp_activeConns p < int (cp_maxConnections p)"

text \<open>
  The percentage of slots in use, for a non-negative count (\<open>pool_inv\<close> below keeps it so); for a pool
  without slots the code divides 0 by 0, which is not a number, here \<open>None\<close>.
\<close>

definition GetUtilization :: "ConnectionPool \<Rightarrow> float64 option" where
  "GetUtilization p =
     (if cp_maxConnections p = 0 then None
      else Some (percentage (nat (cp_activeConns p)) (cp_maxConnections p)))"

text \<open>
  \<open>CleanupStale\<close>: the loop over the clients in some order \<open>ids\<close>; each stale one gives a slot back.
  A receive from an empty semaphore blocks while the pool is locked.
\<close>

definition isStale :: "int \<Rightarrow> int \<Rightarrow> PooledConnection \<Rightarrow> bool" where
  "isStale now maxIdleTime conn \<longleftrightarrow> pc_Active conn \<and> now - pc_LastActivity conn > maxIdleTime"

fun cleanupLoop :: "int \<Rightarrow> int \<Rightarrow> string list \<Rightarrow> ConnectionPool \<Rightarrow> nat \<Rightarrow> (nat \<times> ConnectionPool) option" where
  "cleanupLoop now maxIdle [] p removed = Some (removed, p)"
| "cleanupLoop now maxIdle (clid # ids) p removed =
     (case fmlookup (cp_clients p) clid of
        None \<Rightarrow> cleanupLoop now maxIdle ids p removed
      | Some conn \<Rightarrow>
          if isStale now maxIdle conn then
            (if cp_semaphore p = 0 then None
             else cleanupLoop now maxIdle ids
               (p\<lparr>cp_clients := fmdrop clid (cp_clients p), cp_activeConns := cp_activeConns p - 1,
                  cp_semaphore := cp_semaphore p - 1\<rparr>) (removed + 1))
          else cleanupLoop now maxIdle ids p removed)"

definition CleanupStale :: "int \<Rightarrow> string list \<Rightarrow> ConnectionPool \<Rightarrow> int \<Rightarrow> (nat \<times> ConnectionPool) option" where
  "CleanupStale now ids p maxIdleTime =
     map_option (\<lambda>(removed, p). (removed,
        if removed > 0 then p\<lparr>cp_metrics := (cp_metrics p)\<lparr>pm_ActiveConnections := cp_activeConns p\<rparr>\<rparr> else p))
       (cleanupLoop now maxIdleTime ids p 0)"

definition GetConnectionByID :: "ConnectionPool \<Rightarrow> string \<Rightarrow> PooledConnection option" where
  "GetConnectionByID p clientID = fmlookup (cp_clients p) clientID"

text \<open>The connections in the order of the map iteration \<open>ids\<close>.\<close>

definition GetAllConnections :: "string list \<Rightarrow> ConnectionPool \<Rightarrow> PooledConnection list" where
  "GetAllConnections ids p = filter pc_Active (List.map_filter (fmlookup (cp_clients p)) ids)"

text \<open>The map that \<open>GetMetrics\<close> returns, with its keys as fields; times are in seconds.\<close>

record client_report =
  cr_id :: string
  cr_client_ip :: string
  cr_user_agent :: string
  cr_connected :: int
  cr_last_activity :: int
  cr_requests :: u64
  cr_bytes_sent :: u64
  cr_bytes_recv :: u64

record pool_report =
  pr_max_connections :: nat
  pr_active_connections :: int
  pr_waiting_connections :: int
  pr_total_connections :: u64
  pr_rejected_connections :: u64
  pr_peak_connections :: int
  pr_total_requests :: u64
  pr_requests_per_second :: u64
  pr_avg_wait_time_ms :: int
  pr_active_clients :: "client_report list"
  pr_utilization_percent :: "float64 option"

definition reportClient :: "PooledConnection \<Rightarrow> client_report" where
  "reportClient conn =
     \<lparr>cr_id = pc_ID conn, cr_client_ip = pc_ClientIP conn, cr_user_agent = pc_UserAgent conn,
      cr_connected = pc_Connected conn div 1000000000, cr_last_activity = pc_LastActivity conn div 1000000000,
      cr_requests = pc_RequestCount conn, cr_bytes_sent = pc_BytesSent conn, cr_bytes_recv = pc_BytesRecv conn\<rparr>"

definition GetMetrics :: "string list \<Rightarrow> ConnectionPool \<Rightarrow> pool_report" where
  "GetMetrics ids p =
     (let m = cp_metrics p in
      \<lparr>pr_max_connections = cp_maxConnections p, pr_active_connections = cp_activeConns p,
       pr_waiting_connections = cp_waitingConns p, pr_total_connections = pm_TotalConnections m,
       pr_rejected_connections = pm_RejectedConnections m, pr_peak_connections = pm_PeakConnections m,
       pr_total_requests = pm_TotalRequests m, pr_requests_per_second = pm_RequestsPerSecond m,
       pr_avg_wait_time_ms = pm_AvgWaitTime m,
       pr_active_clients = map reportClient (filter pc_Active (List.map_filter (fmlookup (cp_clients p)) ids)),
       pr_utilization_percent = GetUtilization p\<rparr>)"

definition UpdateRequestsPerSecond :: "ConnectionPool \<Rightarrow> u64 \<Rightarrow> ConnectionPool" where
  "UpdateRequestsPerSecond p rps = p\<lparr>cp_metrics := (cp_metrics p)\<lparr>pm_RequestsPerSecond := rps\<rparr>\<rparr>"

text \<open>
  One tick of the metrics collector, which keeps the last total of requests: the rate, and a cleanup
  in the seconds divisible by 60.
\<close>

definition collectMetrics ::
  "int \<Rightarrow> string list \<Rightarrow> u64 \<Rightarrow> ConnectionPool \<Rightarrow> (u64 \<times> ConnectionPool) option" where
  "collectMetrics now ids lastRequests p =
     (let currentRequests = pm_TotalRequests (cp_metrics p);
          p = UpdateRequestsPerSecond p (currentRequests - lastRequests) in
      if (now div 1000000000) mod 60 = 0
      then map_option (\<lambda>(removed, p). (currentRequests, p)) (CleanupStale now ids p (5 * 60 * 1000000000))
      else Some (currentRequests, p))"

section \<open>Slots\<close>

text \<open>The two counters of the slots agree, stay within bounds, and the peak is an upper bound.\<close>

definition pool_inv :: "ConnectionPool \<Rightarrow> bool" where
  "pool_inv p \<longleftrightarrow> cp_activeConns p = int (cp_semaphore p) \<and> cp_semaphore p \<le> cp_maxConnections p \<and>
     cp_activeConns p \<le> pm_PeakConnections (cp_metrics p) \<and>
     pm_PeakConnections (cp_metrics p) \<le> int (cp_maxConnections p)"

lemma pool_inv_New: "pool_inv (NewConnectionPool n)"
  by (simp add: pool_inv_def NewConnectionPool_def)

lemma pool_inv_Acquire: "pool_inv p \<Longrightarrow> Acquire c now w p i ip ua = Some (r, p') \<Longrightarrow> pool_inv p'"
  by (auto simp: Acquire_def pool_inv_def Let_def split: if_splits)

lemma pool_inv_Release: "pool_inv p \<Longrightarrow> Release p i = Some p' \<Longrightarrow> pool_inv p'"
  by (auto simp: Release_def pool_inv_def Let_def of_nat_diff split: if_splits)

lemma pool_inv_RecordRequest: "pool_inv p \<Longrightarrow> pool_inv (RecordRequest now p i a b)"
  by (simp add: RecordRequest_def pool_inv_def Let_def)

lemma pool_inv_cleanup:
  assumes "cleanupLoop now maxIdle ids p k = Some (n, p')" and "pool_inv p"
  shows "pool_inv p' \<and> cp_maxConnections p' = cp_maxConnections p \<and> cp_semaphore p = cp_semaphore p' + (n - k) \<and> k \<le> n"
  using assms
proof (induction ids arbitrary: p k)
  case (Cons i ids)
  let ?q = "\<lambda>p. p\<lparr>cp_clients := fmdrop i (cp_clients p), cp_activeConns := cp_activeConns p - 1, cp_semaphore := cp_semaphore p - 1\<rparr>"
  have inv: "pool_inv (?q p)" if "cp_semaphore p \<noteq> 0"
    using that Cons.prems(2) by (auto simp: pool_inv_def of_nat_diff)
  show ?case
  proof (cases "\<exists>conn. fmlookup (cp_clients p) i = Some conn \<and> isStale now maxIdle conn")
    case True
    with Cons.prems(1) have nz: "cp_semaphore p \<noteq> 0" and rec: "cleanupLoop now maxIdle ids (?q p) (k + 1) = Some (n, p')"
      by (auto split: if_splits)
    from Cons.IH [OF rec inv [OF nz]] nz show ?thesis by auto
  next
    case False
    with Cons.prems have "cleanupLoop now maxIdle ids p k = Some (n, p')" by (auto split: option.splits)
    with Cons.IH Cons.prems(2) show ?thesis by blast
  qed
qed simp

lemma pool_inv_CleanupStale: "pool_inv p \<Longrightarrow> CleanupStale now ids p maxIdle = Some (n, p') \<Longrightarrow> pool_inv p'"
  using pool_inv_cleanup [of now maxIdle ids p 0] by (auto simp: CleanupStale_def pool_inv_def)


text \<open>The states of a pool: any sequence of calls that return.\<close>

inductive pool_reach :: "nat \<Rightarrow> ConnectionPool \<Rightarrow> bool" for n where
  pr_new: "pool_reach n (NewConnectionPool n)"
| pr_acquire: "pool_reach n p \<Longrightarrow> Acquire c now w p i ip ua = Some (r, p') \<Longrightarrow> pool_reach n p'"
| pr_release: "pool_reach n p \<Longrightarrow> Release p i = Some p' \<Longrightarrow> pool_reach n p'"
| pr_record: "pool_reach n p \<Longrightarrow> pool_reach n (RecordRequest now p i a b)"
| pr_collect: "pool_reach n p \<Longrightarrow> collectMetrics now ids l p = Some (l', p') \<Longrightarrow> pool_reach n p'"

lemma collect_cases:
  assumes "collectMetrics now ids l p = Some (l', p')"
  shows "p' = UpdateRequestsPerSecond p (pm_TotalRequests (cp_metrics p) - l) \<or>
    (\<exists>k. CleanupStale now ids (UpdateRequestsPerSecond p (pm_TotalRequests (cp_metrics p) - l)) (5 * 60 * 1000000000) = Some (k, p'))"
  using assms by (auto simp: collectMetrics_def Let_def split: if_splits)

lemma pool_max:
  "Acquire c now w p i ip ua = Some (r, p') \<Longrightarrow> cp_maxConnections p' = cp_maxConnections p"
  "Release p i = Some p' \<Longrightarrow> cp_maxConnections p' = cp_maxConnections p"
  by (auto simp: Acquire_def Release_def Let_def split: if_splits)

lemma pool_reach_inv: "pool_reach n p \<Longrightarrow> pool_inv p \<and> cp_maxConnections p = n"
proof (induction rule: pool_reach.induct)
  case pr_new
  then show ?case by (simp add: pool_inv_New) (simp add: NewConnectionPool_def)
next
  case (pr_acquire p c now w i ip ua r p')
  then show ?case using pool_inv_Acquire pool_max by metis
next
  case (pr_release p i p')
  then show ?case using pool_inv_Release pool_max by metis
next
  case (pr_record p now i a b)
  then show ?case by (simp add: pool_inv_RecordRequest) (simp add: RecordRequest_def Let_def)
next
  case (pr_collect p now ids l l' p')
  let ?q = "UpdateRequestsPerSecond p (pm_TotalRequests (cp_metrics p) - l)"
  have q: "pool_inv ?q" "cp_maxConnections ?q = n"
    using pr_collect by (simp_all add: UpdateRequestsPerSecond_def pool_inv_def)
  from collect_cases [OF pr_collect(2)] show ?case
  proof
    assume "\<exists>k. CleanupStale now ids ?q (5 * 60 * 1000000000) = Some (k, p')"
    then obtain k p1 where "cleanupLoop now (5 * 60 * 1000000000) ids ?q 0 = Some (k, p1)"
      "CleanupStale now ids ?q (5 * 60 * 1000000000) = Some (k, p')" "cp_maxConnections p' = cp_maxConnections p1"
      by (auto simp: CleanupStale_def split: if_splits)
    then show ?case using pool_inv_cleanup q pool_inv_CleanupStale by metis
  qed (use q in simp)
qed

section \<open>Properties\<close>


definition ex_acquire :: "int \<Rightarrow> ConnectionPool \<Rightarrow> string \<Rightarrow> ConnectionPool" where
  "ex_acquire now p i = snd (the (Acquire False now 0 p i ''10.0.0.1'' ''go''))"


text \<open>
  \<open>Release\<close> gives a slot back whether or not the client is still in the pool. When
  \<open>CleanupStale\<close> has already removed an idle client and given its slot to others, the client's own
  late \<open>Release\<close> frees a slot a second time: with a full pool the next \<open>Acquire\<close> then succeeds and
  the pool holds one connection more than it has slots, while its counters still report \<open>n\<close>.
\<close>

theorem late_release_overcommits:
  assumes "pool_inv p" and "cp_semaphore p = cp_maxConnections p" and "0 < cp_maxConnections p"
    and "fcard (fmdom (cp_clients p)) = cp_maxConnections p"
    and "fmlookup (cp_clients p) stale = None" and "fmlookup (cp_clients p) fresh = None"
  shows "\<exists>p1 p2 conn. Release p stale = Some p1 \<and> Acquire False now w p1 fresh ip ua = Some (Some conn, p2) \<and>
    fcard (fmdom (cp_clients p2)) = cp_maxConnections p + 1 \<and> GetActiveCount p2 = int (cp_maxConnections p)"
proof -
  have same: "fmdrop stale (cp_clients p) = cp_clients p"
    using assms(5) by (intro fmap_ext) (auto simp: fmdom'_notI)
  have notin: "fresh |\<notin>| fmdom (cp_clients p)" using assms(6) by (simp add: fmlookup_dom_iff)
  let ?p1 = "p\<lparr>cp_clients := fmdrop stale (cp_clients p), cp_semaphore := cp_semaphore p - 1, cp_activeConns := cp_activeConns p - 1,
      cp_metrics := (cp_metrics p)\<lparr>pm_ActiveConnections := cp_activeConns p - 1\<rparr>\<rparr>"
  have rel: "Release p stale = Some ?p1" using assms(2,3) by (simp add: Release_def Let_def)
  have "cp_semaphore ?p1 < cp_maxConnections ?p1" using assms(2,3) by simp
  then obtain conn p2 where acq: "Acquire False now w ?p1 fresh ip ua = Some (Some conn, p2)"
    "cp_clients p2 = fmupd fresh conn (cp_clients p)" "cp_activeConns p2 = cp_activeConns p"
    by (auto simp: Acquire_def Let_def same)
  then have "fcard (fmdom (cp_clients p2)) = cp_maxConnections p + 1"
    using notin assms(4) by (simp add: fcard_finsert)
  moreover have "GetActiveCount p2 = int (cp_maxConnections p)"
    using acq(3) assms(1,2) by (simp add: GetActiveCount_def pool_inv_def)
  ultimately show ?thesis using rel acq(1) by blast
qed

text \<open>The pool with one slot: client \<open>a\<close> idles, is cleaned up, and \<open>b\<close> takes the slot.\<close>

definition ex_overtaken :: ConnectionPool where
  "ex_overtaken = ex_acquire 1000000000000
     (snd (the (CleanupStale 900000000000 [''a''] (ex_acquire 0 (NewConnectionPool 1) ''a'') 300000000000))) ''b''"

theorem late_release_overcommits_witness:
  "\<exists>p1 p2 conn. Release ex_overtaken ''a'' = Some p1 \<and>
     Acquire False 0 0 p1 ''c'' ''10.0.0.3'' ''go'' = Some (Some conn, p2) \<and>
     fcard (fmdom (cp_clients p2)) = 2 \<and> cp_maxConnections ex_overtaken = 1"
proof -
  have p: "cp_semaphore ex_overtaken = 1" "cp_maxConnections ex_overtaken = 1" "pool_inv ex_overtaken"
    "fmdom (cp_clients ex_overtaken) = {|''b''|}"
    "fmlookup (cp_clients ex_overtaken) ''a'' = None" "fmlookup (cp_clients ex_overtaken) ''c'' = None"
    by (simp_all add: ex_overtaken_def ex_acquire_def Acquire_def NewConnectionPool_def CleanupStale_def
        isStale_def Let_def pool_inv_def)
  then have "fcard (fmdom (cp_clients ex_overtaken)) = cp_maxConnections ex_overtaken" by (simp add: fcard.rep_eq)
  from late_release_overcommits [OF p(3) _ _ this p(5,6), of 0 0 "''10.0.0.3''" "''go''"] p(1,2) show ?thesis
    by (auto simp: numeral_2_eq_2)
qed

end
