(* ===== verification/Gap_Tracker.thy ===== *)
theory Gap_Tracker
  imports Chain_Types Float64
begin

text \<open>
  The interval tracker of \<open>pkg/storage/gap_tracker.go\<close>: which block numbers are available,
  kept as a sorted list of half-open ranges. The first section translates the Go methods; the
  second states what they compute: every tracker stands for a set of block numbers
  (\<open>available\<close>), \<open>MarkAvailable\<close> adds a range to it, \<open>GetGaps\<close> is its exact complement below
  \<open>maxBlock\<close>, and the list is a canonical form of the set. The locale \<open>range_tracker\<close> is the
  interface the storage engines rely on. Its mutex is not part of the model: every method is one
  critical section.
\<close>

unbundle bit_operations_syntax

section \<open>Model\<close>

record GapTracker =
  gt_availableRanges :: "BlockRange list"
  gt_minBlock :: u64
  gt_maxBlock :: u64

definition NewGapTracker :: GapTracker where
  "NewGapTracker = \<lparr>gt_availableRanges = [], gt_minBlock = NOT 0, gt_maxBlock = 0\<rparr>"

text \<open>One iteration of the merge loop: \<open>last\<close> points to the last element of \<open>merged\<close>.\<close>

definition mergeStep :: "BlockRange list \<Rightarrow> BlockRange \<Rightarrow> BlockRange list" where
  "mergeStep merged current =
     (let l = last merged in
      if br_Start current \<le> br_End l then
        (if br_End current > br_End l
         then butlast merged @ [l\<lparr>br_End := br_End current\<rparr>]
         else merged)
      else merged @ [current])"

definition mergeSorted :: "BlockRange list \<Rightarrow> BlockRange list" where
  "mergeSorted rs = foldl mergeStep [hd rs] (tl rs)"

text \<open>
  \<open>sort.Slice\<close> orders by \<open>Start\<close> and leaves the order of ranges with equal starts open; the
  model uses the stable sort, and \<open>mergeSorted_any_order\<close> below shows that every order
  \<open>sort.Slice\<close> may choose gives the same result.
\<close>

definition mergeRanges :: "GapTracker \<Rightarrow> GapTracker" where
  "mergeRanges g =
     (if length (gt_availableRanges g) \<le> 1 then g
      else g\<lparr>gt_availableRanges := mergeSorted (sort_key br_Start (gt_availableRanges g))\<rparr>)"

definition MarkAvailable :: "GapTracker \<Rightarrow> u64 \<Rightarrow> u64 \<Rightarrow> GapTracker" where
  "MarkAvailable g start end =
     (if start \<ge> end then g
      else mergeRanges (g\<lparr>
        gt_minBlock := (if start < gt_minBlock g then start else gt_minBlock g),
        gt_maxBlock := (if end > gt_maxBlock g then end else gt_maxBlock g),
        gt_availableRanges := gt_availableRanges g @ [\<lparr>br_Start = start, br_End = end\<rparr>]\<rparr>))"

fun anyRangeHas :: "BlockRange list \<Rightarrow> u64 \<Rightarrow> bool" where
  "anyRangeHas [] n = False"
| "anyRangeHas (r # rs) n = (if n \<ge> br_Start r \<and> n < br_End r then True else anyRangeHas rs n)"

definition HasBlock :: "GapTracker \<Rightarrow> u64 \<Rightarrow> bool" where
  "HasBlock g blockNum = anyRangeHas (gt_availableRanges g) blockNum"

text \<open>The loop over neighbouring available ranges.\<close>

fun betweenGaps :: "BlockRange list \<Rightarrow> BlockRange list" where
  "betweenGaps (a # b # rs) =
     (if br_End a < br_Start b then [\<lparr>br_Start = br_End a, br_End = br_Start b\<rparr>] else [])
     @ betweenGaps (b # rs)"
| "betweenGaps rs = []"

definition GetGaps :: "GapTracker \<Rightarrow> BlockRange list" where
  "GetGaps g =
     (case gt_availableRanges g of
        [] \<Rightarrow> if gt_maxBlock g > 0 then [\<lparr>br_Start = 0, br_End = gt_maxBlock g\<rparr>] else []
      | r # rs \<Rightarrow>
          (if br_Start r > 0 then [\<lparr>br_Start = 0, br_End = br_Start r\<rparr>] else [])
          @ betweenGaps (r # rs))"

definition GetAvailableRanges :: "GapTracker \<Rightarrow> BlockRange list" where
  "GetAvailableRanges g = gt_availableRanges g"

definition largerGap :: "BlockRange \<times> u64 \<Rightarrow> BlockRange \<Rightarrow> BlockRange \<times> u64" where
  "largerGap best gap =
     (let size = br_End gap - br_Start gap in
      if size > snd best then (gap, size) else best)"

definition GetNextGap :: "GapTracker \<Rightarrow> BlockRange option" where
  "GetNextGap g =
     (case GetGaps g of
        [] \<Rightarrow> None
      | gap # gaps \<Rightarrow> Some (fst (foldl largerGap (gap, br_End gap - br_Start gap) gaps)))"

definition GetMinBlock :: "GapTracker \<Rightarrow> u64" where
  "GetMinBlock g = gt_minBlock g"

definition GetMaxBlock :: "GapTracker \<Rightarrow> u64" where
  "GetMaxBlock g = gt_maxBlock g"

definition sumSizes :: "BlockRange list \<Rightarrow> u64" where
  "sumSizes rs = foldl (\<lambda>total r. total + (br_End r - br_Start r)) 0 rs"

definition GetTotalGapSize :: "GapTracker \<Rightarrow> u64" where
  "GetTotalGapSize g = sumSizes (GetGaps g)"

definition GetCompletionPercentage :: "GapTracker \<Rightarrow> float64" where
  "GetCompletionPercentage g =
     (if gt_maxBlock g = 0 then 0
      else
        (let totalRange = gt_maxBlock g - gt_minBlock g in
         if totalRange = 0 then 100
         else percentage (unat (sumSizes (gt_availableRanges g))) (unat totalRange)))"

definition ResetTracker :: "GapTracker \<Rightarrow> GapTracker" where
  "ResetTracker g = g\<lparr>gt_availableRanges := [], gt_minBlock := NOT 0, gt_maxBlock := 0\<rparr>"

section \<open>Separated range lists\<close>

text \<open>
  The shape every tracker keeps: ranges are not empty, in order, and not even adjacent
  (\<open>End\<close> of one is strictly below \<open>Start\<close> of the next).
\<close>

definition separated :: "BlockRange list \<Rightarrow> bool" where
  "separated rs \<longleftrightarrow>
     sorted_wrt (\<lambda>a b. br_End a < br_Start b) rs \<and> list_all (\<lambda>r. br_Start r < br_End r) rs"

lemma separated_simps [simp]:
  "separated []"
  "separated (r # rs) \<longleftrightarrow>
     br_Start r < br_End r \<and> (\<forall>q \<in> set rs. br_End r < br_Start q) \<and> separated rs"
  by (auto simp: separated_def)

lemma separated_append:
  "separated (rs @ ss) \<longleftrightarrow>
     separated rs \<and> separated ss \<and> (\<forall>r \<in> set rs. \<forall>s \<in> set ss. br_End r < br_Start s)"
  by (induction rs) auto

lemma separated_nonempty: "separated rs \<Longrightarrow> r \<in> set rs \<Longrightarrow> br_Start r < br_End r"
  by (simp add: separated_def list_all_iff)

lemma separated_above: "separated (r # rs) \<Longrightarrow> x \<in> covered rs \<Longrightarrow> br_End r < x"
  by (fastforce simp: covered_iff blocks_of_iff)

lemma separated_disjoint: "separated (r # rs) \<Longrightarrow> blocks_of r \<inter> covered rs = {}"
  using separated_above by (fastforce simp: blocks_of_iff)

lemma separated_start_least: "separated (r # rs) \<Longrightarrow> x \<in> covered (r # rs) \<Longrightarrow> br_Start r \<le> x"
  using separated_above [of r rs x] by (auto simp: blocks_of_iff)

lemma separated_start_in: "separated (r # rs) \<Longrightarrow> br_Start r \<in> covered (r # rs)"
  by (simp add: blocks_of_iff)

lemma separated_end_out: "separated (r # rs) \<Longrightarrow> br_End r \<notin> covered (r # rs)"
  using separated_above [of r rs "br_End r"] by (auto simp: blocks_of_iff)

lemma separated_last:
  "separated rs \<Longrightarrow> rs \<noteq> [] \<Longrightarrow> x \<in> covered rs \<Longrightarrow> x < br_End (last rs)"
proof (induction rs rule: rev_induct)
  case (snoc r rs)
  then have lt: "\<forall>q \<in> set rs. br_End q < br_Start r" and ne: "br_Start r < br_End r"
    by (auto simp: separated_append)
  show ?case
  proof (cases "x \<in> covered rs")
    case True
    then obtain q where "q \<in> set rs" "x < br_End q" by (auto simp: covered_iff blocks_of_iff)
    with lt ne show ?thesis by fastforce
  next
    case False
    with snoc.prems show ?thesis by (simp add: blocks_of_iff)
  qed
qed simp

lemma covered_empty_iff: "separated rs \<Longrightarrow> covered rs = {} \<longleftrightarrow> rs = []"
  by (cases rs) (auto simp: blocks_of_def)

text \<open>A separated list is determined by the set it covers.\<close>

lemma separated_unique:
  "separated rs \<Longrightarrow> separated ss \<Longrightarrow> covered rs = covered ss \<Longrightarrow> rs = ss"
proof (induction rs arbitrary: ss)
  case Nil
  then show ?case using covered_empty_iff [of ss] by simp
next
  case (Cons r rs)
  then obtain s ss' where ss: "ss = s # ss'"
    by (metis covered_empty_iff list.exhaust list.distinct(1))
  note sr = Cons.prems(1) and ss' = Cons.prems(2) [unfolded ss]
    and eq = Cons.prems(3) [unfolded ss]
  have start: "br_Start r = br_Start s"
    using separated_start_in [OF sr] separated_start_in [OF ss']
      separated_start_least [OF sr] separated_start_least [OF ss'] eq
    by (metis antisym)
  have "\<not> br_End r < br_End s"
    using separated_end_out [OF sr] eq start sr by (auto simp: blocks_of_iff)
  moreover have "\<not> br_End s < br_End r"
    using separated_end_out [OF ss'] eq start ss' by (auto simp: blocks_of_iff)
  ultimately have "r = s" using start by simp
  moreover have "covered rs = covered ss'"
    using eq \<open>r = s\<close> separated_disjoint [OF sr] separated_disjoint [OF ss'] by auto
  ultimately show ?case using Cons.IH [of ss'] sr ss' ss by simp
qed

section \<open>Merging\<close>

text \<open>The loop of \<open>mergeRanges\<close>, written as a recursion over the rest of the list.\<close>

fun merge_from :: "BlockRange \<Rightarrow> BlockRange list \<Rightarrow> BlockRange list" where
  "merge_from l [] = [l]"
| "merge_from l (c # cs) =
     (if br_Start c \<le> br_End l then merge_from (l\<lparr>br_End := max (br_End l) (br_End c)\<rparr>) cs
      else l # merge_from c cs)"

lemma foldl_mergeStep: "foldl mergeStep (ms @ [l]) rs = ms @ merge_from l rs"
proof (induction rs arbitrary: ms l)
  case (Cons c rs)
  show ?case
  proof (cases "br_Start c \<le> br_End l")
    case True
    then have "mergeStep (ms @ [l]) c = ms @ [l\<lparr>br_End := max (br_End l) (br_End c)\<rparr>]"
      by (simp add: mergeStep_def Let_def max_def)
    with True Cons show ?thesis by simp
  next
    case False
    then have "mergeStep (ms @ [l]) c = (ms @ [l]) @ [c]"
      by (simp add: mergeStep_def Let_def)
    with False Cons [of "ms @ [l]" c] show ?thesis by simp
  qed
qed simp

lemma mergeSorted_Cons: "mergeSorted (r # rs) = merge_from r rs"
  using foldl_mergeStep [of "[]" r rs] by (simp add: mergeSorted_def)

lemma merge_from_starts:
  "q \<in> set (merge_from l cs) \<Longrightarrow>
   br_Start q \<in> insert (br_Start l) (br_Start ` set cs)"
  by (induction l cs rule: merge_from.induct) (auto split: if_splits)

lemma covered_merge_from:
  "sorted (map br_Start (l # cs)) \<Longrightarrow> covered (merge_from l cs) = blocks_of l \<union> covered cs"
proof (induction l cs rule: merge_from.induct)
  case (2 l c cs)
  show ?case
  proof (cases "br_Start c \<le> br_End l")
    case True
    let ?l = "l\<lparr>br_End := max (br_End l) (br_End c)\<rparr>"
    have "blocks_of ?l = blocks_of l \<union> blocks_of c"
      using True 2(3) by (auto simp: blocks_of_def max_def)
    moreover have "covered (merge_from ?l cs) = blocks_of ?l \<union> covered cs"
      using True 2 by simp
    ultimately show ?thesis using True by auto
  next
    case False
    with 2 show ?thesis by simp
  qed
qed simp

lemma separated_merge_from:
  "sorted (map br_Start (l # cs)) \<Longrightarrow> list_all (\<lambda>r. br_Start r < br_End r) (l # cs) \<Longrightarrow>
   separated (merge_from l cs)"
proof (induction l cs rule: merge_from.induct)
  case (2 l c cs)
  show ?case
  proof (cases "br_Start c \<le> br_End l")
    case True
    let ?l = "l\<lparr>br_End := max (br_End l) (br_End c)\<rparr>"
    have "sorted (map br_Start (?l # cs))" using 2(3) by simp
    moreover have "list_all (\<lambda>r. br_Start r < br_End r) (?l # cs)"
      using 2(4) by (auto simp: max_def)
    ultimately have "separated (merge_from ?l cs)" by (rule 2(1) [OF True])
    with True show ?thesis by simp
  next
    case False
    then have sep: "separated (merge_from c cs)" using 2 by simp
    have "br_End l < br_Start q" if "q \<in> set (merge_from c cs)" for q
    proof -
      have "br_Start c \<le> br_Start q"
        using merge_from_starts [of q c cs] that 2(3) by auto
      with False show ?thesis by simp
    qed
    with sep False 2(4) show ?thesis by simp
  qed
qed simp

lemma mergeSorted_correct:
  assumes "sorted (map br_Start rs)" and "list_all (\<lambda>r. br_Start r < br_End r) rs" and "rs \<noteq> []"
  shows "separated (mergeSorted rs)" and "covered (mergeSorted rs) = covered rs"
proof -
  obtain r rs' where rs: "rs = r # rs'" using assms(3) by (cases rs) auto
  show "separated (mergeSorted rs)"
    using separated_merge_from [of r rs'] assms by (simp add: rs mergeSorted_Cons)
  show "covered (mergeSorted rs) = covered rs"
    using covered_merge_from [of r rs'] assms by (simp add: rs mergeSorted_Cons)
qed

text \<open>
  \<^bold>\<open>Any sort will do.\<close> \<open>sort.Slice\<close> is not stable: for ranges with equal starts it may
  return any order. Merging every start-ordered permutation gives the same list.
\<close>

lemma mergeSorted_any_order:
  assumes "sorted (map br_Start rs)" and "sorted (map br_Start ss)" and "set ss = set rs"
    and "list_all (\<lambda>r. br_Start r < br_End r) rs"
  shows "mergeSorted ss = mergeSorted rs"
proof (cases "rs = []")
  case False
  with assms have ss: "list_all (\<lambda>r. br_Start r < br_End r) ss" "ss \<noteq> []" "covered ss = covered rs"
    by (auto simp: list_all_iff covered_def)
  show ?thesis
    using mergeSorted_correct [OF assms(1,4) False] mergeSorted_correct [OF assms(2) ss(1,2)] ss(3)
    by (simp add: separated_unique)
qed (use assms in simp)

section \<open>The set a tracker stands for\<close>

definition available :: "GapTracker \<Rightarrow> u64 set" where
  "available g = covered (gt_availableRanges g)"

text \<open>\<open>minBlock\<close> and \<open>maxBlock\<close> bound the available set tightly; an empty tracker has the initial values.\<close>

definition tight_bounds :: "u64 set \<Rightarrow> u64 \<Rightarrow> u64 \<Rightarrow> bool" where
  "tight_bounds A mn mx \<longleftrightarrow>
     (if A = {} then mn = u64_max \<and> mx = 0
      else mn \<in> A \<and> mx \<noteq> 0 \<and> mx - 1 \<in> A \<and> (\<forall>x \<in> A. mn \<le> x \<and> x < mx))"

definition gt_inv :: "GapTracker \<Rightarrow> bool" where
  "gt_inv g \<longleftrightarrow>
     separated (gt_availableRanges g) \<and>
     tight_bounds (available g) (gt_minBlock g) (gt_maxBlock g)"

lemma pred_u64: "(x :: u64) < y \<Longrightarrow> x \<le> y - 1 \<and> y - 1 < y"
  by unat_arith

lemma tight_bounds_add:
  assumes "tight_bounds A mn mx" and "s < e"
  shows "tight_bounds (A \<union> {s ..< e}) (if s < mn then s else mn) (if e > mx then e else mx)"
proof -
  have e: "e \<noteq> 0" "e - 1 \<in> {s ..< e}" "s \<in> {s ..< e}" "A \<union> {s ..< e} \<noteq> {}"
    using assms(2) pred_u64 [of s e] by auto
  show ?thesis
  proof (cases "A = {}")
    case True
    with assms(1) have "mn = u64_max" "mx = 0" by (simp_all add: tight_bounds_def)
    moreover have "s < u64_max" using assms(2) by (simp add: u64_less_max_iff) auto
    moreover have "0 < e" using e(1) by (simp add: word_neq_0_conv)
    ultimately show ?thesis using True e by (simp add: tight_bounds_def)
  next
    case False
    with assms(1) have A: "mn \<in> A" "mx \<noteq> 0" "mx - 1 \<in> A"
      and bnd: "\<And>x. x \<in> A \<Longrightarrow> mn \<le> x" "\<And>x. x \<in> A \<Longrightarrow> x < mx"
      by (simp_all add: tight_bounds_def)
    have "(if s < mn then s else mn) \<le> x \<and> x < (if e > mx then e else mx)"
      if "x \<in> A \<union> {s ..< e}" for x
    proof (cases "x \<in> A")
      case True
      with bnd [of x] show ?thesis by auto
    next
      case False
      with that show ?thesis by auto
    qed
    with A e show ?thesis by (simp add: tight_bounds_def)
  qed
qed

lemma tight_bounds_unique:
  assumes "tight_bounds A mn mx" and "tight_bounds A mn' mx'"
  shows "mn = mn'" and "mx = mx'"
proof -
  show "mn = mn'" using assms by (auto simp: tight_bounds_def split: if_splits intro: antisym)
  show "mx = mx'"
  proof (cases "A = {}")
    case True
    with assms show ?thesis by (simp add: tight_bounds_def)
  next
    case False
    with assms have "mx - 1 < mx'" "mx' - 1 < mx" "mx \<noteq> 0" "mx' \<noteq> 0"
      by (auto simp: tight_bounds_def)
    then show ?thesis by unat_arith
  qed
qed

lemma tight_bounds_ranges:
  assumes "separated rs" and "rs \<noteq> []"
  shows "tight_bounds (covered rs) (br_Start (hd rs)) (br_End (last rs))"
proof -
  obtain r rs' where rs: "rs = r # rs'" using assms(2) by (cases rs) auto
  have l: "last rs \<in> set rs" using assms(2) by simp
  then have ne: "br_Start (last rs) < br_End (last rs)" using assms(1) separated_nonempty by blast
  with l have "br_End (last rs) - 1 \<in> covered rs"
    using pred_u64 by (auto simp: covered_iff blocks_of_iff)
  moreover have "br_End (last rs) \<noteq> 0" using ne by auto
  moreover have "covered rs \<noteq> {}" using assms by (simp add: covered_empty_iff)
  moreover have "br_Start r \<in> covered rs" "\<forall>x \<in> covered rs. br_Start r \<le> x"
    using assms(1) separated_start_in separated_start_least unfolding rs by blast+
  moreover have "\<forall>x \<in> covered rs. x < br_End (last rs)"
    using separated_last assms by blast
  ultimately show ?thesis by (simp add: tight_bounds_def rs)
qed

lemma gt_inv_bounds:
  assumes "gt_inv g" and "gt_availableRanges g \<noteq> []"
  shows "gt_minBlock g = br_Start (hd (gt_availableRanges g))"
    and "gt_maxBlock g = br_End (last (gt_availableRanges g))"
  using assms tight_bounds_ranges [of "gt_availableRanges g"]
  by (auto simp: gt_inv_def available_def intro: tight_bounds_unique)

lemma available_empty_iff: "gt_inv g \<Longrightarrow> available g = {} \<longleftrightarrow> gt_availableRanges g = []"
  by (simp add: gt_inv_def available_def covered_empty_iff)

section \<open>What the operations compute\<close>

lemma available_mergeRanges_aux:
  assumes "list_all (\<lambda>r. br_Start r < br_End r) (gt_availableRanges g)" and "gt_availableRanges g \<noteq> []"
  shows "separated (gt_availableRanges (mergeRanges g)) \<and> available (mergeRanges g) = available g"
proof (cases "length (gt_availableRanges g) \<le> 1")
  case True
  with assms(2) obtain r where "gt_availableRanges g = [r]"
    by (cases "gt_availableRanges g") auto
  with True assms(1) show ?thesis by (simp add: mergeRanges_def)
next
  case False
  let ?ss = "sort_key br_Start (gt_availableRanges g)"
  have "list_all (\<lambda>r. br_Start r < br_End r) ?ss" "?ss \<noteq> []" "covered ?ss = covered (gt_availableRanges g)"
    using assms by (auto simp: list_all_iff covered_def simp flip: set_empty)
  with mergeSorted_correct [of ?ss] False show ?thesis
    by (simp add: mergeRanges_def available_def)
qed

lemma mergeRanges_bounds [simp]:
  "gt_minBlock (mergeRanges g) = gt_minBlock g" "gt_maxBlock (mergeRanges g) = gt_maxBlock g"
  by (simp_all add: mergeRanges_def)

lemma MarkAvailable_correct:
  assumes "gt_inv g"
  shows "gt_inv (MarkAvailable g s e) \<and> available (MarkAvailable g s e) = available g \<union> {s ..< e}"
proof (cases "s < e")
  case True
  define g' where "g' = g\<lparr>gt_minBlock := (if s < gt_minBlock g then s else gt_minBlock g),
      gt_maxBlock := (if e > gt_maxBlock g then e else gt_maxBlock g),
      gt_availableRanges := gt_availableRanges g @ [\<lparr>br_Start = s, br_End = e\<rparr>]\<rparr>"
  have m: "MarkAvailable g s e = mergeRanges g'"
    using True by (simp add: MarkAvailable_def g'_def)
  have av: "available g' = available g \<union> {s ..< e}"
    by (simp add: g'_def available_def blocks_of_def)
  have "list_all (\<lambda>r. br_Start r < br_End r) (gt_availableRanges g')" "gt_availableRanges g' \<noteq> []"
    using True assms by (simp_all add: g'_def gt_inv_def separated_def)
  then have "separated (gt_availableRanges (mergeRanges g'))" "available (mergeRanges g') = available g'"
    using available_mergeRanges_aux by blast+
  moreover have "tight_bounds (available g') (gt_minBlock g') (gt_maxBlock g')"
    using tight_bounds_add [OF _ True] assms av by (simp add: gt_inv_def g'_def)
  ultimately show ?thesis using m av by (simp add: gt_inv_def)
next
  case False
  then have "e \<le> s" by simp
  with assms show ?thesis by (simp add: MarkAvailable_def)
qed

lemma gt_inv_NewGapTracker [simp]: "gt_inv NewGapTracker"
  by (simp add: gt_inv_def NewGapTracker_def available_def tight_bounds_def)

lemma available_NewGapTracker [simp]: "available NewGapTracker = {}"
  by (simp add: NewGapTracker_def available_def)

lemma anyRangeHas_iff: "anyRangeHas rs n \<longleftrightarrow> n \<in> covered rs"
  by (induction rs) (auto simp: blocks_of_iff)

lemma gt_inv_unique:
  assumes "gt_inv g" and "gt_inv h" and "available g = available h"
  shows "g = h"
proof -
  have "gt_availableRanges g = gt_availableRanges h"
    using assms separated_unique by (simp add: gt_inv_def available_def)
  moreover have "gt_minBlock g = gt_minBlock h" "gt_maxBlock g = gt_maxBlock h"
    using assms tight_bounds_unique by (simp_all add: gt_inv_def) blast+
  ultimately show ?thesis by simp
qed

subsection \<open>Gaps\<close>

lemma gap_split:
  fixes a b c e :: "'a::linorder"
  assumes "a < b" "b < c" "c < e" and "\<forall>x \<in> C. c \<le> x"
  shows "{b ..< c} \<union> ({c ..< e} - C) = {a ..< e} - ({a ..< b} \<union> C)"
proof (rule set_eqI)
  fix x
  show "x \<in> {b ..< c} \<union> ({c ..< e} - C) \<longleftrightarrow> x \<in> {a ..< e} - ({a ..< b} \<union> C)"
    using assms by (cases "x < c") auto
qed

lemma betweenGaps_props:
  "separated (r # rs) \<Longrightarrow>
   separated (betweenGaps (r # rs)) \<and>
   covered (betweenGaps (r # rs)) = {br_Start r ..< br_End (last (r # rs))} - covered (r # rs) \<and>
   (\<forall>q \<in> set (betweenGaps (r # rs)). br_End r \<le> br_Start q)"
proof (induction rs arbitrary: r)
  case Nil
  then show ?case by (simp add: blocks_of_def)
next
  case (Cons s rs)
  let ?g = "\<lparr>br_Start = br_End r, br_End = br_Start s\<rparr>"
  let ?E = "br_End (last (s # rs))"
  from Cons.prems have rs: "br_Start r < br_End r" "br_End r < br_Start s" "br_Start s < br_End s"
    and sep: "separated (s # rs)" by auto
  have IH: "separated (betweenGaps (s # rs))"
    "covered (betweenGaps (s # rs)) = {br_Start s ..< ?E} - covered (s # rs)"
    and IH3: "\<And>q. q \<in> set (betweenGaps (s # rs)) \<Longrightarrow> br_End s \<le> br_Start q"
    using Cons.IH [OF sep] by blast+
  have eq: "betweenGaps (r # s # rs) = ?g # betweenGaps (s # rs)" using rs by simp
  have E: "br_Start s < ?E"
    using separated_last [OF sep _ separated_start_in [OF sep]] by simp
  have lo: "\<forall>x \<in> covered (s # rs). br_Start s \<le> x"
    using separated_start_least [OF sep] by blast
  have "covered (betweenGaps (r # s # rs)) = {br_End r ..< br_Start s} \<union> ({br_Start s ..< ?E} - covered (s # rs))"
    using IH eq by (simp add: blocks_of_def)
  also have "\<dots> = {br_Start r ..< ?E} - covered (r # s # rs)"
    using gap_split [OF rs(1,2) E lo] by (simp add: blocks_of_def)
  finally have "covered (betweenGaps (r # s # rs)) = {br_Start r ..< br_End (last (r # s # rs))} - covered (r # s # rs)"
    by simp
  moreover have above: "br_Start s < br_Start q" if "q \<in> set (betweenGaps (s # rs))" for q
    using rs(3) IH3 [OF that] by (rule less_le_trans)
  then have "separated (betweenGaps (r # s # rs))"
    using IH rs by (simp add: eq)
  moreover have "\<forall>q \<in> set (betweenGaps (r # s # rs)). br_End r \<le> br_Start q"
    using above rs(2) by (fastforce simp: eq)
  ultimately show ?case by blast
qed

lemma GetGaps_props:
  assumes "gt_inv g"
  shows "separated (GetGaps g)" and "covered (GetGaps g) = {0 ..< gt_maxBlock g} - available g"
proof -
  have "separated (GetGaps g) \<and> covered (GetGaps g) = {0 ..< gt_maxBlock g} - available g"
  proof (cases "gt_availableRanges g")
    case Nil
    with assms show ?thesis by (simp add: GetGaps_def gt_inv_def available_def tight_bounds_def)
  next
    case (Cons r rs)
    then have sep: "separated (r # rs)" using assms by (simp add: gt_inv_def)
    have mx: "gt_maxBlock g = br_End (last (r # rs))"
      using gt_inv_bounds [OF assms] Cons by simp
    define E where "E = br_End (last (r # rs))"
    note B = betweenGaps_props [OF sep]
    have lt: "br_Start r < E"
      using separated_last [OF sep _ separated_start_in [OF sep]] by (simp add: E_def)
    let ?first = "if br_Start r > 0 then [\<lparr>br_Start = 0, br_End = br_Start r\<rparr>] else []"
    have eq: "GetGaps g = ?first @ betweenGaps (r # rs)" using Cons by (simp add: GetGaps_def)
    have "covered ?first = {0 ..< br_Start r}"
      by (auto simp: blocks_of_def word_neq_0_conv [symmetric])
    then have "covered (GetGaps g) = {0 ..< br_Start r} \<union> ({br_Start r ..< E} - covered (r # rs))"
      using B eq by (simp add: E_def)
    also have "\<dots> = {0 ..< E} - covered (r # rs)"
      using lt separated_start_least [OF sep] by (auto simp del: covered_Cons) (meson leD)+
    finally have "covered (GetGaps g) = {0 ..< gt_maxBlock g} - available g"
      using mx Cons by (simp add: available_def E_def)
    moreover have "br_Start r < br_Start q" if "q \<in> set (betweenGaps (r # rs))" for q
      using B that sep less_le_trans by auto
    then have "separated (GetGaps g)"
      using B by (simp add: eq separated_append)
    ultimately show ?thesis by blast
  qed
  then show "separated (GetGaps g)" "covered (GetGaps g) = {0 ..< gt_maxBlock g} - available g"
    by blast+
qed

lemma sum_range_size: "separated rs \<Longrightarrow> sum_list (map range_size rs) = card (covered rs)"
proof (induction rs)
  case (Cons r rs)
  have "card (covered (r # rs)) = card (blocks_of r) + card (covered rs)"
    using separated_disjoint [OF Cons.prems] by (simp add: card_Un_disjoint blocks_of_def)
  with Cons show ?case by (simp add: card_blocks_of)
qed simp

lemma sumSizes_of_nat:
  assumes "separated rs"
  shows "sumSizes rs = of_nat (sum_list (map range_size rs))"
proof -
  have "foldl (\<lambda>total r. total + (br_End r - br_Start r)) t rs = t + of_nat (sum_list (map range_size rs))" for t
    using assms
  proof (induction rs arbitrary: t)
    case (Cons r rs)
    then have "br_Start r \<le> br_End r" by (simp add: less_imp_le)
    then have "br_End r - br_Start r = of_nat (range_size r)"
      by (simp add: range_size_def unat_diff_u64 [symmetric])
    with Cons show ?case by (simp add: add.assoc)
  qed simp
  then show ?thesis by (simp add: sumSizes_def)
qed

lemma unat_sumSizes:
  assumes "separated rs"
  shows "unat (sumSizes rs) = card (covered rs)"
proof -
  have "card (covered rs) < 2 ^ 64"
  proof (cases "rs = []")
    case False
    then have "covered rs \<subseteq> {0 ..< u64_max}"
      using separated_last [OF assms] by (fastforce intro: less_le_trans)
    then have "card (covered rs) \<le> card {0 ..< u64_max}" by (intro card_mono) simp_all
    then have "card (covered rs) \<le> unat u64_max" by (simp add: card_u64_range)
    also have "\<dots> < 2 ^ 64" using unat_less_2p [of u64_max] by simp
    finally show ?thesis .
  qed simp
  then show ?thesis
    using assms by (simp add: sumSizes_of_nat sum_range_size unat_of_nat)
qed

lemma available_within: "gt_inv g \<Longrightarrow> available g \<subseteq> {gt_minBlock g ..< gt_maxBlock g}"
  by (auto simp: gt_inv_def tight_bounds_def split: if_splits)

text \<open>The completion percentage lies between 0 and 100.\<close>

lemma completion_in_range:
  assumes "gt_inv g"
  shows "0 \<le> GetCompletionPercentage g \<and> GetCompletionPercentage g \<le> 100"
proof -
  have "card (available g) \<le> card {gt_minBlock g ..< gt_maxBlock g}"
    using available_within [OF assms] by (intro card_mono) simp_all
  also have "\<dots> = unat (gt_maxBlock g) - unat (gt_minBlock g)" by (rule card_u64_range)
  also have "\<dots> \<le> unat (gt_maxBlock g - gt_minBlock g)"
    by (cases "gt_minBlock g \<le> gt_maxBlock g") (simp_all add: unat_diff_u64 word_le_nat_alt)
  finally have "unat (sumSizes (gt_availableRanges g)) \<le> unat (gt_maxBlock g - gt_minBlock g)"
    using unat_sumSizes [of "gt_availableRanges g"] assms by (simp add: gt_inv_def available_def)
  then show ?thesis by (simp add: GetCompletionPercentage_def Let_def percentage_le_100)
qed

lemma foldl_largerGap:
  assumes "snd b = br_End (fst b) - br_Start (fst b)"
  shows "let r = fst (foldl largerGap b gs) in
    r \<in> insert (fst b) (set gs) \<and>
    (\<forall>q \<in> insert (fst b) (set gs). br_End q - br_Start q \<le> br_End r - br_Start r)"
  using assms
proof (induction gs arbitrary: b)
  case (Cons g gs)
  have "snd (largerGap b g) = br_End (fst (largerGap b g)) - br_Start (fst (largerGap b g))"
    using Cons.prems by (simp add: largerGap_def Let_def)
  from Cons.IH [OF this] Cons.prems show ?case
    by (auto simp: largerGap_def Let_def split: if_splits)
qed simp

lemma GetNextGap_in: "GetNextGap g = Some r \<Longrightarrow> r \<in> set (GetGaps g)"
proof (cases "GetGaps g")
  case (Cons gap gaps)
  assume "GetNextGap g = Some r"
  with Cons foldl_largerGap [of "(gap, br_End gap - br_Start gap)" gaps] show ?thesis
    by (auto simp: GetNextGap_def Let_def)
qed (simp add: GetNextGap_def)

section \<open>The interface of a range tracker\<close>

text \<open>
  What the storage engines rely on: a tracker stands for a set of block numbers, marking adds a
  half-open range, lookups answer membership, the published ranges cover exactly the set, and two
  trackers for the same set are equal. Replaying published ranges is how \<open>loadGapTracker\<close>
  restores a tracker after a restart.
\<close>

definition mark_ranges :: "('t \<Rightarrow> u64 \<Rightarrow> u64 \<Rightarrow> 't) \<Rightarrow> 't \<Rightarrow> BlockRange list \<Rightarrow> 't" where
  "mark_ranges mark t rs = foldl (\<lambda>t r. mark t (br_Start r) (br_End r)) t rs"

locale range_tracker =
  fixes new :: 't
    and mark :: "'t \<Rightarrow> u64 \<Rightarrow> u64 \<Rightarrow> 't"
    and has :: "'t \<Rightarrow> u64 \<Rightarrow> bool"
    and ranges :: "'t \<Rightarrow> BlockRange list"
    and avail :: "'t \<Rightarrow> u64 set"
    and inv :: "'t \<Rightarrow> bool"
  assumes inv_new: "inv new"
    and inv_mark: "inv t \<Longrightarrow> inv (mark t s e)"
    and avail_new: "avail new = {}"
    and avail_mark: "inv t \<Longrightarrow> avail (mark t s e) = avail t \<union> {s ..< e}"
    and has_iff: "inv t \<Longrightarrow> has t n \<longleftrightarrow> n \<in> avail t"
    and ranges_cover: "inv t \<Longrightarrow> covered (ranges t) = avail t"
    and avail_inject: "inv t \<Longrightarrow> inv t' \<Longrightarrow> avail t = avail t' \<Longrightarrow> t = t'"
begin

lemma mark_ranges_props:
  "inv t \<Longrightarrow> inv (mark_ranges mark t rs) \<and> avail (mark_ranges mark t rs) = avail t \<union> covered rs"
proof (induction rs arbitrary: t)
  case (Cons r rs)
  from Cons.IH [OF inv_mark [OF Cons.prems, of "br_Start r" "br_End r"]] show ?case
    using Cons.prems by (auto simp: mark_ranges_def avail_mark blocks_of_def)
qed (simp add: mark_ranges_def)

lemmas inv_mark_ranges = mark_ranges_props [THEN conjunct1]
lemmas avail_mark_ranges = mark_ranges_props [THEN conjunct2]

lemma replay_ranges: "inv t \<Longrightarrow> mark_ranges mark new (ranges t) = t"
  by (intro avail_inject)
    (simp_all add: inv_new inv_mark_ranges avail_mark_ranges avail_new ranges_cover)

lemma marks_commute:
  "inv t \<Longrightarrow> covered rs = covered ss \<Longrightarrow> mark_ranges mark t rs = mark_ranges mark t ss"
  by (intro avail_inject) (simp_all add: inv_mark_ranges avail_mark_ranges)

lemma mark_idempotent: "inv t \<Longrightarrow> {s ..< e} \<subseteq> avail t \<Longrightarrow> mark t s e = t"
  by (intro avail_inject) (auto simp: inv_mark avail_mark)

end

interpretation gt: range_tracker NewGapTracker MarkAvailable HasBlock GetAvailableRanges available gt_inv
proof unfold_locales
  show "gt_inv NewGapTracker" and "available NewGapTracker = {}" by simp_all
  show "gt_inv (MarkAvailable t s e)" and "available (MarkAvailable t s e) = available t \<union> {s ..< e}"
    if "gt_inv t" for t s e using MarkAvailable_correct [OF that] by simp_all
  show "HasBlock t n \<longleftrightarrow> n \<in> available t" for t n
    by (simp add: HasBlock_def anyRangeHas_iff available_def)
  show "covered (GetAvailableRanges t) = available t" for t
    by (simp add: GetAvailableRanges_def available_def)
  show "t = t'" if "gt_inv t" "gt_inv t'" "available t = available t'" for t t'
    using that by (rule gt_inv_unique)
qed

section \<open>Runs of a tracker\<close>

text \<open>
  A tracker only changes through \<open>MarkAvailable\<close> and \<open>Reset\<close>. The properties below hold after
  every sequence of calls; \<open>marked\<close> is the set such a sequence should leave.
\<close>

datatype tracker_call = Mark u64 u64 | Reset

fun tracker_step :: "GapTracker \<Rightarrow> tracker_call \<Rightarrow> GapTracker" where
  "tracker_step g (Mark s e) = MarkAvailable g s e"
| "tracker_step g Reset = ResetTracker g"

definition run_tracker :: "tracker_call list \<Rightarrow> GapTracker" where
  "run_tracker calls = foldl tracker_step NewGapTracker calls"

fun marked_step :: "u64 set \<Rightarrow> tracker_call \<Rightarrow> u64 set" where
  "marked_step A (Mark s e) = A \<union> {s ..< e}"
| "marked_step A Reset = {}"

definition marked :: "tracker_call list \<Rightarrow> u64 set" where
  "marked calls = foldl marked_step {} calls"

lemma ResetTracker_New: "ResetTracker g = NewGapTracker"
  by (simp add: ResetTracker_def NewGapTracker_def)

lemma run_tracker_props: "gt_inv (run_tracker calls) \<and> available (run_tracker calls) = marked calls"
proof (induction calls rule: rev_induct)
  case Nil
  then show ?case by (simp add: run_tracker_def marked_def)
next
  case (snoc c calls)
  then show ?case
    by (cases c) (simp_all add: run_tracker_def marked_def gt.inv_mark gt.avail_mark ResetTracker_New)
qed

lemmas gt_inv_run [simp] = run_tracker_props [THEN conjunct1]
lemmas available_run = run_tracker_props [THEN conjunct2]

text \<open>
  C6. After any sequence of \<open>MarkAvailable\<close> and \<open>Reset\<close> calls, \<open>HasBlock\<close> answers exactly
  whether the block was marked since the last reset, and the published ranges are non-empty,
  sorted, never overlapping or adjacent, and cover exactly the marked blocks.
\<close>

theorem tracker_tracks_marked_blocks:
  "(HasBlock (run_tracker calls) n \<longleftrightarrow> n \<in> marked calls) \<and>
   separated (GetAvailableRanges (run_tracker calls)) \<and>
   covered (GetAvailableRanges (run_tracker calls)) = marked calls"
proof -
  have "separated (GetAvailableRanges (run_tracker calls))"
    using gt_inv_run [of calls] by (simp add: gt_inv_def GetAvailableRanges_def)
  then show ?thesis by (simp add: gt.has_iff gt.ranges_cover available_run)
qed

text \<open>
  C7. \<open>GetGaps\<close> is the exact complement of the marked blocks below \<open>maxBlock\<close>: the gaps
  are sorted and separated, they cover every unmarked block below \<open>maxBlock\<close> and no marked one,
  every marked block is below \<open>maxBlock\<close>, and \<open>GetTotalGapSize\<close> is the number of missing blocks,
  with no 64-bit overflow.
\<close>

theorem gaps_are_exact_complement:
  "separated (GetGaps (run_tracker calls)) \<and>
   covered (GetGaps (run_tracker calls)) = {0 ..< GetMaxBlock (run_tracker calls)} - marked calls \<and>
   marked calls \<subseteq> {0 ..< GetMaxBlock (run_tracker calls)} \<and>
   unat (GetTotalGapSize (run_tracker calls)) =
     card ({0 ..< GetMaxBlock (run_tracker calls)} - marked calls)"
proof -
  let ?g = "run_tracker calls"
  have inv: "gt_inv ?g" and av: "available ?g = marked calls" by (simp_all add: available_run)
  have sep: "separated (GetGaps ?g)" by (rule GetGaps_props [OF inv])
  have cov: "covered (GetGaps ?g) = {0 ..< GetMaxBlock ?g} - marked calls"
    using GetGaps_props(2) [OF inv] av by (simp add: GetMaxBlock_def)
  have "marked calls \<subseteq> {0 ..< GetMaxBlock ?g}"
    using inv av by (auto simp: gt_inv_def tight_bounds_def GetMaxBlock_def split: if_splits)
  with sep cov unat_sumSizes [OF sep] show ?thesis by (simp add: GetTotalGapSize_def)
qed

text \<open>
  \<open>GetNextGap\<close> returns nil exactly when there is no gap, and otherwise a gap that no other
  gap exceeds in size.
\<close>

theorem next_gap_is_largest:
  "case GetNextGap g of
     None \<Rightarrow> GetGaps g = []
   | Some r \<Rightarrow> r \<in> set (GetGaps g) \<and>
       (\<forall>q \<in> set (GetGaps g). br_End q - br_Start q \<le> br_End r - br_Start r)"
proof (cases "GetGaps g")
  case (Cons gap gaps)
  with foldl_largerGap [of "(gap, br_End gap - br_Start gap)" gaps] show ?thesis
    by (simp add: GetNextGap_def Let_def)
qed (simp add: GetNextGap_def)

theorem next_gap_is_largest_witness:
  "GetNextGap (run_tracker [Mark 10 20, Mark 25 27, Mark 40 41]) = Some \<lparr>br_Start = 27, br_End = 40\<rparr> \<and>
   list_all (\<lambda>q. br_End q - br_Start q \<le> 13) (GetGaps (run_tracker [Mark 10 20, Mark 25 27, Mark 40 41]))"
proof -
  have "GetNextGap (run_tracker [Mark 10 20, Mark 25 27, Mark 40 41]) = Some \<lparr>br_Start = 27, br_End = 40\<rparr>"
    by code_simp
  with next_gap_is_largest [of "run_tracker [Mark 10 20, Mark 25 27, Mark 40 41]"] show ?thesis
    by (simp add: list_all_iff)
qed

text \<open>
  The tracker is a canonical form of the set it stands for: two call sequences that mark the
  same blocks leave identical trackers, whatever the order, overlap or repetition of their
  ranges.
\<close>

theorem tracker_is_canonical:
  assumes "marked calls = marked calls'"
  shows "run_tracker calls = run_tracker calls'"
  using assms by (intro gt.avail_inject) (simp_all add: available_run)

theorem tracker_is_canonical_witness:
  "run_tracker [Mark 5 9, Mark 1 3, Mark 3 6] = run_tracker [Mark 1 4, Reset, Mark 1 9]"
proof (rule tracker_is_canonical)
  show "marked [Mark 5 9, Mark 1 3, Mark 3 6] = marked [Mark 1 4, Reset, Mark 1 9]"
    by (auto simp: marked_def; unat_arith)
qed

end
