(* ===== verification/Block_Storage.thy ===== *)
theory Block_Storage
  imports Gap_Tracker
begin

text \<open>
  \<open>pkg/storage/storage.go\<close>: the \<open>Storage\<close> interface, its contract as the locale
  \<open>block_store\<close>, and the in-memory engine \<open>MemoryStorage\<close>. A method that returns an error and
  changes the state is a function from the state to an \<open>outcome\<close> and a new state. The lock of the
  engine is not part of the model: every method body is one critical section. Contexts are not
  part of the model either (the engines never look at them).
\<close>

section \<open>The storage interface\<close>

datatype kv_error = ErrNotFound | KvFailure string

datatype storage_error =
    BlockIsNil
  | BlockNotFound u64
  | BlockHashNotFound hash
  | EncodeBlockFailed
  | DecodeBlockFailed
  | SetFailed kv_error
  | GetFailed kv_error
  | UpdateMetadataFailed kv_error
  | CommitFailed kv_error
  | SaveGapTrackerFailed kv_error
  | EncodeGapRangesFailed
  | LoadGapTrackerFailed storage_error
  | DecodeGapRangesFailed
  | OpenFailed string
  | CloseFailed kv_error

text \<open>
  A value of interface type \<open>Storage\<close> is a dictionary of methods over the engine's state. The
  two engines of the repository provide one each; the sync engine and the servers take it as an
  argument.
\<close>

record 's storage_ops =
  st_HasBlock :: "'s \<Rightarrow> u64 \<Rightarrow> bool"
  st_GetBlock :: "'s \<Rightarrow> u64 \<Rightarrow> (storage_error, Block) outcome"
  st_GetBlockByHash :: "'s \<Rightarrow> hash \<Rightarrow> (storage_error, Block) outcome"
  st_StoreBlock :: "'s \<Rightarrow> Block option \<Rightarrow> (storage_error, unit) outcome \<times> 's"
  st_StoreBlocks :: "'s \<Rightarrow> Block option list \<Rightarrow> (storage_error, unit) outcome \<times> 's"
  st_GetBlocks :: "'s \<Rightarrow> u64 \<Rightarrow> u64 \<Rightarrow> (storage_error, Block list) outcome"
  st_GetGaps :: "'s \<Rightarrow> BlockRange list"
  st_GetAvailableRanges :: "'s \<Rightarrow> BlockRange list"
  st_GetNextGap :: "'s \<Rightarrow> BlockRange option"
  st_GetMinBlock :: "'s \<Rightarrow> (storage_error, u64) outcome"
  st_GetMaxBlock :: "'s \<Rightarrow> (storage_error, u64) outcome"
  st_GetBlockCount :: "'s \<Rightarrow> (storage_error, u64) outcome"

text \<open>
  The contract of an engine: the blocks it holds are a partial map \<open>view\<close> from numbers to
  blocks, lookups read it, a successful \<open>StoreBlock\<close> of a block the engine can represent
  (\<open>storable\<close>) updates it at the block's own number, and a failed one leaves at most that write
  behind.
\<close>

locale block_store =
  fixes ops :: "'s storage_ops"
    and view :: "'s \<Rightarrow> u64 \<Rightarrow> Block option"
    and storable :: "Block \<Rightarrow> bool"
    and inv :: "'s \<Rightarrow> bool"
  assumes has_view: "inv s \<Longrightarrow> st_HasBlock ops s n \<longleftrightarrow> view s n \<noteq> None"
    and get_view: "inv s \<Longrightarrow> view s n = Some b \<Longrightarrow> st_GetBlock ops s n = Ok b"
    and get_missing: "inv s \<Longrightarrow> view s n = None \<Longrightarrow> \<not> is_ok (st_GetBlock ops s n)"
    and view_number: "inv s \<Longrightarrow> view s n = Some b \<Longrightarrow> block_number b = Some n"
    and store_ok: "inv s \<Longrightarrow> storable b \<Longrightarrow> st_StoreBlock ops s (Some b) = (Ok u, s') \<Longrightarrow>
      block_number b = Some n \<Longrightarrow> inv s' \<and> view s' = (view s)(n \<mapsto> b)"
    and store_err: "inv s \<Longrightarrow> storable b \<Longrightarrow> st_StoreBlock ops s (Some b) = (Err e, s') \<Longrightarrow>
      block_number b = Some n \<Longrightarrow> inv s' \<and> (view s' = view s \<or> view s' = (view s)(n \<mapsto> b))"
    and storable_header: "storable b \<Longrightarrow> block_number b \<noteq> None"
begin

lemma get_after_store:
  assumes "inv s" "storable b" "st_StoreBlock ops s (Some b) = (Ok u, s')" "block_number b = Some n"
  shows "st_GetBlock ops s' n = Ok b \<and> st_HasBlock ops s' n"
  using store_ok [OF assms] by (simp add: get_view has_view)

lemma get_other_after_store:
  assumes "inv s" "storable b" "st_StoreBlock ops s (Some b) = (Ok u, s')" "block_number b = Some n"
    and "m \<noteq> n"
  shows "st_HasBlock ops s' m = st_HasBlock ops s m"
    and "is_ok (st_GetBlock ops s' m) = is_ok (st_GetBlock ops s m)"
proof -
  have s': "inv s'" "view s' m = view s m" using store_ok [OF assms(1-4)] assms(5) by simp_all
  then show "st_HasBlock ops s' m = st_HasBlock ops s m" using assms(1) by (simp add: has_view)
  show "is_ok (st_GetBlock ops s' m) = is_ok (st_GetBlock ops s m)"
    using s' assms(1) by (cases "view s m") (simp_all add: get_view get_missing)
qed

lemma get_ok_view: "inv s \<Longrightarrow> st_GetBlock ops s n = Ok b \<Longrightarrow> view s n = Some b"
  by (cases "view s n") (auto simp: get_view dest: get_missing)

lemma get_number: "inv s \<Longrightarrow> st_GetBlock ops s n = Ok b \<Longrightarrow> block_number b = Some n"
  by (blast dest: get_ok_view view_number)

lemma store_keeps_others:
  assumes "inv s" "storable b" "st_StoreBlock ops s (Some b) = (r, s')" "\<And>p. r \<noteq> Panic p"
  shows "inv s' \<and> (\<forall>m. view s m \<noteq> None \<longrightarrow> view s' m \<noteq> None)"
proof -
  obtain n where n: "block_number b = Some n" using storable_header [OF assms(2)] by auto
  show ?thesis
  proof (cases r)
    case (Ok u)
    with assms n show ?thesis using store_ok [of s b u s' n] by simp
  next
    case (Err e)
    with assms n show ?thesis using store_err [of s b e s' n] by auto
  qed (use assms(4) in simp)
qed

end

section \<open>MemoryStorage\<close>

record MemoryStorage =
  ms_blocks :: "(u64, Block) go_map"
  ms_blockHashes :: "(hash, Block) go_map"
  ms_gapTracker :: GapTracker

definition NewMemoryStorage :: MemoryStorage where
  "NewMemoryStorage = \<lparr>ms_blocks = Some fmempty, ms_blockHashes = Some fmempty,
     ms_gapTracker = NewGapTracker\<rparr>"

text \<open>The two map writes that \<open>StoreBlock\<close> and the loop of \<open>StoreBlocks\<close> share.\<close>

definition mem_putBlock :: "MemoryStorage \<Rightarrow> Block \<Rightarrow> (storage_error, MemoryStorage) outcome" where
  "mem_putBlock s b =
     deref (blk_Header b) (\<lambda>h.
     bind_outcome (map_put (ms_blocks s) (hd_Number h) b) (\<lambda>bs.
     bind_outcome (map_put (ms_blockHashes s) (hd_Hash h) b) (\<lambda>hs.
     Ok (s\<lparr>ms_blocks := bs, ms_blockHashes := hs\<rparr>))))"

fun with_state :: "'s \<Rightarrow> ('e, 's) outcome \<Rightarrow> ('e, unit) outcome \<times> 's" where
  "with_state s (Ok s') = (Ok (), s')"
| "with_state s (Err e) = (Err e, s)"
| "with_state s (Panic p) = (Panic p, s)"

definition mem_StoreBlock ::
  "MemoryStorage \<Rightarrow> Block option \<Rightarrow> (storage_error, unit) outcome \<times> MemoryStorage" where
  "mem_StoreBlock s block =
     (case block of
        None \<Rightarrow> (Err BlockIsNil, s)
      | Some b \<Rightarrow> with_state s (
          bind_outcome (mem_putBlock s b) (\<lambda>s'.
          deref (blk_Header b) (\<lambda>h.
          Ok (s'\<lparr>ms_gapTracker :=
                 MarkAvailable (ms_gapTracker s') (hd_Number h) (hd_Number h + 1)\<rparr>)))))"

definition mem_GetBlock :: "MemoryStorage \<Rightarrow> u64 \<Rightarrow> (storage_error, Block) outcome" where
  "mem_GetBlock s number =
     (case map_get (ms_blocks s) number of None \<Rightarrow> Err (BlockNotFound number) | Some b \<Rightarrow> Ok b)"

definition mem_GetBlockByHash :: "MemoryStorage \<Rightarrow> hash \<Rightarrow> (storage_error, Block) outcome" where
  "mem_GetBlockByHash s h =
     (case map_get (ms_blockHashes s) h of None \<Rightarrow> Err (BlockHashNotFound h) | Some b \<Rightarrow> Ok b)"

definition mem_HasBlock :: "MemoryStorage \<Rightarrow> u64 \<Rightarrow> bool" where
  "mem_HasBlock s number \<longleftrightarrow> map_get (ms_blocks s) number \<noteq> None"

text \<open>The loop over the batch: nil entries are skipped.\<close>

fun mem_putBlocks :: "MemoryStorage \<Rightarrow> Block option list \<Rightarrow> (storage_error, MemoryStorage) outcome" where
  "mem_putBlocks s [] = Ok s"
| "mem_putBlocks s (None # bs) = mem_putBlocks s bs"
| "mem_putBlocks s (Some b # bs) = bind_outcome (mem_putBlock s b) (\<lambda>s'. mem_putBlocks s' bs)"

definition mem_StoreBlocks ::
  "MemoryStorage \<Rightarrow> Block option list \<Rightarrow> (storage_error, unit) outcome \<times> MemoryStorage" where
  "mem_StoreBlocks s blocks =
     with_state s (
       bind_outcome (mem_putBlocks s blocks) (\<lambda>s'.
       if length blocks > 0 then
         deref (hd blocks) (\<lambda>first. deref (blk_Header first) (\<lambda>h0.
         deref (last blocks) (\<lambda>lst. deref (blk_Header lst) (\<lambda>h1.
         Ok (s'\<lparr>ms_gapTracker :=
                MarkAvailable (ms_gapTracker s') (hd_Number h0) (hd_Number h1 + 1)\<rparr>)))))
       else Ok s'))"

text \<open>
  \<open>make([]*types.Block, 0, end-start)\<close> panics when the capacity needs more than the address
  space: on 64-bit targets \<open>2^48\<close> bytes, that is \<open>2^45\<close> pointers. The capacity is the wrapped
  difference.
\<close>

definition max_slice_cap :: nat where
  "max_slice_cap = 2 ^ 45"

definition mem_GetBlocks :: "MemoryStorage \<Rightarrow> u64 \<Rightarrow> u64 \<Rightarrow> (storage_error, Block list) outcome" where
  "mem_GetBlocks s start end =
     (if unat (end - start) > max_slice_cap then Panic MakesliceCap
      else Ok (List.map_filter (map_get (ms_blocks s)) (u64_loop start end)))"

definition mem_GetGaps :: "MemoryStorage \<Rightarrow> BlockRange list" where
  "mem_GetGaps s = GetGaps (ms_gapTracker s)"

definition mem_GetAvailableRanges :: "MemoryStorage \<Rightarrow> BlockRange list" where
  "mem_GetAvailableRanges s = GetAvailableRanges (ms_gapTracker s)"

definition mem_GetNextGap :: "MemoryStorage \<Rightarrow> BlockRange option" where
  "mem_GetNextGap s = GetNextGap (ms_gapTracker s)"

definition mem_GetMinBlock :: "MemoryStorage \<Rightarrow> u64" where
  "mem_GetMinBlock s = GetMinBlock (ms_gapTracker s)"

definition mem_GetMaxBlock :: "MemoryStorage \<Rightarrow> u64" where
  "mem_GetMaxBlock s = GetMaxBlock (ms_gapTracker s)"

definition mem_GetBlockCount :: "MemoryStorage \<Rightarrow> u64" where
  "mem_GetBlockCount s = of_nat (map_len (ms_blocks s))"

definition mem_Close :: "MemoryStorage \<Rightarrow> MemoryStorage" where
  "mem_Close s = s\<lparr>ms_blocks := None, ms_blockHashes := None\<rparr>"

definition mem_ops :: "MemoryStorage storage_ops" where
  "mem_ops = \<lparr>
     st_HasBlock = mem_HasBlock,
     st_GetBlock = mem_GetBlock,
     st_GetBlockByHash = mem_GetBlockByHash,
     st_StoreBlock = mem_StoreBlock,
     st_StoreBlocks = mem_StoreBlocks,
     st_GetBlocks = mem_GetBlocks,
     st_GetGaps = mem_GetGaps,
     st_GetAvailableRanges = mem_GetAvailableRanges,
     st_GetNextGap = mem_GetNextGap,
     st_GetMinBlock = (\<lambda>s. Ok (mem_GetMinBlock s)),
     st_GetMaxBlock = (\<lambda>s. Ok (mem_GetMaxBlock s)),
     st_GetBlockCount = (\<lambda>s. Ok (mem_GetBlockCount s))\<rparr>"

section \<open>Correctness of MemoryStorage\<close>

definition mem_view :: "MemoryStorage \<Rightarrow> u64 \<Rightarrow> Block option" where
  "mem_view s n = map_get (ms_blocks s) n"

text \<open>
  Open storage: both maps exist, every entry is filed under the number or the hash of its own
  header, and the gap tracker is well formed.
\<close>

definition mem_inv :: "MemoryStorage \<Rightarrow> bool" where
  "mem_inv s \<longleftrightarrow>
     ms_blocks s \<noteq> None \<and> ms_blockHashes s \<noteq> None \<and>
     (\<forall>n b. map_get (ms_blocks s) n = Some b \<longrightarrow> block_number b = Some n) \<and>
     (\<forall>h b. map_get (ms_blockHashes s) h = Some b \<longrightarrow> block_hash b = Some h) \<and>
     gt_inv (ms_gapTracker s)"

text \<open>
  The tracker agrees with the stored blocks. Block \<open>2^64 - 1\<close> is never tracked: its range end
  wraps to 0.
\<close>

definition tracker_exact :: "MemoryStorage \<Rightarrow> bool" where
  "tracker_exact s \<longleftrightarrow> available (ms_gapTracker s) = map_keys (ms_blocks s) - {u64_max}"

lemma mem_ops_simps [store_simps]:
  "st_HasBlock mem_ops = mem_HasBlock" "st_GetBlock mem_ops = mem_GetBlock"
  "st_StoreBlock mem_ops = mem_StoreBlock" "st_StoreBlocks mem_ops = mem_StoreBlocks"
  "st_GetNextGap mem_ops = mem_GetNextGap" "st_GetAvailableRanges mem_ops = mem_GetAvailableRanges"
  by (simp_all add: mem_ops_def)

lemma mem_inv_New [simp]: "mem_inv NewMemoryStorage"
  by (simp add: mem_inv_def NewMemoryStorage_def)

lemma tracker_exact_New [simp]: "tracker_exact NewMemoryStorage"
  by (simp add: tracker_exact_def NewMemoryStorage_def)

lemma mem_view_New [simp]: "mem_view NewMemoryStorage = Map.empty"
  by (simp add: mem_view_def NewMemoryStorage_def fun_eq_iff)

lemma mem_putBlock_ok:
  assumes "mem_inv s" and "blk_Header b = Some h"
  obtains s' where "mem_putBlock s b = Ok s'" "mem_inv s'"
    "mem_view s' = (mem_view s)(hd_Number h \<mapsto> b)"
    "map_get (ms_blockHashes s') = (map_get (ms_blockHashes s))(hd_Hash h \<mapsto> b)"
    "map_keys (ms_blocks s') = insert (hd_Number h) (map_keys (ms_blocks s))"
    "ms_gapTracker s' = ms_gapTracker s"
proof -
  from assms(1) obtain f g where fg: "ms_blocks s = Some f" "ms_blockHashes s = Some g"
    by (auto simp: mem_inv_def)
  let ?s = "s\<lparr>ms_blocks := Some (fmupd (hd_Number h) b f),
    ms_blockHashes := Some (fmupd (hd_Hash h) b g)\<rparr>"
  have "mem_putBlock s b = Ok ?s" using fg assms(2) by (simp add: mem_putBlock_def)
  moreover have "mem_inv ?s"
    using assms fg by (auto simp: mem_inv_def block_number_def block_hash_def)
  moreover have "mem_view ?s = (mem_view s)(hd_Number h \<mapsto> b)"
    "map_get (ms_blockHashes ?s) = (map_get (ms_blockHashes s))(hd_Hash h \<mapsto> b)"
    using fg by (auto simp: mem_view_def fun_eq_iff)
  moreover have "map_keys (ms_blocks ?s) = insert (hd_Number h) (map_keys (ms_blocks s))"
    using fg by simp
  ultimately show thesis using that by simp
qed

lemma mem_StoreBlock_ok:
  assumes "mem_inv s" and "blk_Header b = Some h"
  obtains s' where "mem_StoreBlock s (Some b) = (Ok (), s')" "mem_inv s'"
    "mem_view s' = (mem_view s)(hd_Number h \<mapsto> b)"
    "map_get (ms_blockHashes s') = (map_get (ms_blockHashes s))(hd_Hash h \<mapsto> b)"
    "map_keys (ms_blocks s') = insert (hd_Number h) (map_keys (ms_blocks s))"
    "ms_gapTracker s' = MarkAvailable (ms_gapTracker s) (hd_Number h) (hd_Number h + 1)"
proof (rule mem_putBlock_ok [OF assms])
  fix t
  assume t: "mem_putBlock s b = Ok t" "mem_inv t"
    "mem_view t = (mem_view s)(hd_Number h \<mapsto> b)"
    "map_get (ms_blockHashes t) = (map_get (ms_blockHashes s))(hd_Hash h \<mapsto> b)"
    "map_keys (ms_blocks t) = insert (hd_Number h) (map_keys (ms_blocks s))"
    "ms_gapTracker t = ms_gapTracker s"
  let ?s = "t\<lparr>ms_gapTracker := MarkAvailable (ms_gapTracker t) (hd_Number h) (hd_Number h + 1)\<rparr>"
  have "mem_StoreBlock s (Some b) = (Ok (), ?s)"
    using t(1) assms(2) by (simp add: mem_StoreBlock_def)
  moreover have "mem_inv ?s" using t(2) by (simp add: mem_inv_def gt.inv_mark)
  moreover have "mem_view ?s = mem_view t" by (simp add: mem_view_def fun_eq_iff)
  ultimately show thesis using t that [of ?s] by simp
qed

lemma tracker_exact_StoreBlock:
  assumes "mem_inv s" "tracker_exact s" "mem_StoreBlock s (Some b) = (Ok (), s')"
  shows "tracker_exact s'"
proof -
  obtain h where h: "blk_Header b = Some h"
    using assms(3) by (cases "blk_Header b") (auto simp: mem_StoreBlock_def mem_putBlock_def)
  have gt: "gt_inv (ms_gapTracker s)" using assms(1) by (simp add: mem_inv_def)
  show ?thesis
  proof (rule mem_StoreBlock_ok [OF assms(1) h])
    fix t
    assume t: "mem_StoreBlock s (Some b) = (Ok (), t)"
      "map_keys (ms_blocks t) = insert (hd_Number h) (map_keys (ms_blocks s))"
      "ms_gapTracker t = MarkAvailable (ms_gapTracker s) (hd_Number h) (hd_Number h + 1)"
    then have "s' = t" using assms(3) by simp
    moreover have "{hd_Number h ..< hd_Number h + 1} = {hd_Number h} - {u64_max}"
      by (cases "hd_Number h = u64_max") (simp_all add: singleton_u64)
    ultimately show ?thesis
      using t assms(2) by (auto simp: tracker_exact_def gt.avail_mark [OF gt])
  qed
qed

interpretation mem: block_store mem_ops mem_view "\<lambda>b. blk_Header b \<noteq> None" mem_inv
proof unfold_locales
  show "st_HasBlock mem_ops s n \<longleftrightarrow> mem_view s n \<noteq> None" for s n
    by (simp add: mem_ops_def mem_HasBlock_def mem_view_def)
  show "st_GetBlock mem_ops s n = Ok b" if "mem_view s n = Some b" for s n b
    using that by (simp add: mem_ops_def mem_GetBlock_def mem_view_def)
  show "\<not> is_ok (st_GetBlock mem_ops s n)" if "mem_view s n = None" for s n
    using that by (simp add: mem_ops_def mem_GetBlock_def mem_view_def)
  show "block_number b = Some n" if "mem_inv s" "mem_view s n = Some b" for s n b
    using that by (simp add: mem_inv_def mem_view_def)
  fix s b n
  assume s: "mem_inv s" "blk_Header b \<noteq> None" and n: "block_number b = Some n"
  then obtain h where h: "blk_Header b = Some h" "n = hd_Number h"
    by (auto simp: block_number_def)
  show "mem_inv s' \<and> mem_view s' = (mem_view s)(n \<mapsto> b)"
    if "st_StoreBlock mem_ops s (Some b) = (Ok u, s')" for u s'
    using mem_StoreBlock_ok [OF s(1) h(1)] that h(2) by (auto simp: mem_ops_def)
  show "mem_inv s' \<and> (mem_view s' = mem_view s \<or> mem_view s' = (mem_view s)(n \<mapsto> b))"
    if "st_StoreBlock mem_ops s (Some b) = (Err e, s')" for e s'
    using mem_StoreBlock_ok [OF s(1) h(1)] that by (auto simp: mem_ops_def)
qed (auto simp: block_number_def)

subsection \<open>Sequences of single-block writes\<close>

definition mem_store_all :: "Block list \<Rightarrow> MemoryStorage" where
  "mem_store_all bs = foldl (\<lambda>s b. snd (mem_StoreBlock s (Some b))) NewMemoryStorage bs"

lemma mem_store_all_props:
  assumes "\<forall>b \<in> set bs. blk_Header b \<noteq> None"
  shows "mem_inv (mem_store_all bs) \<and> tracker_exact (mem_store_all bs) \<and>
    mem_view (mem_store_all bs) = (\<lambda>n. find (\<lambda>b. block_number b = Some n) (rev bs)) \<and>
    map_keys (ms_blocks (mem_store_all bs)) = {n. Some n \<in> block_number ` set bs}"
  using assms
proof (induction bs rule: rev_induct)
  case Nil
  then show ?case
    by (simp add: mem_store_all_def) (simp add: NewMemoryStorage_def)
next
  case (snoc b bs)
  let ?s = "mem_store_all bs"
  from snoc have IH: "mem_inv ?s" "tracker_exact ?s"
    "mem_view ?s = (\<lambda>n. find (\<lambda>b. block_number b = Some n) (rev bs))"
    "map_keys (ms_blocks ?s) = {n. Some n \<in> block_number ` set bs}"
    and "blk_Header b \<noteq> None" by auto
  then obtain h where h: "blk_Header b = Some h" by auto
  have step: "mem_store_all (bs @ [b]) = snd (mem_StoreBlock ?s (Some b))"
    by (simp add: mem_store_all_def)
  show ?case
  proof (rule mem_StoreBlock_ok [OF IH(1) h])
    fix t
    assume t: "mem_StoreBlock ?s (Some b) = (Ok (), t)" "mem_inv t"
      "mem_view t = (mem_view ?s)(hd_Number h \<mapsto> b)"
      "map_keys (ms_blocks t) = insert (hd_Number h) (map_keys (ms_blocks ?s))"
    have "tracker_exact t" by (rule tracker_exact_StoreBlock [OF IH(1,2) t(1)])
    then show ?case
      using t step IH(3,4) h by (auto simp: block_number_def fun_eq_iff)
  qed
qed

text \<open>
  C8. After any sequence of \<open>StoreBlock\<close> calls, \<open>GetBlock\<close> returns the last block stored under
  the number and an error for any other number, and the gap tracker holds exactly the stored
  numbers, block \<open>2^64 - 1\<close> apart.
\<close>

theorem mem_store_then_get:
  assumes "\<forall>b \<in> set bs. blk_Header b \<noteq> None"
  shows "mem_GetBlock (mem_store_all bs) n =
      (case find (\<lambda>b. block_number b = Some n) (rev bs) of
         None \<Rightarrow> Err (BlockNotFound n) | Some b \<Rightarrow> Ok b) \<and>
    (HasBlock (ms_gapTracker (mem_store_all bs)) n \<longleftrightarrow>
       mem_HasBlock (mem_store_all bs) n \<and> n \<noteq> u64_max)"
proof -
  let ?s = "mem_store_all bs"
  from mem_store_all_props [OF assms] have s: "mem_inv ?s" "tracker_exact ?s"
    "mem_view ?s = (\<lambda>n. find (\<lambda>b. block_number b = Some n) (rev bs))" by auto
  then have "HasBlock (ms_gapTracker ?s) n \<longleftrightarrow> n \<in> map_keys (ms_blocks ?s) - {u64_max}"
    using gt.has_iff [of "ms_gapTracker ?s" n] by (simp add: mem_inv_def tracker_exact_def)
  moreover have "map_get (ms_blocks ?s) n = find (\<lambda>b. block_number b = Some n) (rev bs)"
    using s(3) by (metis mem_view_def)
  ultimately show ?thesis by (simp add: mem_GetBlock_def mem_HasBlock_def map_keys_def)
qed

theorem mem_store_then_get_witness:
  "mem_GetBlock (mem_store_all [example_block 7, example_block 9]) 9 = Ok (example_block 9) \<and>
   HasBlock (ms_gapTracker (mem_store_all [example_block 7, example_block 9])) 9 \<and>
   mem_GetBlock (mem_store_all [example_block 7, example_block 9]) 8 = Err (BlockNotFound 8)"
proof -
  have h: "\<forall>b \<in> set [example_block 7, example_block 9]. blk_Header b \<noteq> None" by simp
  have "mem_HasBlock (mem_store_all [example_block 7, example_block 9]) 9"
    by (simp add: mem_store_all_def mem_StoreBlock_def mem_putBlock_def NewMemoryStorage_def
        mem_HasBlock_def)
  with mem_store_then_get [OF h, of 9] mem_store_then_get [OF h, of 8] show ?thesis by simp
qed

subsection \<open>Batches\<close>

lemma mem_putBlocks_ok:
  assumes "mem_inv s" and "\<forall>b \<in> set bs. blk_Header b \<noteq> None"
  shows "\<exists>s'. mem_putBlocks s (map Some bs) = Ok s' \<and> mem_inv s' \<and>
    mem_view s' = mem_view s ++ (\<lambda>n. find (\<lambda>b. block_number b = Some n) (rev bs)) \<and>
    map_keys (ms_blocks s') = map_keys (ms_blocks s) \<union> {n. Some n \<in> block_number ` set bs} \<and>
    ms_gapTracker s' = ms_gapTracker s"
  using assms
proof (induction bs arbitrary: s)
  case Nil
  then show ?case by (simp add: map_add_def)
next
  case (Cons b bs)
  then obtain h where h: "blk_Header b = Some h" by auto
  show ?case
  proof (rule mem_putBlock_ok [OF Cons.prems(1) h])
    fix t
    assume t: "mem_putBlock s b = Ok t" "mem_inv t"
      "mem_view t = (mem_view s)(hd_Number h \<mapsto> b)"
      "map_keys (ms_blocks t) = insert (hd_Number h) (map_keys (ms_blocks s))"
      "ms_gapTracker t = ms_gapTracker s"
    obtain s' where s': "mem_putBlocks t (map Some bs) = Ok s'" "mem_inv s'"
      "mem_view s' = mem_view t ++ (\<lambda>n. find (\<lambda>b. block_number b = Some n) (rev bs))"
      "map_keys (ms_blocks s') = map_keys (ms_blocks t) \<union> {n. Some n \<in> block_number ` set bs}"
      "ms_gapTracker s' = ms_gapTracker t"
      using Cons.IH [OF t(2)] Cons.prems by auto
    have v: "mem_view s' = mem_view s ++ (\<lambda>n. find (\<lambda>b. block_number b = Some n) (rev (b # bs)))"
      using s'(3) t(3) h
      by (auto simp: fun_eq_iff map_add_def block_number_def find_append split: option.splits)
    show ?case
      using s' t h v by (intro exI [of _ s']) (auto simp: block_number_def)
  qed
qed

lemma mem_StoreBlocks_effect:
  assumes "mem_inv s" and "\<forall>b \<in> set bs. blk_Header b \<noteq> None" and "bs \<noteq> []"
    and "block_number (hd bs) = Some a" and "block_number (last bs) = Some z"
  shows "\<exists>s'. mem_StoreBlocks s (map Some bs) = (Ok (), s') \<and> mem_inv s' \<and>
    mem_view s' = mem_view s ++ (\<lambda>n. find (\<lambda>b. block_number b = Some n) (rev bs)) \<and>
    map_keys (ms_blocks s') = map_keys (ms_blocks s) \<union> {n. Some n \<in> block_number ` set bs} \<and>
    available (ms_gapTracker s') = available (ms_gapTracker s) \<union> {a ..< z + 1}"
proof -
  obtain t where t: "mem_putBlocks s (map Some bs) = Ok t" "mem_inv t"
    "mem_view t = mem_view s ++ (\<lambda>n. find (\<lambda>b. block_number b = Some n) (rev bs))"
    "map_keys (ms_blocks t) = map_keys (ms_blocks s) \<union> {n. Some n \<in> block_number ` set bs}"
    "ms_gapTracker t = ms_gapTracker s"
    using mem_putBlocks_ok [OF assms(1,2)] by blast
  let ?s = "t\<lparr>ms_gapTracker := MarkAvailable (ms_gapTracker t) a (z + 1)\<rparr>"
  have "mem_StoreBlocks s (map Some bs) = (Ok (), ?s)"
    using t(1) assms(3-5)
    by (auto simp: mem_StoreBlocks_def block_number_def hd_map last_map)
  moreover have "mem_inv ?s" "available (ms_gapTracker ?s) = available (ms_gapTracker s) \<union> {a ..< z + 1}"
    using t(2,5) by (simp_all add: mem_inv_def gt.inv_mark gt.avail_mark)
  moreover have "mem_view ?s = mem_view t" by (simp add: mem_view_def fun_eq_iff)
  ultimately show ?thesis using t(3,4) by auto
qed

text \<open>A batch holding the consecutive numbers \<open>[a, e)\<close> in ascending order.\<close>

definition contiguous :: "Block list \<Rightarrow> u64 \<Rightarrow> u64 \<Rightarrow> bool" where
  "contiguous bs a e \<longleftrightarrow> a < e \<and> map block_number bs = map Some (u64_loop a e)"

lemma contiguous_numbers:
  assumes "contiguous bs a e"
  shows "bs \<noteq> []" and "block_number (hd bs) = Some a" and "block_number (last bs) = Some (e - 1)"
    and "\<forall>b \<in> set bs. blk_Header b \<noteq> None" and "block_number ` set bs = Some ` {a ..< e}"
    and "distinct (map block_number bs)"
proof -
  have eq: "map block_number bs = map Some (u64_loop a e)" and ae: "a < e"
    using assms by (simp_all add: contiguous_def)
  have ne: "u64_loop a e \<noteq> []" using ae by simp
  then show bs: "bs \<noteq> []" using eq by (metis map_is_Nil_conv)
  show "block_number (hd bs) = Some a"
    using arg_cong [OF eq, of hd] bs ne ae by (simp add: hd_map hd_u64_loop)
  show "block_number (last bs) = Some (e - 1)"
    using arg_cong [OF eq, of last] bs ne ae by (simp add: last_map last_u64_loop)
  show img: "block_number ` set bs = Some ` {a ..< e}"
    using arg_cong [OF eq, of set] by simp
  show "\<forall>b \<in> set bs. blk_Header b \<noteq> None"
  proof
    fix b assume "b \<in> set bs"
    then have "block_number b \<in> Some ` {a ..< e}" using img by blast
    then show "blk_Header b \<noteq> None" by (auto simp: block_number_def)
  qed
  show "distinct (map block_number bs)"
    using eq by (simp add: distinct_map distinct_u64_loop)
qed

lemma mem_StoreBlocks_contiguous:
  assumes "mem_inv s" and "tracker_exact s" and "contiguous bs a e"
  shows "\<exists>s'. mem_StoreBlocks s (map Some bs) = (Ok (), s') \<and> mem_inv s' \<and> tracker_exact s' \<and>
    (\<forall>b \<in> set bs. \<forall>n. block_number b = Some n \<longrightarrow> mem_GetBlock s' n = Ok b) \<and>
    (\<forall>n. n \<notin> {a ..< e} \<longrightarrow> mem_GetBlock s' n = mem_GetBlock s n)"
proof -
  note c = contiguous_numbers [OF assms(3)]
  have img: "{n. Some n \<in> block_number ` set bs} = {a ..< e}" using c(5) by auto
  obtain s' where s': "mem_StoreBlocks s (map Some bs) = (Ok (), s')" "mem_inv s'"
    "mem_view s' = mem_view s ++ (\<lambda>n. find (\<lambda>b. block_number b = Some n) (rev bs))"
    "map_keys (ms_blocks s') = map_keys (ms_blocks s) \<union> {a ..< e}"
    "available (ms_gapTracker s') = available (ms_gapTracker s) \<union> {a ..< e}"
    using mem_StoreBlocks_effect [OF assms(1) c(4,1,2,3)] img by auto
  have view: "map_get (ms_blocks s') n =
      (case find (\<lambda>b. block_number b = Some n) (rev bs) of
         None \<Rightarrow> map_get (ms_blocks s) n | Some b \<Rightarrow> Some b)" for n
    using fun_cong [OF s'(3), of n] by (simp add: mem_view_def map_add_def split: option.split)
  have "tracker_exact s'"
    using s'(4,5) assms(2,3) by (auto simp: tracker_exact_def contiguous_def)
  moreover have "mem_GetBlock s' n = Ok b" if "b \<in> set bs" "block_number b = Some n" for b n
    using find_by_key [of block_number "rev bs" b] c(6) that view [of n]
    by (simp add: mem_GetBlock_def rev_map [symmetric])
  moreover have "mem_GetBlock s' n = mem_GetBlock s n" if "n \<notin> {a ..< e}" for n
  proof -
    have "Some n \<notin> block_number ` set bs" using that img by blast
    then have "find (\<lambda>b. block_number b = Some n) (rev bs) = None"
      by (auto simp: find_None_iff image_iff)
    then show ?thesis by (simp add: mem_GetBlock_def view)
  qed
  ultimately show ?thesis using s'(1,2) by blast
qed

text \<open>
  A batch of consecutive blocks \<open>[a, e)\<close> in ascending order is stored completely: the call
  succeeds, every block of the batch can be read back, all other blocks are unchanged, and the
  gap tracker still agrees with the stored blocks.
\<close>

theorem mem_store_contiguous_batch:
  assumes "mem_inv s" and "tracker_exact s" and "contiguous bs a e"
  shows "\<exists>s'. mem_StoreBlocks s (map Some bs) = (Ok (), s') \<and> mem_inv s' \<and> tracker_exact s' \<and>
    (\<forall>b \<in> set bs. \<forall>n. block_number b = Some n \<longrightarrow> mem_GetBlock s' n = Ok b) \<and>
    (\<forall>n. n \<notin> {a ..< e} \<longrightarrow> mem_GetBlock s' n = mem_GetBlock s n)"
  using mem_StoreBlocks_contiguous [OF assms] .

theorem mem_store_contiguous_batch_witness:
  "contiguous [example_block 5, example_block 6] 5 7 \<and>
   (\<exists>s'. mem_StoreBlocks NewMemoryStorage (map Some [example_block 5, example_block 6]) = (Ok (), s') \<and>
      tracker_exact s' \<and> mem_GetBlock s' 6 = Ok (example_block 6))"
proof -
  have c: "contiguous [example_block 5, example_block 6] 5 7"
    by (simp add: contiguous_def u64_loop.simps)
  from mem_store_contiguous_batch [OF mem_inv_New tracker_exact_New c] c show ?thesis by fastforce
qed

text \<open>
  \<open>StoreBlocks\<close> marks the whole span from the first to the last number of the batch as
  available, whatever lies between. When a fetched batch lost a block in the middle (the fetcher
  tolerates failures of up to half of a batch), the lost block is not stored, yet it is tracked as
  available and \<open>GetGaps\<close> will not report it again.
\<close>

theorem mem_batch_hides_lost_blocks:
  assumes "mem_inv s" and "\<forall>b \<in> set bs. blk_Header b \<noteq> None" and "bs \<noteq> []"
    and "block_number (hd bs) = Some a" and "block_number (last bs) = Some z"
    and "a < n" and "n < z" and "z \<noteq> u64_max"
    and "Some n \<notin> block_number ` set bs" and "\<not> mem_HasBlock s n"
  shows "\<exists>s'. mem_StoreBlocks s (map Some bs) = (Ok (), s') \<and>
    \<not> mem_HasBlock s' n \<and> HasBlock (ms_gapTracker s') n \<and> n \<notin> covered (mem_GetGaps s')"
proof -
  obtain s' where s': "mem_StoreBlocks s (map Some bs) = (Ok (), s')" "mem_inv s'"
    "map_keys (ms_blocks s') = map_keys (ms_blocks s) \<union> {n. Some n \<in> block_number ` set bs}"
    "available (ms_gapTracker s') = available (ms_gapTracker s) \<union> {a ..< z + 1}"
    using mem_StoreBlocks_effect [OF assms(1-5)] by auto
  have gt: "gt_inv (ms_gapTracker s')" using s'(2) by (simp add: mem_inv_def)
  have "\<not> mem_HasBlock s' n"
    using s'(3) assms(9,10) unfolding mem_HasBlock_def map_keys_def by blast
  moreover have "z < z + 1"
    using assms(8) succ_wraps_iff [of z] by (simp add: linorder_not_le [symmetric])
  then have "n \<in> available (ms_gapTracker s')" using s'(4) assms(6,7) by auto
  ultimately show ?thesis
    using s'(1) gt.has_iff [OF gt, of n] GetGaps_props(2) [OF gt]
    by (simp add: mem_GetGaps_def)
qed

theorem mem_batch_hides_lost_blocks_witness:
  "\<exists>s'. mem_StoreBlocks NewMemoryStorage (map Some [example_block 5, example_block 7]) = (Ok (), s') \<and>
     \<not> mem_HasBlock s' 6 \<and> HasBlock (ms_gapTracker s') 6 \<and> 6 \<notin> covered (mem_GetGaps s')"
  by (rule mem_batch_hides_lost_blocks [OF mem_inv_New, of _ 5 7])
    (simp_all add: mem_HasBlock_def NewMemoryStorage_def)

text \<open>
  \<open>GetBlocks\<close> returns the stored blocks of \<open>[start, end)\<close> in ascending order, skipping missing
  numbers; an inverted range of ordinary size makes the capacity wrap and panics.
\<close>

lemma mem_GetBlocks_numbers:
  assumes "mem_inv s" and "mem_GetBlocks s a e = Ok bs"
  shows "map block_number bs = map Some (filter (mem_HasBlock s) (u64_loop a e))"
proof -
  have "map block_number (List.map_filter (map_get (ms_blocks s)) ns) =
      map Some (filter (mem_HasBlock s) ns)" for ns
    using assms(1)
    by (induction ns) (auto simp: mem_HasBlock_def mem_inv_def List.map_filter_def)
  with assms(2) show ?thesis by (auto simp: mem_GetBlocks_def split: if_splits)
qed

lemma mem_closed_write_panics:
  "blk_Header b \<noteq> None \<Longrightarrow> fst (mem_StoreBlock (mem_Close s) (Some b)) = Panic NilMapWrite"
  by (auto simp: mem_StoreBlock_def mem_putBlock_def mem_Close_def)

end
