(* ===== verification/Block_Fetcher.thy ===== *)
theory Block_Fetcher
  imports Chain_Types Block_Storage Float64 "HOL-Library.Multiset"
begin

text \<open>
  \<open>pkg/p2p/block_fetcher.go\<close>: fetching blocks from upstream RPC endpoints with round-robin over the
  healthy ones, retries and error counters.

  The RPC client is go-ethereum's \<open>ethclient\<close>, a parameter (\<open>rpc_env\<close>): dialling an endpoint, the
  reply to \<open>eth_getBlockByNumber\<close> and to a request for the latest header, and whether the caller's
  context ends during a wait; the replies depend on a state \<open>'w\<close> of the network that each call
  advances. Mutexes are not modelled: each method is one critical section, except where a call
  never returns (\<open>nextLoop\<close>), which the model shows as the value \<open>None\<close> of a
  \<open>partial_function\<close>.
\<close>

section \<open>Blocks of go-ethereum\<close>

text \<open>What \<open>convertEthBlockToInternal\<close> reads of \<open>types.Block\<close> and \<open>types.Transaction\<close>; \<open>To()\<close> is
  nil for a contract creation.\<close>

record EthTransaction =
  et_Hash :: hash
  et_Nonce :: u64
  et_To :: "address option"
  et_Value :: bigint
  et_Gas :: u64
  et_GasPrice :: bigint
  et_Data :: bytes

record EthBlock =
  eb_Transactions :: "EthTransaction list"
  eb_Header :: Header
  eb_Size :: u64

definition convertTx :: "EthTransaction \<Rightarrow> ('e, Transaction) outcome" where
  "convertTx tx = deref (et_To tx) (\<lambda>to. Ok
     \<lparr>tx_Hash = et_Hash tx, tx_Nonce = et_Nonce tx, tx_From = 0, tx_To = to, tx_Value = et_Value tx,
      tx_Gas = et_Gas tx, tx_GasPrice = et_GasPrice tx, tx_Data = et_Data tx,
      tx_V = None, tx_R = None, tx_S = None\<rparr>)"

fun convertTxs :: "EthTransaction list \<Rightarrow> ('e, Transaction option list) outcome" where
  "convertTxs [] = Ok []"
| "convertTxs (tx # txs) =
     bind_outcome (convertTx tx) (\<lambda>t. bind_outcome (convertTxs txs) (\<lambda>ts. Ok (Some t # ts)))"

definition convertEthBlockToInternal :: "EthBlock \<Rightarrow> ('e, Block) outcome" where
  "convertEthBlockToInternal eb =
     bind_outcome (convertTxs (eb_Transactions eb)) (\<lambda>txs. Ok
       \<lparr>blk_Header = Some (eb_Header eb), blk_Transactions = txs, blk_Size = eb_Size eb\<rparr>)"

section \<open>The fetcher\<close>

record ('w, 'c) rpc_env =
  rpc_Dial :: "string \<Rightarrow> 'c option"
  rpc_BlockByNumber :: "'w \<Rightarrow> 'c \<Rightarrow> int \<Rightarrow> (string, EthBlock) outcome \<times> 'w"
  rpc_LatestNumber :: "'w \<Rightarrow> 'c \<Rightarrow> (string, int) outcome \<times> 'w"
  rpc_WaitCancelled :: "'w \<Rightarrow> int \<Rightarrow> bool \<times> 'w"

record 'c BlockFetcher =
  bf_clients :: "'c list"
  bf_endpoints :: "string list"
  bf_currentIndex :: nat
  bf_timeout :: int
  bf_maxRetries :: int
  bf_healthStatus :: "(string, bool) fmap"
  bf_requestCount :: "(string, u64) fmap"
  bf_errorCount :: "(string, u64) fmap"

datatype fetch_error =
    NoEndpoints
  | NoConnection
  | NoHealthyClients
  | ContextDone
  | BlockFetchFailed u64 int "string option"
  | LatestFetchFailed "string option"
  | InvalidFetchRange u64 u64
  | TooManyErrors nat u64

definition second :: int where "second = 1000000000"

text \<open>The dial loop: clients are appended for the endpoints that answer, \<open>endpoints\<close> keeps all.\<close>

fun dialAll ::
  "('w, 'c) rpc_env \<Rightarrow> string list \<Rightarrow> 'c list \<Rightarrow> (string, bool) fmap \<Rightarrow> 'c list \<times> (string, bool) fmap" where
  "dialAll env [] clients health = (clients, health)"
| "dialAll env (e # es) clients health =
     (case rpc_Dial env e of
        None \<Rightarrow> dialAll env es clients (fmupd e False health)
      | Some c \<Rightarrow> dialAll env es (clients @ [c]) (fmupd e True health))"

definition NewBlockFetcher ::
  "('w, 'c) rpc_env \<Rightarrow> string list \<Rightarrow> int \<Rightarrow> int \<Rightarrow> (fetch_error, 'c BlockFetcher) outcome" where
  "NewBlockFetcher env endpoints timeout maxRetries =
     (if length endpoints = 0 then Err NoEndpoints
      else
        (let timeout = (if timeout = 0 then 30 * second else timeout);
             maxRetries = (if maxRetries = 0 then 3 else maxRetries);
             (clients, health) = dialAll env endpoints [] fmempty in
         if length clients = 0 then Err NoConnection
         else Ok \<lparr>bf_clients = clients, bf_endpoints = endpoints, bf_currentIndex = 0,
                  bf_timeout = timeout, bf_maxRetries = maxRetries, bf_healthStatus = health,
                  bf_requestCount = fmempty, bf_errorCount = fmempty\<rparr>))"

subsection \<open>Choosing a client\<close>

text \<open>Reading a Go map: an absent key gives the zero value.\<close>

definition counter_at :: "(string, u64) fmap \<Rightarrow> string \<Rightarrow> u64" where
  "counter_at m e = (case fmlookup m e of None \<Rightarrow> 0 | Some n \<Rightarrow> n)"

definition healthy_at :: "(string, bool) fmap \<Rightarrow> string \<Rightarrow> bool" where
  "healthy_at m e = (case fmlookup m e of None \<Rightarrow> False | Some b \<Rightarrow> b)"

text \<open>\<open>f.healthStatus[f.endpoints[i]]\<close>; \<open>None\<close> is an index out of range.\<close>

definition endpointHealthy :: "'c BlockFetcher \<Rightarrow> nat \<Rightarrow> bool option" where
  "endpointHealthy f i =
     (if i < length (bf_endpoints f) then Some (healthy_at (bf_healthStatus f) (bf_endpoints f ! i)) else None)"

text \<open>
  The search loop over \<open>currentIndex\<close> (\<open>k\<close> clients): the result is the index of the client, nil
  when the index is back at \<open>startIndex\<close>, and the new \<open>currentIndex\<close>.
\<close>

partial_function (option) nextLoop ::
  "(nat \<Rightarrow> bool option) \<Rightarrow> nat \<Rightarrow> nat \<Rightarrow> nat \<Rightarrow> ((fetch_error, nat option) outcome \<times> nat) option" where
  "nextLoop healthy k startIndex currentIndex =
     (let i = (if currentIndex \<ge> k then 0 else currentIndex) in
      case healthy i of
        None \<Rightarrow> Some (Panic IndexOutOfRange, i)
      | Some up \<Rightarrow>
          if up then Some (Ok (Some i), i + 1)
          else if i + 1 = startIndex then Some (Ok None, i + 1)
          else nextLoop healthy k startIndex (i + 1))"

definition getNextHealthyClient ::
  "'c BlockFetcher \<Rightarrow> ((fetch_error, 'c option) outcome \<times> 'c BlockFetcher) option" where
  "getNextHealthyClient f =
     (if length (bf_clients f) = 0 then Some (Ok None, f)
      else
        (case nextLoop (endpointHealthy f) (length (bf_clients f)) (bf_currentIndex f) (bf_currentIndex f) of
           None \<Rightarrow> None
         | Some (r, i) \<Rightarrow>
             Some (bind_outcome r (\<lambda>c. Ok (map_option (\<lambda>j. bf_clients f ! j) c)), f\<lparr>bf_currentIndex := i\<rparr>)))"

definition getCurrentEndpoint :: "'c BlockFetcher \<Rightarrow> (fetch_error, string) outcome" where
  "getCurrentEndpoint f =
     (let index = int (bf_currentIndex f) - 1;
          index = (if index < 0 then 0 else index);
          n = int (length (bf_endpoints f));
          index = (if index \<ge> n then n - 1 else index) in
      if 0 \<le> index \<and> index < n then Ok (bf_endpoints f ! nat index) else Panic IndexOutOfRange)"

subsection \<open>Counters\<close>

definition incrementRequestCount :: "'c BlockFetcher \<Rightarrow> string \<Rightarrow> 'c BlockFetcher" where
  "incrementRequestCount f e =
     f\<lparr>bf_requestCount := fmupd e (counter_at (bf_requestCount f) e + 1) (bf_requestCount f)\<rparr>"

definition incrementErrorCount :: "'c BlockFetcher \<Rightarrow> string \<Rightarrow> 'c BlockFetcher" where
  "incrementErrorCount f e =
     f\<lparr>bf_errorCount := fmupd e (counter_at (bf_errorCount f) e + 1) (bf_errorCount f)\<rparr>"

definition getErrorRate :: "'c BlockFetcher \<Rightarrow> string \<Rightarrow> float64" where
  "getErrorRate f e =
     (let requests = counter_at (bf_requestCount f) e; errors = counter_at (bf_errorCount f) e in
      if requests = 0 then 0 else f64_div (f64_of_u64 errors) (f64_of_u64 requests))"

definition markUnhealthy :: "'c BlockFetcher \<Rightarrow> string \<Rightarrow> 'c BlockFetcher" where
  "markUnhealthy f e = f\<lparr>bf_healthStatus := fmupd e False (bf_healthStatus f)\<rparr>"

definition Close_fetcher :: "'c BlockFetcher \<Rightarrow> 'c BlockFetcher" where
  "Close_fetcher f = f\<lparr>bf_clients := []\<rparr>"

text \<open>\<open>stats\<close>: the two totals and one entry per endpoint of the health map.\<close>

definition GetStats ::
  "'c BlockFetcher \<Rightarrow> nat \<times> nat \<times> (string \<rightharpoonup> bool \<times> u64 \<times> u64)" where
  "GetStats f =
     (length (bf_endpoints f),
      fcard (ffilter (healthy_at (bf_healthStatus f)) (fmdom (bf_healthStatus f))),
      \<lambda>e. map_option (\<lambda>h. (h, counter_at (bf_requestCount f) e, counter_at (bf_errorCount f) e))
            (fmlookup (bf_healthStatus f) e))"

subsection \<open>Fetching\<close>

text \<open>The error path of one attempt of \<open>FetchBlock\<close>: count it and judge the endpoint.\<close>

definition recordFailure :: "'c BlockFetcher \<Rightarrow> (fetch_error, 'c BlockFetcher) outcome" where
  "recordFailure f =
     bind_outcome (getCurrentEndpoint f) (\<lambda>e.
       let f = incrementErrorCount f e in
       Ok (if getErrorRate f e > 1 / 2 then markUnhealthy f e else f))"

text \<open>
  The retry loop, \<open>retry\<close> being the loop variable and \<open>left\<close> the iterations that remain. The
  back-off is \<open>1 << retry\<close> seconds (in 64 bits) and is skipped after the last attempt.
\<close>

definition backoff :: "nat \<Rightarrow> int" where
  "backoff retry = to_int64 (to_int64 (2 ^ retry) * second)"

fun fetchLoop ::
  "('w, 'c) rpc_env \<Rightarrow> u64 \<Rightarrow> nat \<Rightarrow> nat \<Rightarrow> string option \<Rightarrow> 'c BlockFetcher \<Rightarrow> 'w \<Rightarrow>
   ((fetch_error, Block) outcome \<times> 'c BlockFetcher \<times> 'w) option" where
  "fetchLoop env blockNum retry 0 lastErr f w =
     Some (Err (BlockFetchFailed blockNum (bf_maxRetries f) lastErr), f, w)"
| "fetchLoop env blockNum retry (Suc left) lastErr f w =
     (case getNextHealthyClient f of
        None \<Rightarrow> None
      | Some (Panic p, f) \<Rightarrow> Some (Panic p, f, w)
      | Some (Err e, f) \<Rightarrow> Some (Err e, f, w)
      | Some (Ok None, f) \<Rightarrow> Some (Err NoHealthyClients, f, w)
      | Some (Ok (Some client), f) \<Rightarrow>
          (case rpc_BlockByNumber env w client (to_int64 (uint blockNum)) of
             (Ok eb, w) \<Rightarrow>
               (case bind_outcome (convertEthBlockToInternal eb) (\<lambda>b.
                       bind_outcome (getCurrentEndpoint f) (\<lambda>e. Ok (b, e))) of
                  Ok (b, e) \<Rightarrow> Some (Ok b, incrementRequestCount f e, w)
                | Err e \<Rightarrow> Some (Err e, f, w)
                | Panic p \<Rightarrow> Some (Panic p, f, w))
           | (Panic p, w) \<Rightarrow> Some (Panic p, f, w)
           | (Err err, w) \<Rightarrow>
               (case recordFailure f of
                  Err e \<Rightarrow> Some (Err e, f, w)
                | Panic p \<Rightarrow> Some (Panic p, f, w)
                | Ok f \<Rightarrow>
                    if left = 0 then fetchLoop env blockNum (retry + 1) left (Some err) f w
                    else
                      (case rpc_WaitCancelled env w (backoff retry) of
                         (True, w) \<Rightarrow> Some (Err ContextDone, f, w)
                       | (False, w) \<Rightarrow> fetchLoop env blockNum (retry + 1) left (Some err) f w))))"

definition FetchBlock ::
  "('w, 'c) rpc_env \<Rightarrow> 'c BlockFetcher \<Rightarrow> 'w \<Rightarrow> u64 \<Rightarrow>
   ((fetch_error, Block) outcome \<times> 'c BlockFetcher \<times> 'w) option" where
  "FetchBlock env f w blockNum = fetchLoop env blockNum 0 (nat (bf_maxRetries f)) None f w"

text \<open>\<open>header.Number.Uint64()\<close> keeps the low 64 bits.\<close>

fun latestLoop ::
  "('w, 'c) rpc_env \<Rightarrow> nat \<Rightarrow> nat \<Rightarrow> string option \<Rightarrow> 'c BlockFetcher \<Rightarrow> 'w \<Rightarrow>
   ((fetch_error, u64) outcome \<times> 'c BlockFetcher \<times> 'w) option" where
  "latestLoop env retry 0 lastErr f w = Some (Err (LatestFetchFailed lastErr), f, w)"
| "latestLoop env retry (Suc left) lastErr f w =
     (case getNextHealthyClient f of
        None \<Rightarrow> None
      | Some (Panic p, f) \<Rightarrow> Some (Panic p, f, w)
      | Some (Err e, f) \<Rightarrow> Some (Err e, f, w)
      | Some (Ok None, f) \<Rightarrow> Some (Err NoHealthyClients, f, w)
      | Some (Ok (Some client), f) \<Rightarrow>
          (case rpc_LatestNumber env w client of
             (Ok n, w) \<Rightarrow>
               (case getCurrentEndpoint f of
                  Ok e \<Rightarrow> Some (Ok (word_of_int n), incrementRequestCount f e, w)
                | Err e \<Rightarrow> Some (Err e, f, w)
                | Panic p \<Rightarrow> Some (Panic p, f, w))
           | (Panic p, w) \<Rightarrow> Some (Panic p, f, w)
           | (Err err, w) \<Rightarrow>
               (case getCurrentEndpoint f of
                  Err e \<Rightarrow> Some (Err e, f, w)
                | Panic p \<Rightarrow> Some (Panic p, f, w)
                | Ok e \<Rightarrow>
                    (let f = incrementErrorCount f e;
                         w = (if left = 0 then w else snd (rpc_WaitCancelled env w (backoff retry))) in
                     latestLoop env (retry + 1) left (Some err) f w))))"

definition FetchLatestBlockNumber ::
  "('w, 'c) rpc_env \<Rightarrow> 'c BlockFetcher \<Rightarrow> 'w \<Rightarrow>
   ((fetch_error, u64) outcome \<times> 'c BlockFetcher \<times> 'w) option" where
  "FetchLatestBlockNumber env f w = latestLoop env 0 (nat (bf_maxRetries f)) None f w"

subsection \<open>Batches\<close>

text \<open>
  \<open>FetchBlocks\<close> runs one \<open>FetchBlock\<close> per number concurrently and collects what arrives:
  \<open>arrivals\<close> is the list of finished calls in the order the collecting loop receives them, and
  \<open>cancelled\<close> tells that the loop saw \<open>ctx.Done()\<close>. A panic in one of the goroutines ends the
  process.
\<close>

type_synonym arrivals = "(u64 \<times> (fetch_error, Block) outcome) list"

fun collect :: "arrivals \<Rightarrow> (fetch_error, Block list \<times> nat) outcome" where
  "collect [] = Ok ([], 0)"
| "collect ((n, r) # rs) =
     (case r of
        Panic p \<Rightarrow> Panic p
      | Ok b \<Rightarrow> bind_outcome (collect rs) (\<lambda>(bs, errs). Ok (b # bs, errs))
      | Err e \<Rightarrow> bind_outcome (collect rs) (\<lambda>(bs, errs). Ok (bs, errs + 1)))"

definition FetchBlocks :: "bool \<Rightarrow> arrivals \<Rightarrow> u64 \<Rightarrow> u64 \<Rightarrow> (fetch_error, Block list) outcome" where
  "FetchBlocks cancelled arrivals start end =
     (if start \<ge> end then Err (InvalidFetchRange start end)
      else
        (let count = end - start in
         if unat count > max_slice_cap then Panic MakesliceCap
         else
           bind_outcome (collect arrivals) (\<lambda>(blocks, errors).
           if cancelled then Err ContextDone
           else if errors > 0 \<and> int errors > to_int64 (uint count) div 2 then Err (TooManyErrors errors count)
           else Ok blocks)))"

text \<open>The arrivals of a call: every number of the range once, in any order.\<close>

definition arrivals_of :: "u64 \<Rightarrow> u64 \<Rightarrow> arrivals \<Rightarrow> bool" where
  "arrivals_of start end rs \<longleftrightarrow> mset (map fst rs) = mset (u64_loop start end)"


section \<open>Round robin\<close>

text \<open>
  The order in which the clients are tried, from the current index around to the one before it, and
  the state of the fetcher in which the search is well defined: every client has an endpoint and
  the index is at most the number of clients.
\<close>

definition try_order :: "nat \<Rightarrow> nat \<Rightarrow> nat list" where
  "try_order k i = (if i < k then [i ..< k] @ [0 ..< i] else [0 ..< k])"

lemma nextLoop_step:
  assumes "i < k" and "healthy i = Some up"
  shows "nextLoop healthy k s i =
    (if up then Some (Ok (Some i), i + 1) else if i + 1 = s then Some (Ok None, i + 1)
     else nextLoop healthy k s (i + 1))"
  using assms by (subst nextLoop.simps) simp

lemma nextLoop_wrap: "0 < k \<Longrightarrow> nextLoop healthy k s k = nextLoop healthy k s 0"
  by (simp add: nextLoop.simps [of healthy k s k] nextLoop.simps [of healthy k s 0])

text \<open>Scanning from \<open>i\<close> up to \<open>m\<close>: the first healthy index, or on to \<open>m\<close>.\<close>

lemma nextLoop_scan:
  assumes "i \<le> m" and "m \<le> k" and "\<And>j. j < k \<Longrightarrow> healthy j = Some (up j)" and "\<not> (i < s \<and> s \<le> m)"
  shows "nextLoop healthy k s i =
    (case find up [i ..< m] of Some j \<Rightarrow> Some (Ok (Some j), j + 1) | None \<Rightarrow> nextLoop healthy k s m)"
  using assms(1,4)
proof (induction "m - i" arbitrary: i)
  case (Suc d)
  then have i: "i < m" by simp
  then have "[i ..< m] = i # [Suc i ..< m]" by (simp add: upt_conv_Cons)
  moreover have "nextLoop healthy k s (i + 1) =
      (case find up [Suc i ..< m] of Some j \<Rightarrow> Some (Ok (Some j), j + 1) | None \<Rightarrow> nextLoop healthy k s m)"
    if "i + 1 \<noteq> s" using Suc that i by (simp add: Suc_leI)
  moreover have "i + 1 \<noteq> s" using Suc(4) i by auto
  ultimately show ?case
    using nextLoop_step [of i k healthy "up i" s] assms(2,3) i by simp
qed simp

lemma nextLoop_scan_end:
  assumes "i < s" and "s \<le> k" and "\<And>j. j < k \<Longrightarrow> healthy j = Some (up j)"
  shows "nextLoop healthy k s i =
    (case find up [i ..< s] of Some j \<Rightarrow> Some (Ok (Some j), j + 1) | None \<Rightarrow> Some (Ok None, s))"
proof -
  have s: "s - 1 < k" "i \<le> s - 1" "s - 1 + 1 = s" "[i ..< s] = [i ..< s - 1] @ [s - 1]"
    using assms(1,2) upt_Suc_append [of i "s - 1"] by auto
  have "nextLoop healthy k s i =
      (case find up [i ..< s - 1] of Some j \<Rightarrow> Some (Ok (Some j), j + 1) | None \<Rightarrow> nextLoop healthy k s (s - 1))"
    using s assms by (intro nextLoop_scan) auto
  then show ?thesis
    using nextLoop_step [of "s - 1" k healthy "up (s - 1)" s] s assms(3) by (simp add: find_append split: option.split)
qed

text \<open>With no healthy client and the search started at index 0 the loop never comes back to its start.\<close>

lemma nextLoop_diverges:
  assumes "0 < k" and "\<And>j. j < k \<Longrightarrow> healthy j = Some False"
  shows "nextLoop healthy k 0 i = None"
proof (rule ccontr)
  assume "nextLoop healthy k 0 i \<noteq> None"
  then obtain r where ret: "nextLoop healthy k 0 i = Some r" by auto
  let ?P = "\<lambda>(h :: nat \<Rightarrow> bool option) k' (s :: nat) (i :: nat) (r :: (fetch_error, nat option) outcome \<times> nat).
              h = healthy \<and> k' = k \<and> s = 0 \<longrightarrow> False"
  have "?P healthy k 0 i r"
  proof (rule nextLoop.raw_induct [where P = ?P, OF _ ret])
    fix loop h k' s i r
    assume IH: "\<And>h k' s i r. loop h k' s i = Some r \<Longrightarrow> ?P h k' s i r"
      and body: "(let i = if k' \<le> i then 0 else i in
         case h i of None \<Rightarrow> Some (Panic IndexOutOfRange, i)
         | Some up \<Rightarrow> if up then Some (Ok (Some i), i + 1)
             else if i + 1 = s then Some (Ok None, i + 1) else loop h k' s (i + 1)) = Some r"
    show "?P h k' s i r"
    proof (intro impI, elim conjE)
      assume eqs: "h = healthy" "k' = k" "s = 0"
      then have "healthy (if k \<le> i then 0 else i) = Some False" using assms by simp
      with body eqs have "loop healthy k 0 ((if k \<le> i then 0 else i) + 1) = Some r" by (simp add: Let_def)
      from IH [OF this] show False by simp
    qed
  qed
  then show False by simp
qed

lemma nextLoop_spec:
  assumes "0 < k" and "s \<le> k" and H: "\<And>j. j < k \<Longrightarrow> healthy j = Some (up j)"
  shows "nextLoop healthy k s s =
    (case find up (try_order k s) of
       Some j \<Rightarrow> Some (Ok (Some j), j + 1)
     | None \<Rightarrow> if s = 0 then None else Some (Ok None, s))"
proof -
  have from0: "nextLoop healthy k s 0 =
      (case find up [0 ..< s] of Some j \<Rightarrow> Some (Ok (Some j), j + 1) | None \<Rightarrow> Some (Ok None, s))" if "0 < s"
    using that assms(2) H by (intro nextLoop_scan_end) auto
  show ?thesis
  proof (cases "s < k")
    case True
    have up_to_k: "nextLoop healthy k s s =
        (case find up [s ..< k] of Some j \<Rightarrow> Some (Ok (Some j), j + 1) | None \<Rightarrow> nextLoop healthy k s 0)"
      using nextLoop_scan [of s k k healthy up s] True H nextLoop_wrap [OF assms(1), of healthy s]
      by (simp split: option.split)
    show ?thesis
    proof (cases "s = 0")
      case True
      have "nextLoop healthy k 0 0 = None" if "find up [0 ..< k] = None"
        using that H assms(1) by (intro nextLoop_diverges) (auto simp: find_None_iff)
      moreover have "nextLoop healthy k 0 0 = Some (Ok (Some j), j + 1)" if "find up [0 ..< k] = Some j" for j
        using up_to_k by (simp add: True that)
      ultimately show ?thesis
        using assms(1) True by (cases "find up [0 ..< k]") (simp_all add: try_order_def)
    next
      case False
      with up_to_k from0 True show ?thesis by (simp add: try_order_def find_append split: option.split)
    qed
  next
    case False
    with assms(2) have "s = k" by simp
    with from0 assms(1) show ?thesis by (simp add: try_order_def nextLoop_wrap)
  qed
qed


text \<open>Every client has an endpoint (though not always its own) and the index is in reach.\<close>

definition fetcher_ok :: "'c BlockFetcher \<Rightarrow> bool" where
  "fetcher_ok f \<longleftrightarrow>
     length (bf_clients f) \<le> length (bf_endpoints f) \<and> bf_currentIndex f \<le> length (bf_clients f)"

definition up_at :: "'c BlockFetcher \<Rightarrow> nat \<Rightarrow> bool" where
  "up_at f i = healthy_at (bf_healthStatus f) (bf_endpoints f ! i)"

lemma getNextHealthyClient_spec:
  assumes "fetcher_ok f" and "bf_clients f \<noteq> []"
  shows "getNextHealthyClient f =
    (case find (up_at f) (try_order (length (bf_clients f)) (bf_currentIndex f)) of
       Some j \<Rightarrow> Some (Ok (Some (bf_clients f ! j)), f\<lparr>bf_currentIndex := j + 1\<rparr>)
     | None \<Rightarrow> if bf_currentIndex f = 0 then None else Some (Ok None, f))"
proof -
  have "endpointHealthy f j = Some (up_at f j)" if "j < length (bf_clients f)" for j
    using that assms(1) by (simp add: endpointHealthy_def up_at_def fetcher_ok_def)
  then have "nextLoop (endpointHealthy f) (length (bf_clients f)) (bf_currentIndex f) (bf_currentIndex f) =
    (case find (up_at f) (try_order (length (bf_clients f)) (bf_currentIndex f)) of
       Some j \<Rightarrow> Some (Ok (Some j), j + 1)
     | None \<Rightarrow> if bf_currentIndex f = 0 then None else Some (Ok None, bf_currentIndex f))"
    using assms by (intro nextLoop_spec) (simp_all add: fetcher_ok_def)
  then show ?thesis
    using assms(2) by (simp add: getNextHealthyClient_def split: option.split)
qed

lemma set_try_order: "i \<le> k \<Longrightarrow> set (try_order k i) = {0 ..< k}"
  by (auto simp: try_order_def)

text \<open>
  A fetcher that can always answer: it is not at its start index, or one of the endpoints it looks
  at is up. Every operation keeps this, so the search for a client always ends.
\<close>

definition fetcher_live :: "'c BlockFetcher \<Rightarrow> bool" where
  "fetcher_live f \<longleftrightarrow> fetcher_ok f \<and>
     (bf_clients f = [] \<or> 0 < bf_currentIndex f \<or> (\<exists>j < length (bf_clients f). up_at f j))"

lemma find_try_order:
  assumes "fetcher_ok f"
  shows "find (up_at f) (try_order (length (bf_clients f)) (bf_currentIndex f)) = None \<longleftrightarrow>
      (\<forall>j < length (bf_clients f). \<not> up_at f j)"
    and "find (up_at f) (try_order (length (bf_clients f)) (bf_currentIndex f)) = Some j \<Longrightarrow>
      j < length (bf_clients f) \<and> up_at f j"
  using assms set_try_order [of "bf_currentIndex f" "length (bf_clients f)"]
  by (auto simp: find_None_iff find_Some_iff fetcher_ok_def)

lemma getNextHealthyClient_live:
  assumes "fetcher_live f"
  obtains (client) j where "getNextHealthyClient f = Some (Ok (Some (bf_clients f ! j)), f\<lparr>bf_currentIndex := j + 1\<rparr>)"
      and "j < length (bf_clients f)" and "up_at f j"
    | (none) "getNextHealthyClient f = Some (Ok None, f)"
proof (cases "bf_clients f = []")
  case True
  then show thesis using none by (simp add: getNextHealthyClient_def)
next
  case False
  have ok: "fetcher_ok f" using assms by (simp add: fetcher_live_def)
  show thesis
  proof (cases "find (up_at f) (try_order (length (bf_clients f)) (bf_currentIndex f))")
    case None
    with find_try_order(1) [OF ok] have "\<forall>j < length (bf_clients f). \<not> up_at f j" by simp
    with assms False have "bf_currentIndex f \<noteq> 0" by (auto simp: fetcher_live_def)
    with getNextHealthyClient_spec [OF ok False] None none show thesis by simp
  next
    case (Some j)
    with getNextHealthyClient_spec [OF ok False] find_try_order(2) [OF ok Some] client show thesis by simp
  qed
qed


section \<open>Fetching a block\<close>

text \<open>A client was used: the index is past its start, so the fetcher stays live whatever the counters say.\<close>

definition in_use :: "'c BlockFetcher \<Rightarrow> 'c BlockFetcher \<Rightarrow> bool" where
  "in_use f0 f \<longleftrightarrow> fetcher_ok f \<and> 0 < bf_currentIndex f \<and> bf_clients f = bf_clients f0 \<and>
     bf_endpoints f = bf_endpoints f0 \<and> bf_maxRetries f = bf_maxRetries f0"

lemma in_use_live: "in_use f0 f \<Longrightarrow> fetcher_live f"
  by (simp add: in_use_def fetcher_live_def)

lemma in_use_trans: "in_use f0 f1 \<Longrightarrow> in_use f1 f2 \<Longrightarrow> in_use f0 f2"
  by (simp add: in_use_def)

lemma in_use_simps [simp]:
  "in_use f0 (incrementRequestCount f e) = in_use f0 f"
  "in_use f0 (incrementErrorCount f e) = in_use f0 f"
  "in_use f0 (markUnhealthy f e) = in_use f0 f"
  by (simp_all add: in_use_def fetcher_ok_def incrementRequestCount_def incrementErrorCount_def markUnhealthy_def)

lemma in_use_next:
  assumes "fetcher_ok f" and "j < length (bf_clients f)"
  shows "in_use f (f\<lparr>bf_currentIndex := j + 1\<rparr>)"
  using assms by (simp add: in_use_def fetcher_ok_def)

lemma getCurrentEndpoint_in_use:
  assumes "in_use f0 f" and "bf_clients f \<noteq> []"
  shows "getCurrentEndpoint f = Ok (bf_endpoints f ! (bf_currentIndex f - 1))"
proof -
  have "bf_currentIndex f \<le> length (bf_endpoints f)" "0 < bf_currentIndex f"
    using assms by (auto simp: in_use_def fetcher_ok_def)
  then show ?thesis by (auto simp: getCurrentEndpoint_def nat_diff_distrib)
qed

lemma recordFailure_in_use:
  assumes "in_use f0 f" and "bf_clients f \<noteq> []"
  obtains f' where "recordFailure f = Ok f'" and "in_use f0 f'" and "bf_clients f' = bf_clients f"
proof
  let ?e = "bf_endpoints f ! (bf_currentIndex f - 1)"
  let ?f' = "if getErrorRate (incrementErrorCount f ?e) ?e > 1 / 2
             then markUnhealthy (incrementErrorCount f ?e) ?e else incrementErrorCount f ?e"
  show "recordFailure f = Ok ?f'" by (simp add: recordFailure_def getCurrentEndpoint_in_use [OF assms] Let_def)
  show "in_use f0 ?f'" using assms(1) by simp
  then show "bf_clients ?f' = bf_clients f" using assms(1) by (simp add: in_use_def)
qed

text \<open>The reply of one of the clients from which a fetched block comes.\<close>

definition served :: "('w, 'c) rpc_env \<Rightarrow> 'c BlockFetcher \<Rightarrow> u64 \<Rightarrow> Block \<Rightarrow> bool" where
  "served env f n b \<longleftrightarrow> (\<exists>c w w' eb. c \<in> set (bf_clients f) \<and>
     rpc_BlockByNumber env w c (to_int64 (uint n)) = (Ok eb, w') \<and>
     convertEthBlockToInternal eb = (Ok b :: (fetch_error, Block) outcome))"

lemma fetchLoop_returns:
  assumes "fetcher_live f"
  obtains r f' w' where "fetchLoop env n retry left lastErr f w = Some (r, f', w')"
    and "fetcher_live f'" and "bf_clients f' = bf_clients f" and "\<And>b. r = Ok b \<Longrightarrow> served env f n b"
  using assms
proof (induction left arbitrary: retry lastErr f w thesis)
  case 0
  then show ?case by simp
next
  case (Suc left)
  note IH = Suc.IH and goal = Suc.prems(1) and live = Suc.prems(2)
  from live show ?case
  proof (cases rule: getNextHealthyClient_live)
    case none
    with live goal show ?thesis by simp
  next
    case (client j)
    define c f1 where "c = bf_clients f ! j" and "f1 = f\<lparr>bf_currentIndex := j + 1\<rparr>"
    have use1: "in_use f f1" and ne: "bf_clients f1 \<noteq> []" and cs: "bf_clients f1 = bf_clients f"
      using client live in_use_next [of f j] by (auto simp: f1_def fetcher_live_def)
    have nx: "getNextHealthyClient f = Some (Ok (Some c), f1)" using client by (simp add: c_def f1_def)
    obtain reply w1 where rpc: "rpc_BlockByNumber env w c (to_int64 (uint n)) = (reply, w1)" by fastforce
    note eqs = nx rpc getCurrentEndpoint_in_use [OF use1 ne]
    show ?thesis
    proof (cases reply)
      case (Ok eb)
      show ?thesis
      proof (cases "convertEthBlockToInternal eb :: (fetch_error, Block) outcome")
        case conv: (Ok b)
        have "c \<in> set (bf_clients f)" using client by (simp add: c_def)
        with rpc Ok conv have "served env f n b" by (auto simp: served_def)
        moreover define f2 where "f2 = incrementRequestCount f1 (bf_endpoints f1 ! (bf_currentIndex f1 - 1))"
        moreover have "in_use f f2" using use1 by (simp add: f2_def)
        ultimately show ?thesis
          using eqs Ok conv cs in_use_live [of f f2] goal [of "Ok b" f2 w1] by (simp add: in_use_def)
      qed (use eqs Ok cs in_use_live [OF use1] goal in simp_all)
    next
      case (Err err)
      obtain f2 where f2: "recordFailure f1 = Ok f2" "in_use f f2" "bf_clients f2 = bf_clients f1"
        by (rule recordFailure_in_use [OF use1 ne])
      have served_eq: "served env f2 n b = served env f n b" for b using f2 cs by (simp add: served_def)
      have again: ?thesis
        if "fetchLoop env n retry (Suc left) lastErr f w = fetchLoop env n (retry + 1) left (Some err) f2 w2" for w2
        by (rule IH [where retry = "retry + 1" and lastErr = "Some err" and w = w2, OF _ in_use_live [OF f2(2)]])
          (use goal that f2 cs served_eq in auto)
      show ?thesis
      proof (cases "left = 0")
        case True
        show ?thesis by (rule again [of w1]) (simp add: eqs Err f2 True)
      next
        case False
        obtain cut w2 where wait: "rpc_WaitCancelled env w1 (backoff retry) = (cut, w2)" by fastforce
        show ?thesis
        proof (cases cut)
          case True
          with False eqs Err f2 wait cs in_use_live [OF f2(2)] goal show ?thesis by simp
        next
          case again': False
          show ?thesis by (rule again [of w2]) (simp add: eqs Err f2 False wait again')
        qed
      qed
    qed (use eqs cs in_use_live [OF use1] goal in simp)
  qed
qed


section \<open>Converting blocks\<close>

lemma convertTxs_Ok:
  "convertTxs txs = Ok ts \<Longrightarrow> length ts = length txs \<and> (\<forall>tx \<in> set txs. et_To tx \<noteq> None)"
  by (induction txs arbitrary: ts) (auto simp: convertTx_def)

lemma convertTxs_Panic_iff:
  "convertTxs txs = Panic p \<longleftrightarrow> p = NilDereference \<and> (\<exists>tx \<in> set txs. et_To tx = None)"
  by (induction txs) (auto simp: convertTx_def outcome_eq_Panic)

lemma convertTxs_no_Err: "convertTxs txs \<noteq> Err e"
  by (induction txs) (auto simp: convertTx_def outcome_eq_Err)

text \<open>A block converts exactly when none of its transactions creates a contract; otherwise the process dies.\<close>

lemma convert_block_cases:
  fixes eb :: EthBlock
  defines "r \<equiv> convertEthBlockToInternal eb :: (fetch_error, Block) outcome"
  shows "r = Panic NilDereference \<and> (\<exists>tx \<in> set (eb_Transactions eb). et_To tx = None) \<or>
   (\<exists>b. r = Ok b \<and> blk_Header b = Some (eb_Header eb) \<and>
        length (blk_Transactions b) = length (eb_Transactions eb) \<and>
        (\<forall>tx \<in> set (eb_Transactions eb). et_To tx \<noteq> None))"
proof (cases "convertTxs (eb_Transactions eb) :: (fetch_error, Transaction option list) outcome")
  case (Ok ts)
  with convertTxs_Ok [OF Ok] show ?thesis by (simp add: r_def convertEthBlockToInternal_def)
next
  case (Panic p)
  moreover from this have "p = NilDereference \<and> (\<exists>tx \<in> set (eb_Transactions eb). et_To tx = None)"
    by (simp add: convertTxs_Panic_iff)
  ultimately show ?thesis by (simp add: r_def convertEthBlockToInternal_def)
qed (simp add: convertTxs_no_Err)

section \<open>Batches\<close>

definition failures :: "arrivals \<Rightarrow> nat" where
  "failures rs = length (filter (\<lambda>(n, r). \<not> is_ok r) rs)"

fun ok_value :: "('e, 'a) outcome \<Rightarrow> 'a option" where
  "ok_value (Ok a) = Some a"
| "ok_value _ = None"

definition delivered :: "arrivals \<Rightarrow> Block list" where
  "delivered rs = List.map_filter (\<lambda>(n, r). ok_value r) rs"

lemma collect_eq:
  "(\<And>n p. (n, Panic p) \<notin> set rs) \<Longrightarrow> collect rs = Ok (delivered rs, failures rs)"
proof (induction rs)
  case (Cons x rs)
  obtain n r where x: "x = (n, r)" by fastforce
  have tl: "collect rs = Ok (delivered rs, failures rs)" using Cons by (meson list.set_intros(2))
  show ?case
  proof (cases r)
    case (Panic p)
    with Cons(2) [of n p] x show ?thesis by simp
  qed (use tl x in \<open>simp_all add: delivered_def failures_def map_filter_simps\<close>)
qed (simp add: delivered_def failures_def map_filter_simps)

lemma length_delivered: "length (delivered rs) + failures rs = length rs"
proof (induction rs)
  case (Cons x rs)
  obtain n r where "x = (n, r)" by fastforce
  with Cons show ?case by (cases r) (auto simp: delivered_def failures_def map_filter_simps)
qed (simp add: delivered_def failures_def map_filter_simps)

lemma FetchBlocks_invalid: "end \<le> start \<Longrightarrow> FetchBlocks cancelled rs start end = Err (InvalidFetchRange start end)"
  by (simp add: FetchBlocks_def)

lemma length_arrivals: "arrivals_of start end rs \<Longrightarrow> length rs = unat end - unat start"
  unfolding arrivals_of_def by (metis length_map length_u64_loop size_mset)


section \<open>Life of a fetcher\<close>

lemma latestLoop_returns:
  assumes "fetcher_live f"
  obtains r f' w' where "latestLoop env retry left lastErr f w = Some (r, f', w')"
    and "fetcher_live f'" and "bf_clients f' = bf_clients f"
  using assms
proof (induction left arbitrary: retry lastErr f w thesis)
  case 0
  then show ?case by simp
next
  case (Suc left)
  note IH = Suc.IH and goal = Suc.prems(1) and live = Suc.prems(2)
  from live show ?case
  proof (cases rule: getNextHealthyClient_live)
    case none
    with live goal show ?thesis by simp
  next
    case (client j)
    define c f1 where "c = bf_clients f ! j" and "f1 = f\<lparr>bf_currentIndex := j + 1\<rparr>"
    have use1: "in_use f f1" and ne: "bf_clients f1 \<noteq> []" and cs: "bf_clients f1 = bf_clients f"
      using client live in_use_next [of f j] by (auto simp: f1_def fetcher_live_def)
    define e where "e = bf_endpoints f1 ! (bf_currentIndex f1 - 1)"
    have use2: "in_use f (incrementErrorCount f1 e)" "in_use f (incrementRequestCount f1 e)" using use1 by simp_all
    obtain reply w1 where rpc: "rpc_LatestNumber env w c = (reply, w1)" by fastforce
    have nx: "getNextHealthyClient f = Some (Ok (Some c), f1)" using client by (simp add: c_def f1_def)
    note eqs = nx rpc getCurrentEndpoint_in_use [OF use1 ne, folded e_def]
    show ?thesis
    proof (cases reply)
      case (Ok m)
      with eqs use2(2) in_use_live [OF use2(2)] goal show ?thesis by (simp add: in_use_def)
    next
      case (Err err)
      define w2 where "w2 = (if left = 0 then w1 else snd (rpc_WaitCancelled env w1 (backoff retry)))"
      have step: "latestLoop env retry (Suc left) lastErr f w =
          latestLoop env (retry + 1) left (Some err) (incrementErrorCount f1 e) w2"
        by (simp add: eqs Err Let_def w2_def)
      show ?thesis
        by (rule IH [where retry = "retry + 1" and lastErr = "Some err" and w = w2, OF _ in_use_live [OF use2(1)]])
          (use goal step use2(1) in \<open>auto simp: in_use_def\<close>)
    qed (use eqs cs in_use_live [OF use1] goal in simp)
  qed
qed

lemma healthy_at_fmupd [simp]: "healthy_at (fmupd e b h) e' = (if e' = e then b else healthy_at h e')"
  by (simp add: healthy_at_def)

lemma dialAll_clients:
  "dialAll env es cs h = (cs', h') \<Longrightarrow>
   length cs' = length cs + length (filter (\<lambda>e. rpc_Dial env e \<noteq> None) es)"
  by (induction es arbitrary: cs h) (auto split: option.splits)

lemma dialAll_health:
  "dialAll env es cs h = (cs', h') \<Longrightarrow>
   healthy_at h' e = (if e \<in> set es then rpc_Dial env e \<noteq> None else healthy_at h e)"
proof (induction es arbitrary: cs h)
  case (Cons a es)
  show ?case
  proof (cases "rpc_Dial env a")
    case None
    with Cons.IH [of cs "fmupd a False h"] Cons.prems show ?thesis by (cases "e = a") simp_all
  next
    case (Some c)
    with Cons.IH [of "cs @ [c]" "fmupd a True h"] Cons.prems show ?thesis by (cases "e = a") simp_all
  qed
qed simp

lemma NewBlockFetcher_spec:
  assumes "NewBlockFetcher env es t m = Ok f"
  shows "bf_endpoints f = es" and "bf_currentIndex f = 0" and "bf_clients f \<noteq> []"
    and "length (bf_clients f) = length (filter (\<lambda>e. rpc_Dial env e \<noteq> None) es)"
    and "e \<in> set es \<Longrightarrow> healthy_at (bf_healthStatus f) e \<longleftrightarrow> rpc_Dial env e \<noteq> None"
    and "bf_maxRetries f = (if m = 0 then 3 else m)"
  using assms dialAll_clients [of env es "[]" fmempty] dialAll_health [of env es "[]" fmempty]
  by (auto simp: NewBlockFetcher_def Let_def split: prod.splits if_splits)

lemma NewBlockFetcher_ok: "NewBlockFetcher env es t m = Ok f \<Longrightarrow> fetcher_ok f"
  using NewBlockFetcher_spec [of env es t m f] length_filter_le [of "\<lambda>e. rpc_Dial env e \<noteq> None" es]
  by (simp add: fetcher_ok_def)

lemma NewBlockFetcher_live:
  assumes "NewBlockFetcher env es t m = Ok f" and "rpc_Dial env (hd es) \<noteq> None"
  shows "fetcher_live f"
proof -
  note new = NewBlockFetcher_spec [OF assms(1)]
  have "es \<noteq> []" using new(3,4) by auto
  then have "up_at f 0" using new(1,5) assms(2) by (simp add: up_at_def hd_conv_nth)
  with NewBlockFetcher_ok [OF assms(1)] new(3) show ?thesis by (auto simp: fetcher_live_def)
qed

text \<open>The states of a fetcher over its life: created, used by any sequence of calls, closed.\<close>

inductive fetcher_reach :: "('w, 'c) rpc_env \<Rightarrow> string list \<Rightarrow> 'c BlockFetcher \<Rightarrow> bool" for env es where
  fr_new: "NewBlockFetcher env es t m = Ok f \<Longrightarrow> fetcher_reach env es f"
| fr_block: "fetcher_reach env es f \<Longrightarrow> FetchBlock env f w n = Some (r, f', w') \<Longrightarrow> fetcher_reach env es f'"
| fr_latest: "fetcher_reach env es f \<Longrightarrow> FetchLatestBlockNumber env f w = Some (r, f', w') \<Longrightarrow> fetcher_reach env es f'"
| fr_close: "fetcher_reach env es f \<Longrightarrow> fetcher_reach env es (Close_fetcher f)"

lemma reach_live:
  assumes "fetcher_reach env es f" and "rpc_Dial env (hd es) \<noteq> None"
  shows "fetcher_live f \<or> bf_clients f = []"
  using assms(1)
proof (induction rule: fetcher_reach.induct)
  case (fr_new t m f)
  then show ?case using NewBlockFetcher_live [OF _ assms(2)] by blast
next
  case (fr_block f w n r f' w')
  show ?case
  proof (cases "bf_clients f = []")
    case True
    then have "getNextHealthyClient f = Some (Ok None, f)" by (simp add: getNextHealthyClient_def)
    with fr_block(2) True show ?thesis
      by (cases "nat (bf_maxRetries f)") (auto simp: FetchBlock_def)
  next
    case False
    with fr_block(3) have "fetcher_live f" by simp
    then show ?thesis
      using fetchLoop_returns [of f env n 0 "nat (bf_maxRetries f)" None w] fr_block(2)
      by (metis FetchBlock_def option.inject prod.inject)
  qed
next
  case (fr_latest f w r f' w')
  show ?case
  proof (cases "bf_clients f = []")
    case True
    then have "getNextHealthyClient f = Some (Ok None, f)" by (simp add: getNextHealthyClient_def)
    with fr_latest(2) True show ?thesis
      by (cases "nat (bf_maxRetries f)") (auto simp: FetchLatestBlockNumber_def)
  next
    case False
    with fr_latest(3) have "fetcher_live f" by simp
    then show ?thesis
      using latestLoop_returns [of f env 0 "nat (bf_maxRetries f)" None w] fr_latest(2)
      by (metis FetchLatestBlockNumber_def option.inject prod.inject)
  qed
qed (simp add: Close_fetcher_def)


section \<open>Properties\<close>

text \<open>
  A small network for the examples: the endpoint \<open>''down''\<close> cannot be dialled, every other one
  answers with the example block of the number asked for.
\<close>

definition ex_eth_block :: "u64 \<Rightarrow> EthBlock" where
  "ex_eth_block n = \<lparr>eb_Transactions = [], eb_Header = example_header n, eb_Size = 1024\<rparr>"

definition ex_rpc :: "(unit, string) rpc_env" where
  "ex_rpc = \<lparr>rpc_Dial = (\<lambda>e. if e = ''down'' then None else Some e),
     rpc_BlockByNumber = (\<lambda>w c n. (Ok (ex_eth_block (word_of_int n)), w)),
     rpc_LatestNumber = (\<lambda>w c. (Ok 100, w)), rpc_WaitCancelled = (\<lambda>w d. (False, w))\<rparr>"

definition ex_fetcher :: "string list \<Rightarrow> (string, bool) fmap \<Rightarrow> nat \<Rightarrow> string BlockFetcher" where
  "ex_fetcher es health i = \<lparr>bf_clients = es, bf_endpoints = es, bf_currentIndex = i,
     bf_timeout = 30 * second, bf_maxRetries = 3, bf_healthStatus = health,
     bf_requestCount = fmempty, bf_errorCount = fmempty\<rparr>"

text \<open>
  Choosing a client (\<open>getNextHealthyClient\<close>): the clients are tried in cyclic order from the
  current index and the first one whose endpoint is marked healthy is returned, the index moving
  behind it; when none is healthy the result is nil, except that a search which starts at index 0
  never returns.
\<close>

theorem next_client_round_robin:
  assumes "fetcher_ok f" and "bf_clients f \<noteq> []"
  shows "getNextHealthyClient f =
      (case find (up_at f) (try_order (length (bf_clients f)) (bf_currentIndex f)) of
         Some j \<Rightarrow> Some (Ok (Some (bf_clients f ! j)), f\<lparr>bf_currentIndex := j + 1\<rparr>)
       | None \<Rightarrow> if bf_currentIndex f = 0 then None else Some (Ok None, f)) \<and>
    (getNextHealthyClient f = None \<longleftrightarrow>
       bf_currentIndex f = 0 \<and> (\<forall>j < length (bf_clients f). \<not> up_at f j))"
  using getNextHealthyClient_spec [OF assms] find_try_order(1) [OF assms(1)]
  by (cases "find (up_at f) (try_order (length (bf_clients f)) (bf_currentIndex f))") auto

theorem next_client_round_robin_witness:
  "getNextHealthyClient (ex_fetcher [''a'', ''b'', ''c''] (fmupd ''a'' True (fmupd ''c'' True fmempty)) 1) =
     Some (Ok (Some ''c''), ex_fetcher [''a'', ''b'', ''c''] (fmupd ''a'' True (fmupd ''c'' True fmempty)) 3) \<and>
   getNextHealthyClient (ex_fetcher [''a'', ''b''] fmempty 0) = None"
proof -
  let ?h = "fmupd ''a'' True (fmupd ''c'' True fmempty)"
  have "fetcher_ok (ex_fetcher [''a'', ''b'', ''c''] ?h 1)" "fetcher_ok (ex_fetcher [''a'', ''b''] fmempty 0)"
    by (simp_all add: fetcher_ok_def ex_fetcher_def)
  note spec = next_client_round_robin [OF this(1)] next_client_round_robin [OF this(2)]
  have order: "try_order 3 (Suc 0) = [1, 2, 0]" by (simp add: try_order_def upt_rec)
  have "find (up_at (ex_fetcher [''a'', ''b'', ''c''] ?h (Suc 0))) (try_order 3 (Suc 0)) = Some 2"
    by (simp add: order up_at_def ex_fetcher_def healthy_at_def)
  moreover have "\<not> up_at (ex_fetcher [''a'', ''b''] fmempty 0) j" for j
    by (simp add: up_at_def ex_fetcher_def healthy_at_def)
  ultimately have
    "getNextHealthyClient (ex_fetcher [''a'', ''b'', ''c''] ?h 1) =
       Some (Ok (Some ''c''), ex_fetcher [''a'', ''b'', ''c''] ?h 3)"
    "getNextHealthyClient (ex_fetcher [''a'', ''b''] fmempty 0) = None"
    using spec(1) spec(2) [THEN conjunct2] by (simp_all add: ex_fetcher_def numeral_2_eq_2 numeral_3_eq_3)
  then show ?thesis ..
qed

text \<open>
  C24. When the first configured endpoint can be dialled, \<open>FetchBlock\<close> returns in every state the
  fetcher can get into before it is closed (so the search for a client never hangs), and a block it
  returns is the conversion of the reply one of the clients gave for that number.
\<close>

theorem fetch_block_returns:
  assumes "fetcher_reach env es f" and "rpc_Dial env (hd es) \<noteq> None" and "bf_clients f \<noteq> []"
  shows "\<exists>r f' w'. FetchBlock env f w n = Some (r, f', w') \<and> (\<forall>b. r = Ok b \<longrightarrow> served env f n b)"
proof -
  have "fetcher_live f" using reach_live [OF assms(1,2)] assms(3) by simp
  then show ?thesis
    by (rule fetchLoop_returns [of f env n 0 "nat (bf_maxRetries f)" None w]) (auto simp: FetchBlock_def)
qed

lemma ex_new_fetcher:
  "NewBlockFetcher ex_rpc [''a'', ''b''] 0 0 =
     Ok (ex_fetcher [''a'', ''b''] (fmupd ''b'' True (fmupd ''a'' True fmempty)) 0)"
  by (simp add: NewBlockFetcher_def ex_rpc_def ex_fetcher_def)

theorem fetch_block_returns_witness:
  "\<exists>f r f' w'. NewBlockFetcher ex_rpc [''a'', ''b''] 0 0 = Ok f \<and>
     FetchBlock ex_rpc f () 7 = Some (r, f', w') \<and> bf_clients f = [''a'', ''b'']"
proof -
  let ?f = "ex_fetcher [''a'', ''b''] (fmupd ''b'' True (fmupd ''a'' True fmempty)) 0"
  have reach: "fetcher_reach ex_rpc [''a'', ''b''] ?f" using ex_new_fetcher by (rule fr_new)
  have dial: "rpc_Dial ex_rpc (hd [''a'', ''b'']) \<noteq> None" by (simp add: ex_rpc_def)
  have cs: "bf_clients ?f = [''a'', ''b'']" by (simp add: ex_fetcher_def)
  then have "\<exists>r f' w'. FetchBlock ex_rpc ?f () 7 = Some (r, f', w') \<and> (\<forall>b. r = Ok b \<longrightarrow> served ex_rpc ?f 7 b)"
    using fetch_block_returns [OF reach dial] by simp
  with ex_new_fetcher cs show ?thesis by blast
qed

text \<open>
  The list of clients holds only the endpoints that could be dialled, but is indexed like the list
  of all endpoints. When as many endpoints at the front of the list as there are clients cannot be
  dialled (one bad endpoint before one good one is enough), every fetch on the new fetcher hangs,
  although a working endpoint is configured.
\<close>

theorem dead_first_endpoint_hangs:
  assumes "NewBlockFetcher env es t m = Ok f" and "0 \<le> m"
    and "\<forall>j < length (bf_clients f). rpc_Dial env (es ! j) = None"
  shows "getNextHealthyClient f = None \<and> FetchBlock env f w n = None \<and> FetchLatestBlockNumber env f w = None"
proof -
  note new = NewBlockFetcher_spec [OF assms(1)] and ok = NewBlockFetcher_ok [OF assms(1)]
  have "\<not> up_at f j" if "j < length (bf_clients f)" for j
    using that assms(3) new(1,5) ok by (simp add: up_at_def fetcher_ok_def)
  then have none: "find (up_at f) (try_order (length (bf_clients f)) (bf_currentIndex f)) = None"
    using find_try_order(1) [OF ok] by simp
  have hang: "getNextHealthyClient f = None"
    using getNextHealthyClient_spec [OF ok new(3)] none new(2) by simp
  moreover obtain k where "nat (bf_maxRetries f) = Suc k"
    using new(6) assms(2) by (cases "nat (bf_maxRetries f)") (auto split: if_splits)
  ultimately show ?thesis by (simp add: FetchBlock_def FetchLatestBlockNumber_def)
qed

theorem dead_first_endpoint_hangs_witness:
  "\<exists>f. NewBlockFetcher ex_rpc [''down'', ''b''] 0 0 = Ok f \<and> bf_clients f = [''b''] \<and> FetchBlock ex_rpc f () 7 = None"
proof -
  obtain f where f: "NewBlockFetcher ex_rpc [''down'', ''b''] 0 0 = Ok f" "bf_clients f = [''b'']"
    by (simp add: NewBlockFetcher_def ex_rpc_def)
  have "\<forall>j < length (bf_clients f). rpc_Dial ex_rpc ([''down'', ''b''] ! j) = None"
    by (simp add: f ex_rpc_def)
  from dead_first_endpoint_hangs [OF f(1) _ this] f show ?thesis by simp
qed

text \<open>
  After a failed request the endpoint is taken out of the rotation exactly when it has served
  some requests and its errors, this one included, are more than half their number; the comparison
  of the two 64-bit counters as \<open>float64\<close> is exact up to 2^53. An endpoint that has never answered
  therefore stays in the rotation for ever.
\<close>

theorem failing_endpoint_health:
  assumes "in_use f0 f" and "bf_clients f \<noteq> []" and "e = bf_endpoints f ! (bf_currentIndex f - 1)"
    and "unat (counter_at (bf_requestCount f) e) < 2 ^ 53" and "unat (counter_at (bf_errorCount f) e) < 2 ^ 53 - 1"
  shows "\<exists>f'. recordFailure f = Ok f' \<and>
    (healthy_at (bf_healthStatus f') e \<longleftrightarrow> healthy_at (bf_healthStatus f) e \<and>
       (counter_at (bf_requestCount f) e = 0 \<or>
        2 * (unat (counter_at (bf_errorCount f) e) + 1) \<le> unat (counter_at (bf_requestCount f) e)))"
proof -
  let ?f = "incrementErrorCount f e" and ?r = "counter_at (bf_requestCount f) e" and ?x = "counter_at (bf_errorCount f) e"
  have inc: "counter_at (bf_requestCount ?f) e = ?r" "counter_at (bf_errorCount ?f) e = ?x + 1"
      "bf_healthStatus ?f = bf_healthStatus f"
    by (simp_all add: incrementErrorCount_def counter_at_def)
  have x1: "unat (?x + 1) = unat ?x + 1"
    using assms(5) unat_succ_u64 [of ?x] by simp
  have rate: "getErrorRate ?f e > 1 / 2 \<longleftrightarrow> ?r \<noteq> 0 \<and> unat ?r < 2 * (unat ?x + 1)"
  proof (cases "?r = 0")
    case False
    then have "0 < unat ?r" by (simp add: unat_gt_0)
    with False assms(4,5) x1 inc show ?thesis
      using f64_ratio_half [of "unat ?x + 1" "unat ?r"] by (simp add: getErrorRate_def)
  qed (simp add: getErrorRate_def inc)
  have "recordFailure f = Ok (if getErrorRate ?f e > 1 / 2 then markUnhealthy ?f e else ?f)"
    by (simp add: recordFailure_def getCurrentEndpoint_in_use [OF assms(1,2)] assms(3) Let_def)
  with rate show ?thesis by (auto simp: markUnhealthy_def inc)
qed

theorem failing_endpoint_health_witness:
  "\<exists>f'. recordFailure (ex_fetcher [''a''] (fmupd ''a'' True fmempty) 1) = Ok f' \<and>
     healthy_at (bf_healthStatus f') ''a''"
proof -
  let ?f = "ex_fetcher [''a''] (fmupd ''a'' True fmempty) 1"
  have "in_use ?f ?f" "bf_clients ?f \<noteq> []" "''a'' = bf_endpoints ?f ! (bf_currentIndex ?f - 1)"
    "counter_at (bf_requestCount ?f) ''a'' = 0" "counter_at (bf_errorCount ?f) ''a'' = 0"
    "healthy_at (bf_healthStatus ?f) ''a''"
    by (simp_all add: in_use_def fetcher_ok_def ex_fetcher_def counter_at_def)
  then show ?thesis using failing_endpoint_health [of ?f ?f "''a''"] by simp
qed

text \<open>
  \<open>FetchBlocks\<close> on a valid range, when no call panics and the context is not cancelled: it fails
  exactly when more than half of the blocks could not be fetched, and otherwise returns the blocks
  that arrived, in the order of their arrival, silently leaving out those that failed.
\<close>

theorem fetch_blocks_partial:
  assumes "start < end" and "unat (end - start) \<le> max_slice_cap" and "arrivals_of start end rs"
    and "\<forall>(n, r) \<in> set rs. \<forall>p. r \<noteq> Panic p"
  shows "FetchBlocks False rs start end =
      (if failures rs > (unat end - unat start) div 2 then Err (TooManyErrors (failures rs) (end - start))
       else Ok (delivered rs)) \<and>
    length (delivered rs) + failures rs = unat end - unat start"
proof -
  have count: "unat (end - start) = unat end - unat start" using assms(1) by (simp add: unat_diff_u64)
  have "uint (end - start) = int (unat end - unat start)" by (simp flip: count)
  moreover have "to_int64 (uint (end - start)) = uint (end - start)"
    using assms(2) by (intro to_int64_uint) (simp add: max_slice_cap_def)
  ultimately have half: "to_int64 (uint (end - start)) div 2 = int ((unat end - unat start) div 2)"
    by (simp add: zdiv_int)
  have "collect rs = Ok (delivered rs, failures rs)" using assms(4) by (intro collect_eq) fastforce
  moreover have "\<not> end \<le> start" using assms(1) by simp
  ultimately show ?thesis
    using assms(2) count half length_delivered [of rs] length_arrivals [OF assms(3)]
    by (simp add: FetchBlocks_def)
qed

theorem fetch_blocks_partial_witness:
  "FetchBlocks False [(6, Err NoHealthyClients), (5, Ok (example_block 5))] 5 7 = Ok [example_block 5]"
proof -
  let ?rs = "[(6, Err NoHealthyClients), (5, Ok (example_block 5))] :: arrivals"
  have "arrivals_of 5 7 ?rs" by (simp add: arrivals_of_def u64_loop.simps)
  moreover have "unat (7 - 5 :: u64) \<le> max_slice_cap" by (simp add: max_slice_cap_def)
  ultimately show ?thesis
    using fetch_blocks_partial [of 5 7 ?rs] by (simp add: failures_def delivered_def map_filter_simps)
qed

end
