(* ===== verification/Go_Strings.thy ===== *)
theory Go_Strings
  imports Go_Prelude
begin

text \<open>
  The parts of Go's \<open>strings\<close>, \<open>strconv\<close> and \<open>fmt\<close> packages that the configuration, the cache keys
  and the HTTP middleware use, on ASCII strings: case conversion, trimming, splitting at a
  character, decimal and hexadecimal numerals, and the scanning of a number.
\<close>

section \<open>Characters\<close>

abbreviation char_code :: "char \<Rightarrow> nat" where "char_code c \<equiv> of_char c"

definition is_digit :: "char \<Rightarrow> bool" where
  "is_digit c \<longleftrightarrow> 48 \<le> char_code c \<and> char_code c \<le> 57"

definition is_space :: "char \<Rightarrow> bool" where
  "is_space c \<longleftrightarrow> char_code c = 32 \<or> 9 \<le> char_code c \<and> char_code c \<le> 13"

definition upper_char :: "char \<Rightarrow> char" where
  "upper_char c = (if 97 \<le> char_code c \<and> char_code c \<le> 122 then char_of (char_code c - 32) else c)"

definition lower_char :: "char \<Rightarrow> char" where
  "lower_char c = (if 65 \<le> char_code c \<and> char_code c \<le> 90 then char_of (char_code c + 32) else c)"

definition ToUpper :: "string \<Rightarrow> string" where "ToUpper s = map upper_char s"

definition ToLower :: "string \<Rightarrow> string" where "ToLower s = map lower_char s"

definition TrimSpace :: "string \<Rightarrow> string" where
  "TrimSpace s = rev (dropWhile is_space (rev (dropWhile is_space s)))"

lemma is_digit_not_space: "is_digit c \<Longrightarrow> \<not> is_space c"
  by (auto simp: is_digit_def is_space_def)

lemma upper_digit [simp]: "is_digit c \<Longrightarrow> upper_char c = c"
  by (auto simp: is_digit_def upper_char_def)

section \<open>Splitting\<close>

text \<open>\<open>strings.Split(s, sep)\<close> and \<open>strings.SplitN(s, sep, 2)\<close> for a separator of one character.\<close>

fun Split :: "char \<Rightarrow> string \<Rightarrow> string list" where
  "Split sep [] = [[]]"
| "Split sep (c # s) =
     (if c = sep then [] # Split sep s
      else (case Split sep s of [] \<Rightarrow> [[c]] | p # ps \<Rightarrow> (c # p) # ps))"

definition SplitN2 :: "char \<Rightarrow> string \<Rightarrow> string list" where
  "SplitN2 sep s =
     (case dropWhile (\<lambda>c. c \<noteq> sep) s of
        [] \<Rightarrow> [s]
      | _ # after \<Rightarrow> [takeWhile (\<lambda>c. c \<noteq> sep) s, after])"

text \<open>The part of \<open>s\<close> before the last \<open>sep\<close>, or all of \<open>s\<close>: \<open>ip[:strings.LastIndex(ip, sep)]\<close>.\<close>

definition beforeLast :: "char \<Rightarrow> string \<Rightarrow> string" where
  "beforeLast sep s =
     (case dropWhile (\<lambda>c. c \<noteq> sep) (rev s) of [] \<Rightarrow> s | _ # before \<Rightarrow> rev before)"

lemma Split_not_Nil [simp]: "Split sep s \<noteq> []"
  by (induction s) (auto split: list.split)

lemma Split_no_sep: "sep \<notin> set s \<Longrightarrow> Split sep s = [s]"
  by (induction s) auto

lemma SplitN2_append: "sep \<notin> set a \<Longrightarrow> SplitN2 sep (a @ sep # b) = [a, b]"
proof -
  assume "sep \<notin> set a"
  then have "dropWhile (\<lambda>c. c \<noteq> sep) (a @ sep # b) = sep # b" "takeWhile (\<lambda>c. c \<noteq> sep) (a @ sep # b) = a"
    by (induction a) auto
  then show ?thesis by (simp add: SplitN2_def)
qed

lemma SplitN2_eq: "SplitN2 sep s = [a, b] \<longleftrightarrow> sep \<notin> set a \<and> s = a @ sep # b"
proof
  assume *: "SplitN2 sep s = [a, b]"
  then obtain c where "dropWhile (\<lambda>c. c \<noteq> sep) s = c # b" "a = takeWhile (\<lambda>c. c \<noteq> sep) s"
    by (auto simp: SplitN2_def split: list.splits)
  then show "sep \<notin> set a \<and> s = a @ sep # b"
    using takeWhile_dropWhile_id [of "\<lambda>c. c \<noteq> sep" s] hd_dropWhile [of "\<lambda>c. c \<noteq> sep" s] by (auto dest: set_takeWhileD)
qed (auto simp: SplitN2_append)

section \<open>Numerals\<close>

definition digit :: "nat \<Rightarrow> char" where
  "digit d = char_of (48 + d)"

fun decimal :: "nat \<Rightarrow> string" where
  "decimal n = (if n < 10 then [digit n] else decimal (n div 10) @ [digit (n mod 10)])"

declare decimal.simps [simp del]

definition digits_value :: "string \<Rightarrow> nat" where
  "digits_value s = foldl (\<lambda>a c. 10 * a + (char_code c - 48)) 0 s"

lemma of_char_digit [simp]: "d < 10 \<Longrightarrow> char_code (digit d) = 48 + d"
  by (simp add: digit_def)

lemma is_digit_digit [simp]: "d < 10 \<Longrightarrow> is_digit (digit d)"
  by (simp add: is_digit_def)

lemma decimal_digits: "list_all is_digit (decimal n)"
  by (induction n rule: decimal.induct) (subst decimal.simps, simp)

lemma decimal_not_Nil [simp]: "decimal n \<noteq> []"
  by (subst decimal.simps) simp

lemma digits_value_decimal [simp]: "digits_value (decimal n) = n"
proof (induction n rule: decimal.induct)
  case (1 n)
  then show ?case by (subst decimal.simps) (simp add: digits_value_def)
qed

lemma decimal_inject [simp]: "decimal m = decimal n \<longleftrightarrow> m = n"
  using digits_value_decimal by metis

text \<open>\<open>%d\<close> of a signed integer and \<open>big.Int.String\<close>.\<close>

definition decimal_int :: "int \<Rightarrow> string" where
  "decimal_int i = (if i < 0 then CHR ''-'' # decimal (nat (- i)) else decimal (nat i))"

text \<open>\<open>%x\<close> of a byte array: two lower-case digits per byte.\<close>

definition hex_digit :: "nat \<Rightarrow> char" where
  "hex_digit d = (if d < 10 then char_of (48 + d) else char_of (87 + d))"

definition hex_bytes :: "bytes \<Rightarrow> string" where
  "hex_bytes bs = concat (map (\<lambda>b. [hex_digit (unat b div 16), hex_digit (unat b mod 16)]) bs)"

lemma hex_digit_inject: "a < 16 \<Longrightarrow> b < 16 \<Longrightarrow> hex_digit a = hex_digit b \<longleftrightarrow> a = b"
proof -
  assume *: "a < 16" "b < 16"
  have c: "char_code (hex_digit d) = (if d < 10 then 48 + d else 87 + d)" if "d < 16" for d using that by (auto simp: hex_digit_def)
  have "a = b" if "hex_digit a = hex_digit b"
  proof -
    from that have "(if a < 10 then 48 + a else 87 + a) = (if b < 10 then 48 + b else 87 + b)"
      using c [OF *(1)] c [OF *(2)] by (simp only:)
    then show ?thesis by (simp split: if_splits)
  qed
  then show ?thesis by blast
qed

lemma hex_bytes_inject:
  "length bs = length cs \<Longrightarrow> hex_bytes bs = hex_bytes cs \<longleftrightarrow> bs = cs"
proof (induction bs cs rule: list_induct2)
  case (Cons b bs c cs)
  have lt: "unat x div 16 < 16" for x :: byte using unat_less_2p [of x] by simp
  have "unat b = unat c" if "unat b div 16 = unat c div 16" "unat b mod 16 = unat c mod 16"
    by (subst (1 2) div_mult_mod_eq [of _ 16, symmetric]) (simp only: that)
  then have "unat b div 16 = unat c div 16 \<and> unat b mod 16 = unat c mod 16 \<longleftrightarrow> b = c"
    by (auto simp: word_unat_eq_iff)
  then show ?case using Cons.IH by (auto simp: hex_bytes_def hex_digit_inject lt)
qed simp

section \<open>Scanning\<close>

text \<open>
  \<open>fmt.Sscanf(s, "%d%s", &value, &unit)\<close>: an optionally signed number that fits 64 bits, then a word,
  both after optional spaces. What was not scanned keeps its value.
\<close>

definition scanInt :: "string \<Rightarrow> (int \<times> string) option" where
  "scanInt s =
     (let s = dropWhile is_space s;
          (negative, s) = (case s of
              CHR ''-'' # t \<Rightarrow> (True, t) | CHR ''+'' # t \<Rightarrow> (False, t) | _ \<Rightarrow> (False, s));
          ds = takeWhile is_digit s;
          v = (if negative then - int (digits_value ds) else int (digits_value ds)) in
      if ds = [] \<or> v < - (2 ^ 63) \<or> v \<ge> 2 ^ 63 then None else Some (v, dropWhile is_digit s))"

definition scanWord :: "string \<Rightarrow> string option" where
  "scanWord s =
     (let w = takeWhile (\<lambda>c. \<not> is_space c) (dropWhile is_space s) in if w = [] then None else Some w)"

lemma scanInt_decimal:
  assumes "int n < 2 ^ 63" and "u = [] \<or> \<not> is_digit (hd u)"
  shows "scanInt (decimal n @ u) = Some (int n, u)"
proof -
  obtain c ds where c: "decimal n = c # ds" by (cases "decimal n") simp_all
  have d: "list_all is_digit (c # ds)" using decimal_digits [of n] by (simp add: c)
  then have sp: "\<not> is_space c" "c \<noteq> CHR ''-''" "c \<noteq> CHR ''+''"
    by (auto simp: is_digit_not_space) (auto simp: is_digit_def)
  have tk: "takeWhile is_digit (decimal n @ u) = decimal n" "dropWhile is_digit (decimal n @ u) = u"
    using d assms(2) by (cases u; simp add: c takeWhile_append2 dropWhile_append2 list_all_iff)+
  have "(case decimal n @ u of CHR ''-'' # t \<Rightarrow> (True, t) | CHR ''+'' # t \<Rightarrow> (False, t) | _ \<Rightarrow> (False, decimal n @ u)) =
      (False, decimal n @ u)"
    using sp(2,3) by (auto simp: c split: list.split char.split bool.split)
  moreover have "dropWhile is_space (decimal n @ u) = decimal n @ u" using sp(1) by (simp add: c)
  ultimately show ?thesis using assms(1) tk by (simp add: scanInt_def Let_def)
qed

end
