(* ===== verification/RPC_Server.thy ===== *)
theory RPC_Server
  imports Block_Fetcher Block_Validation Go_Strings
begin

text \<open>
  \<open>pkg/p2p/rpc_server.go\<close>: the JSON-RPC server that answers Bor clients from the storage and from the
  upstream endpoints. The RPC library, which decodes requests and calls the methods, and the socket
  are parameters of \<open>Start\<close>; the numbers the library uses for the block tags are parameters of the
  methods. \<open>None\<close> as a result is a call that does not return (\<open>Block_Fetcher.FetchBlock\<close>).
\<close>

section \<open>Model\<close>

record ('s, 'c) EthAPI =
  ea_storage :: 's
  ea_fetcher :: "'c BlockFetcher option"
  ea_chainID :: int

record RPCConfig =
  rpg_Listen :: string
  rpg_ChainID :: int

text \<open>\<open>rv_server\<close> are the namespaces registered so far and \<open>rv_httpServer\<close> tells whether the server accepts connections.\<close>

record ('s, 'c) RPCServer =
  rv_storage :: 's
  rv_fetcher :: "'c BlockFetcher option"
  rv_server :: "string list option"
  rv_httpServer :: "bool option"
  rv_listenAddr :: string
  rv_chainID :: int

datatype rpc_error =
    UpstreamBlockNotFound fetch_error
  | RPCBlockNotFound u64
  | RPCHashNotFound storage_error
  | NoBlockNumber storage_error
  | RegisterFailed string string
  | ListenFailed string string

definition NewRPCServer :: "RPCConfig \<Rightarrow> 's \<Rightarrow> 'c BlockFetcher option \<Rightarrow> ('s, 'c) RPCServer" where
  "NewRPCServer cfg store fetcher =
     \<lparr>rv_storage = store, rv_fetcher = fetcher, rv_server = None, rv_httpServer = None,
      rv_listenAddr = rpg_Listen cfg, rv_chainID = rpg_ChainID cfg\<rparr>"

text \<open>The three calls of \<open>RegisterName\<close>, in order; \<open>register\<close> returns the error of a call.\<close>

fun registerAll :: "(string \<Rightarrow> string option) \<Rightarrow> string list \<Rightarrow> ('s, 'c) RPCServer \<Rightarrow> (rpc_error, unit) outcome \<times> ('s, 'c) RPCServer" where
  "registerAll register [] s = (Ok (), s)"
| "registerAll register (n # ns) s =
     (case register n of
        Some e \<Rightarrow> (Err (RegisterFailed n e), s)
      | None \<Rightarrow> registerAll register ns (s\<lparr>rv_server := map_option (\<lambda>xs. xs @ [n]) (rv_server s)\<rparr>))"

definition rpc_Start ::
  "(string \<Rightarrow> string option) \<Rightarrow> (string \<Rightarrow> string option) \<Rightarrow> ('s, 'c) RPCServer \<Rightarrow> (rpc_error, unit) outcome \<times> ('s, 'c) RPCServer" where
  "rpc_Start register listen s =
     (case registerAll register [''eth'', ''net'', ''web3''] (s\<lparr>rv_server := Some []\<rparr>) of
        (Ok _, s) \<Rightarrow>
          (let s = s\<lparr>rv_httpServer := Some False\<rparr> in
           (case listen (rv_listenAddr s) of
              Some e \<Rightarrow> (Err (ListenFailed (rv_listenAddr s) e), s)
            | None \<Rightarrow> (Ok (), s\<lparr>rv_httpServer := Some True\<rparr>)))
      | (r, s) \<Rightarrow> (r, s))"

definition rpc_Stop :: "('s, 'c) RPCServer \<Rightarrow> ('s, 'c) RPCServer" where
  "rpc_Stop s = s\<lparr>rv_httpServer := map_option (\<lambda>_. False) (rv_httpServer s)\<rparr>"

subsection \<open>Responses\<close>

record rpc_transaction =
  rx_hash :: hash
  rx_nonce :: u64
  rx_from :: address
  rx_to :: address
  rx_value :: bigint
  rx_gas :: u64
  rx_gasPrice :: bigint
  rx_input :: bytes

datatype rpc_transactions = FullTransactions "rpc_transaction list" | TransactionHashes "hash list"

record rpc_block =
  rb_number :: u64
  rb_hash :: hash
  rb_parentHash :: hash
  rb_stateRoot :: hash
  rb_timestamp :: u64
  rb_size :: u64
  rb_transactionsRoot :: hash
  rb_receiptsRoot :: hash
  rb_miner :: address
  rb_difficulty :: bigint
  rb_totalDifficulty :: bigint
  rb_gasLimit :: u64
  rb_gasUsed :: u64
  rb_extraData :: bytes
  rb_nonce :: u64
  rb_transactions :: rpc_transactions

fun fullTransactions :: "Transaction option list \<Rightarrow> ('e, rpc_transaction list) outcome" where
  "fullTransactions [] = Ok []"
| "fullTransactions (tx # txs) =
     deref tx (\<lambda>t.
     bind_outcome (fullTransactions txs) (\<lambda>rest.
     Ok (\<lparr>rx_hash = tx_Hash t, rx_nonce = tx_Nonce t, rx_from = tx_From t, rx_to = tx_To t, rx_value = tx_Value t,
          rx_gas = tx_Gas t, rx_gasPrice = tx_GasPrice t, rx_input = tx_Data t\<rparr> # rest)))"

fun transactionHashes :: "Transaction option list \<Rightarrow> ('e, hash list) outcome" where
  "transactionHashes [] = Ok []"
| "transactionHashes (tx # txs) = deref tx (\<lambda>t. bind_outcome (transactionHashes txs) (\<lambda>rest. Ok (tx_Hash t # rest)))"

definition blockToRPCResponse :: "Block \<Rightarrow> bool \<Rightarrow> ('e, rpc_block) outcome" where
  "blockToRPCResponse block fullTx =
     deref (blk_Header block) (\<lambda>h.
     bind_outcome (if fullTx then bind_outcome (fullTransactions (blk_Transactions block)) (\<lambda>txs. Ok (FullTransactions txs))
                   else bind_outcome (transactionHashes (blk_Transactions block)) (\<lambda>hs. Ok (TransactionHashes hs))) (\<lambda>txs.
     Ok \<lparr>rb_number = hd_Number h, rb_hash = hd_Hash h, rb_parentHash = hd_ParentHash h, rb_stateRoot = hd_StateRoot h,
         rb_timestamp = hd_Timestamp h, rb_size = blk_Size block, rb_transactionsRoot = hd_TxHash h,
         rb_receiptsRoot = hd_ReceiptHash h, rb_miner = hd_Coinbase h, rb_difficulty = Some 0, rb_totalDifficulty = Some 0,
         rb_gasLimit = hd_GasLimit h, rb_gasUsed = hd_GasUsed h, rb_extraData = hd_ExtraData h, rb_nonce = hd_Nonce h,
         rb_transactions = txs\<rparr>))"

subsection \<open>Methods\<close>

text \<open>The numbers that stand for the tags of a \<open>rpc.BlockNumber\<close>.\<close>

record block_tags =
  tag_Latest :: int
  tag_Pending :: int
  tag_Earliest :: int

definition BlockNumber :: "'s storage_ops \<Rightarrow> ('s, 'c) EthAPI \<Rightarrow> (storage_error, u64) outcome" where
  "BlockNumber ops api = st_GetMaxBlock ops (ea_storage api)"

text \<open>
  The storage answers a tag; a conversion of a negative number to \<open>uint64\<close> wraps. \<open>GetMinBlock\<close> and
  \<open>GetMaxBlock\<close> have no error result, so \<open>NoBlockNumber\<close> never occurs.
\<close>

definition resolveNumber :: "'s storage_ops \<Rightarrow> block_tags \<Rightarrow> 's \<Rightarrow> int \<Rightarrow> (storage_error, u64) outcome" where
  "resolveNumber ops tags s number =
     (if number = tag_Latest tags \<or> number = tag_Pending tags then st_GetMaxBlock ops s
      else if number = tag_Earliest tags then st_GetMinBlock ops s
      else Ok (word_of_int number))"

text \<open>An error of \<open>StoreBlock\<close> is printed; a panic of a call ends the method.\<close>

definition fetchAndStore ::
  "('w, 'c) rpc_env \<Rightarrow> 's storage_ops \<Rightarrow> ('s, 'c) EthAPI \<Rightarrow> 'w \<Rightarrow> u64 \<Rightarrow>
   ((rpc_error, Block) outcome \<times> ('s, 'c) EthAPI \<times> 'w) option" where
  "fetchAndStore env ops api w blockNum =
     (case ea_fetcher api of
        None \<Rightarrow> Some (Err (RPCBlockNotFound blockNum), api, w)
      | Some fetcher \<Rightarrow>
          (case FetchBlock env fetcher w blockNum of
             None \<Rightarrow> None
           | Some (Panic p, fetcher, w) \<Rightarrow> Some (Panic p, api\<lparr>ea_fetcher := Some fetcher\<rparr>, w)
           | Some (Err e, fetcher, w) \<Rightarrow> Some (Err (UpstreamBlockNotFound e), api\<lparr>ea_fetcher := Some fetcher\<rparr>, w)
           | Some (Ok block, fetcher, w) \<Rightarrow>
               (case st_StoreBlock ops (ea_storage api) (Some block) of
                  (Panic p, s) \<Rightarrow> Some (Panic p, api\<lparr>ea_fetcher := Some fetcher, ea_storage := s\<rparr>, w)
                | (_, s) \<Rightarrow> Some (Ok block, api\<lparr>ea_fetcher := Some fetcher, ea_storage := s\<rparr>, w))))"

definition GetBlockByNumber ::
  "('w, 'c) rpc_env \<Rightarrow> 's storage_ops \<Rightarrow> block_tags \<Rightarrow> ('s, 'c) EthAPI \<Rightarrow> 'w \<Rightarrow> int \<Rightarrow> bool \<Rightarrow>
   ((rpc_error, rpc_block) outcome \<times> ('s, 'c) EthAPI \<times> 'w) option" where
  "GetBlockByNumber env ops tags api w number fullTx =
     (case resolveNumber ops tags (ea_storage api) number of
        Panic p \<Rightarrow> Some (Panic p, api, w)
      | Err e \<Rightarrow> Some (Err (NoBlockNumber e), api, w)
      | Ok blockNum \<Rightarrow>
          (case st_GetBlock ops (ea_storage api) blockNum of
             Ok block \<Rightarrow> Some (blockToRPCResponse block fullTx, api, w)
           | Panic p \<Rightarrow> Some (Panic p, api, w)
           | Err _ \<Rightarrow>
               (case fetchAndStore env ops api w blockNum of
                  None \<Rightarrow> None
                | Some (r, api, w) \<Rightarrow> Some (bind_outcome r (\<lambda>block. blockToRPCResponse block fullTx), api, w))))"

definition rpc_GetBlockByHash :: "'s storage_ops \<Rightarrow> ('s, 'c) EthAPI \<Rightarrow> hash \<Rightarrow> bool \<Rightarrow> (rpc_error, rpc_block) outcome" where
  "rpc_GetBlockByHash ops api h fullTx =
     bind_outcome (wrap_error RPCHashNotFound (st_GetBlockByHash ops (ea_storage api) h)) (\<lambda>block.
     blockToRPCResponse block fullTx)"

record syncing_info =
  si_startingBlock :: u64
  si_currentBlock :: u64
  si_highestBlock :: u64

text \<open>\<open>None\<close> is the answer \<open>false\<close>.\<close>

definition Syncing :: "'s storage_ops \<Rightarrow> ('s, 'c) EthAPI \<Rightarrow> (storage_error, syncing_info option) outcome" where
  "Syncing ops api =
     bind_outcome (st_GetMinBlock ops (ea_storage api)) (\<lambda>minBlock.
     bind_outcome (st_GetMaxBlock ops (ea_storage api)) (\<lambda>maxBlock.
     let gaps = st_GetGaps ops (ea_storage api) in
     Ok (if length gaps > 0 then
           Some \<lparr>si_startingBlock = minBlock, si_currentBlock = maxBlock, si_highestBlock = maxBlock + 1000\<rparr>
         else None)))"

definition ChainId :: "('s, 'c) EthAPI \<Rightarrow> int" where
  "ChainId api = ea_chainID api"

definition GetBalance :: "('s, 'c) EthAPI \<Rightarrow> address \<Rightarrow> int \<Rightarrow> int" where
  "GetBalance api address blockNr = 0"

definition GetTransactionCount :: "('s, 'c) EthAPI \<Rightarrow> address \<Rightarrow> int \<Rightarrow> u64" where
  "GetTransactionCount api address blockNr = 0"

definition net_Version :: "int \<Rightarrow> string" where
  "net_Version chainID = decimal_int chainID"

definition net_Listening :: bool where
  "net_Listening = True"

definition net_PeerCount :: nat where
  "net_PeerCount = 0"

definition ClientVersion :: string where
  "ClientVersion = ''Hypasis/v0.1.0''"

definition Sha3 :: "bytes \<Rightarrow> bytes" where
  "Sha3 input = hash_bytes (BytesToHash input)"

section \<open>Queries over a block store\<close>

lemma resolve_plain:
  "number \<notin> {tag_Latest tags, tag_Pending tags, tag_Earliest tags} \<Longrightarrow> resolveNumber ops tags s number = Ok (word_of_int number)"
  by (simp add: resolveNumber_def)

context block_store
begin

text \<open>A stored block is answered from the storage: nothing is fetched and nothing changes.\<close>

lemma query_stored:
  assumes "inv (ea_storage api)" and "resolveNumber ops tags (ea_storage api) number = Ok n" and "view (ea_storage api) n = Some b"
  shows "GetBlockByNumber env ops tags api w number fullTx = Some (blockToRPCResponse b fullTx, api, w)"
  using get_view [OF assms(1,3)] assms(2) by (simp add: GetBlockByNumber_def)

text \<open>A block that is not stored is fetched, stored under the number it has itself, and answered.\<close>

lemma query_missing:
  assumes "inv (ea_storage api)" and "resolveNumber ops tags (ea_storage api) number = Ok n"
    and "st_GetBlock ops (ea_storage api) n = Err e" and "ea_fetcher api = Some f"
    and "FetchBlock env f w n = Some (Ok b, f', w')" and "storable b" and "block_number b = Some m"
    and "st_StoreBlock ops (ea_storage api) (Some b) = (Ok u, s')"
  shows "GetBlockByNumber env ops tags api w number fullTx =
      Some (blockToRPCResponse b fullTx, api\<lparr>ea_fetcher := Some f', ea_storage := s'\<rparr>, w') \<and>
    inv s' \<and> view s' = (view (ea_storage api))(m \<mapsto> b)"
  using store_ok [OF assms(1,6,8,7)] assms(2-5,8) by (simp add: GetBlockByNumber_def fetchAndStore_def)

end

text \<open>
  C33. A query for a block the memory engine does not hold stores what the upstream endpoint returns,
  without a check of any kind: a block of any content is stored and answered, under the number \<open>m\<close> of
  its own header, whatever number was asked for, and replaces a validated block stored there.
\<close>

theorem rpc_query_stores_unvalidated:
  assumes "mem_inv (ea_storage api)" and "mem_view (ea_storage api) (word_of_int number) = None"
    and "number \<notin> {tag_Latest tags, tag_Pending tags, tag_Earliest tags}"
    and "ea_fetcher api = Some f" and "FetchBlock env f w (word_of_int number) = Some (Ok b, f', w')" and "block_number b = Some m"
  shows "\<exists>api'. GetBlockByNumber env mem_ops tags api w number fullTx = Some (blockToRPCResponse b fullTx, api', w') \<and>
    mem_inv (ea_storage api') \<and> mem_view (ea_storage api') = (mem_view (ea_storage api))(m \<mapsto> b)"
proof -
  let ?n = "word_of_int number :: u64"
  obtain h where h: "blk_Header b = Some h" using assms(6) by (auto simp: block_number_def)
  obtain s' where st: "st_StoreBlock mem_ops (ea_storage api) (Some b) = (Ok (), s')"
    using mem_StoreBlock_ok [OF assms(1) h] by (metis mem_ops_simps(3))
  have "st_GetBlock mem_ops (ea_storage api) ?n = Err (BlockNotFound ?n)"
    using assms(2) by (simp add: mem_ops_simps mem_GetBlock_def mem_view_def)
  from mem.query_missing [OF assms(1) resolve_plain [OF assms(3)] this assms(4,5) _ assms(6) st, of fullTx] h
  show ?thesis by (metis (no_types, lifting) EthAPI.select_convs(1) EthAPI.surjective EthAPI.update_convs(1) option.distinct(1))
qed

text \<open>
  With the memory engine \<open>GetMaxBlock\<close> is one past the newest block, so the number that
  \<open>eth_blockNumber\<close> reports is never stored, and a query for the latest block is never answered from the
  storage: without upstream endpoints it fails, also when every block up to the newest is there.
\<close>

theorem latest_block_is_never_stored:
  assumes "mem_inv (ea_storage api)" and "tracker_exact (ea_storage api)" and "mem_GetMaxBlock (ea_storage api) \<noteq> u64_max"
  shows "\<exists>n. BlockNumber mem_ops api = Ok n \<and> mem_view (ea_storage api) n = None \<and>
    (ea_fetcher api = None \<longrightarrow>
      GetBlockByNumber env mem_ops tags api w (tag_Latest tags) fullTx = Some (Err (RPCBlockNotFound n), api, w))"
proof -
  let ?s = "ea_storage api" and ?n = "mem_GetMaxBlock (ea_storage api)"
  have gt: "gt_inv (ms_gapTracker ?s)" using assms(1) by (simp add: mem_inv_def)
  have "?n \<notin> available (ms_gapTracker ?s)"
    using available_within [OF gt] by (auto simp: mem_GetMaxBlock_def GetMaxBlock_def)
  then have none: "mem_view ?s ?n = None" using assms(2,3) by (auto simp: tracker_exact_def mem_view_def map_keys_def)
  then have get: "st_GetBlock mem_ops ?s ?n = Err (BlockNotFound ?n)" by (simp add: mem_ops_simps mem_GetBlock_def mem_view_def)
  have mx: "st_GetMaxBlock mem_ops ?s = Ok ?n" by (simp add: mem_ops_def)
  show ?thesis
    using none get mx by (intro exI [of _ ?n]) (simp add: BlockNumber_def GetBlockByNumber_def resolveNumber_def fetchAndStore_def)
qed

text \<open>\<open>Sha3\<close> does not hash: it pads or cuts its input to 32 bytes.\<close>

lemma Sha3_keeps_input: "length input = 32 \<Longrightarrow> Sha3 input = input"
  by (simp add: Sha3_def hash_bytes_BytesToHash)

text \<open>
  The namespaces are registered in a fixed order, and the server accepts connections only when all of
  them are and the socket could be opened.
\<close>

lemma rpc_Start_listens_iff:
  assumes "rpc_Start register listen s = (r, s')" and "rv_httpServer s = None"
  shows "rv_httpServer s' = Some True \<longleftrightarrow> r = Ok ()"
    and "r = Ok () \<Longrightarrow> rv_server s' = Some [''eth'', ''net'', ''web3'']"
  using assms by (auto simp: rpc_Start_def Let_def split: option.splits prod.splits outcome.splits if_splits)

section \<open>Worked examples\<close>

text \<open>An endpoint that answers every request with a block 5 of its own.\<close>

definition ex_forged :: EthBlock where
  "ex_forged = \<lparr>eb_Transactions = [], eb_Header = (example_header 5)\<lparr>hd_Hash := 999\<rparr>, eb_Size = 1\<rparr>"

definition ex_forging_rpc :: "(unit, string) rpc_env" where
  "ex_forging_rpc = ex_rpc\<lparr>rpc_BlockByNumber := (\<lambda>w c n. (Ok ex_forged, w))\<rparr>"

definition ex_api :: "string BlockFetcher option \<Rightarrow> (MemoryStorage, string) EthAPI" where
  "ex_api f = \<lparr>ea_storage = mem_store_all [example_block 5], ea_fetcher = f, ea_chainID = 137\<rparr>"

definition ex_tags :: block_tags where
  "ex_tags = \<lparr>tag_Latest = - 2, tag_Pending = - 1, tag_Earliest = - 5\<rparr>"

lemma ex_api_storage: "mem_inv (ea_storage (ex_api f))" "tracker_exact (ea_storage (ex_api f))"
  "mem_view (ea_storage (ex_api f)) = [5 \<mapsto> example_block 5]"
  using mem_store_all_props [of "[example_block 5]"] by (auto simp: ex_api_def)

lemma ex_forged_fetch:
  "\<exists>f'. FetchBlock ex_forging_rpc (ex_fetcher [''a''] (fmupd ''a'' True fmempty) 0) () 7 =
     Some (Ok \<lparr>blk_Header = Some ((example_header 5)\<lparr>hd_Hash := 999\<rparr>), blk_Transactions = [], blk_Size = 1\<rparr>, f', ())"
  by (simp add: FetchBlock_def ex_fetcher_def getNextHealthyClient_def nextLoop.simps endpointHealthy_def
      ex_forging_rpc_def ex_forged_def convertEthBlockToInternal_def getCurrentEndpoint_def numeral_3_eq_3)

theorem rpc_query_stores_unvalidated_witness:
  "\<exists>r api'. GetBlockByNumber ex_forging_rpc mem_ops ex_tags (ex_api (Some (ex_fetcher [''a''] (fmupd ''a'' True fmempty) 0))) () 7 False =
      Some (r, api', ()) \<and>
    map_option block_hash (mem_view (ea_storage (ex_api None)) 5) = Some (Some 5) \<and>
    map_option block_hash (mem_view (ea_storage api') 5) = Some (Some 999)"
proof -
  let ?f = "ex_fetcher [''a''] (fmupd ''a'' True fmempty) 0"
  let ?b = "\<lparr>blk_Header = Some ((example_header 5)\<lparr>hd_Hash := 999\<rparr>), blk_Transactions = [], blk_Size = 1\<rparr>"
  obtain f' where f': "FetchBlock ex_forging_rpc ?f () (word_of_int 7) = Some (Ok ?b, f', ())" using ex_forged_fetch by auto
  have "mem_view (ea_storage (ex_api (Some ?f))) (word_of_int 7) = None" by (simp add: ex_api_storage)
  moreover have "7 \<notin> {tag_Latest ex_tags, tag_Pending ex_tags, tag_Earliest ex_tags}" by (simp add: ex_tags_def)
  moreover have "ea_fetcher (ex_api (Some ?f)) = Some ?f" by (simp add: ex_api_def)
  moreover have "block_number ?b = Some 5" by (simp add: block_number_def example_header_def)
  ultimately obtain api' where "GetBlockByNumber ex_forging_rpc mem_ops ex_tags (ex_api (Some ?f)) () 7 False =
      Some (blockToRPCResponse ?b False, api', ())" "mem_view (ea_storage api') = (mem_view (ea_storage (ex_api (Some ?f))))(5 \<mapsto> ?b)"
    using rpc_query_stores_unvalidated [OF ex_api_storage(1) _ _ _ f'] by blast
  then show ?thesis by (auto simp: ex_api_storage block_hash_def example_header_def)
qed

theorem latest_block_is_never_stored_witness:
  "\<exists>n. BlockNumber mem_ops (ex_api None) = Ok n \<and> mem_view (ea_storage (ex_api None)) n = None \<and>
    GetBlockByNumber ex_rpc mem_ops ex_tags (ex_api None) () (tag_Latest ex_tags) False =
      Some (Err (RPCBlockNotFound n), ex_api None, ())"
proof -
  have "mem_GetMaxBlock (ea_storage (ex_api None)) = 6"
    by (simp add: ex_api_def mem_store_all_def NewMemoryStorage_def mem_StoreBlock_def mem_putBlock_def mem_GetMaxBlock_def
        GetMaxBlock_def MarkAvailable_def NewGapTracker_def)
  then have "mem_GetMaxBlock (ea_storage (ex_api None)) \<noteq> u64_max" by simp
  then show ?thesis using latest_block_is_never_stored [OF ex_api_storage(1,2), of None ex_rpc ex_tags "()" False]
    by (simp add: ex_api_def)
qed

end
