(* ===== verification/Rate_Limiter.thy ===== *)
theory Rate_Limiter
  imports Go_Prelude Float64
begin

text \<open>
  \<open>pkg/ratelimit/limiter.go\<close>: one token bucket per operator and a global one. The token bucket is
  \<open>golang.org/x/time/rate\<close>, a parameter (\<open>rate_ops\<close>); what is used of its documentation is
  \<open>bucket_contract\<close>. \<open>now\<close> is the time of a call in nanoseconds, and a call is one step. An entry is
  reached through a pointer; here it is written back to the map.
\<close>

section \<open>Model\<close>

text \<open>
  The methods of \<open>rate.Limiter\<close> the code calls, with the time they read. \<open>Allow()\<close> is documented as
  \<open>AllowN(time.Now(), 1)\<close>. \<open>Wait\<close> returns an error or nil and \<open>Reserve\<close> a reservation.
\<close>

record ('b, 'e, 'r) rate_ops =
  rt_NewLimiter :: "int \<Rightarrow> int \<Rightarrow> 'b"
  rt_AllowN :: "int \<Rightarrow> int \<Rightarrow> 'b \<Rightarrow> bool \<times> 'b"
  rt_Wait :: "int \<Rightarrow> 'b \<Rightarrow> 'e option \<times> 'b"
  rt_Reserve :: "int \<Rightarrow> 'b \<Rightarrow> 'r \<times> 'b"
  rt_Tokens :: "int \<Rightarrow> 'b \<Rightarrow> float64"
  rt_SetLimit :: "int \<Rightarrow> int \<Rightarrow> 'b \<Rightarrow> 'b"
  rt_SetBurst :: "int \<Rightarrow> int \<Rightarrow> 'b \<Rightarrow> 'b"

record LimiterConfig =
  lc_PerOperatorRPS :: int
  lc_GlobalRPS :: int
  lc_Burst :: int
  lc_CleanupPeriod :: int

record 'b rateLimiterEntry =
  re_limiter :: 'b
  re_lastAccess :: int
  re_requestCount :: u64
  re_blockedCount :: u64

record 'b Limiter =
  li_config :: LimiterConfig
  li_limiters :: "(string, 'b rateLimiterEntry) fmap"
  li_global :: 'b

definition limiterDefaults :: "LimiterConfig \<Rightarrow> LimiterConfig" where
  "limiterDefaults cfg =
     (let cfg = (if lc_PerOperatorRPS cfg \<le> 0 then cfg\<lparr>lc_PerOperatorRPS := 100\<rparr> else cfg);
          cfg = (if lc_GlobalRPS cfg \<le> 0 then cfg\<lparr>lc_GlobalRPS := 100000\<rparr> else cfg);
          cfg = (if lc_Burst cfg \<le> 0 then cfg\<lparr>lc_Burst := lc_PerOperatorRPS cfg * 2\<rparr> else cfg) in
      if lc_CleanupPeriod cfg = 0 then cfg\<lparr>lc_CleanupPeriod := 5 * 60 * 1000000000\<rparr> else cfg)"

definition NewRateLimiter :: "('b, 'e, 'r) rate_ops \<Rightarrow> LimiterConfig \<Rightarrow> 'b Limiter" where
  "NewRateLimiter R cfg =
     (let cfg = limiterDefaults cfg in
      \<lparr>li_config = cfg, li_limiters = fmempty, li_global = rt_NewLimiter R (lc_GlobalRPS cfg) (lc_GlobalRPS cfg)\<rparr>)"

definition newEntry :: "('b, 'e, 'r) rate_ops \<Rightarrow> int \<Rightarrow> int \<Rightarrow> int \<Rightarrow> 'b rateLimiterEntry" where
  "newEntry R now limit burst =
     \<lparr>re_limiter = rt_NewLimiter R limit burst, re_lastAccess = now, re_requestCount = 0, re_blockedCount = 0\<rparr>"

definition putEntry :: "'b Limiter \<Rightarrow> string \<Rightarrow> 'b rateLimiterEntry \<Rightarrow> 'b Limiter" where
  "putEntry l operatorID entry = l\<lparr>li_limiters := fmupd operatorID entry (li_limiters l)\<rparr>"

definition getOrCreateLimiter ::
  "('b, 'e, 'r) rate_ops \<Rightarrow> int \<Rightarrow> 'b Limiter \<Rightarrow> string \<Rightarrow> 'b rateLimiterEntry \<times> 'b Limiter" where
  "getOrCreateLimiter R now l operatorID =
     (case fmlookup (li_limiters l) operatorID of
        Some entry \<Rightarrow> (entry, l)
      | None \<Rightarrow>
          (let entry = newEntry R now (lc_PerOperatorRPS (li_config l)) (lc_Burst (li_config l)) in
           (entry, putEntry l operatorID entry)))"

definition Allow :: "('b, 'e, 'r) rate_ops \<Rightarrow> int \<Rightarrow> 'b Limiter \<Rightarrow> string \<Rightarrow> bool \<times> 'b Limiter" where
  "Allow R now l operatorID =
     (let (ok, g) = rt_AllowN R now 1 (li_global l); l = l\<lparr>li_global := g\<rparr> in
      if \<not> ok then (False, l)
      else
        (let (entry, l) = getOrCreateLimiter R now l operatorID;
             (ok, b) = rt_AllowN R now 1 (re_limiter entry);
             entry = entry\<lparr>re_requestCount := re_requestCount entry + 1, re_limiter := b\<rparr> in
         if \<not> ok then (False, putEntry l operatorID (entry\<lparr>re_blockedCount := re_blockedCount entry + 1\<rparr>))
         else (True, putEntry l operatorID (entry\<lparr>re_lastAccess := now\<rparr>))))"

definition AllowN :: "('b, 'e, 'r) rate_ops \<Rightarrow> int \<Rightarrow> 'b Limiter \<Rightarrow> string \<Rightarrow> int \<Rightarrow> bool \<times> 'b Limiter" where
  "AllowN R now l operatorID n =
     (let (ok, g) = rt_AllowN R now n (li_global l); l = l\<lparr>li_global := g\<rparr> in
      if \<not> ok then (False, l)
      else
        (let (entry, l) = getOrCreateLimiter R now l operatorID;
             (ok, b) = rt_AllowN R now n (re_limiter entry);
             entry = entry\<lparr>re_requestCount := re_requestCount entry + of_int n, re_limiter := b\<rparr> in
         if \<not> ok then (False, putEntry l operatorID (entry\<lparr>re_blockedCount := re_blockedCount entry + of_int n\<rparr>))
         else (True, putEntry l operatorID (entry\<lparr>re_lastAccess := now\<rparr>))))"

text \<open>\<open>Wait\<close> blocks until the buckets let the request pass; the global bucket may take until \<open>now'\<close>.\<close>

definition Wait :: "('b, 'e, 'r) rate_ops \<Rightarrow> int \<Rightarrow> int \<Rightarrow> 'b Limiter \<Rightarrow> string \<Rightarrow> 'e option \<times> 'b Limiter" where
  "Wait R now now' l operatorID =
     (let (err, g) = rt_Wait R now (li_global l); l = l\<lparr>li_global := g\<rparr> in
      if err \<noteq> None then (err, l)
      else
        (let (entry, l) = getOrCreateLimiter R now' l operatorID;
             (err, b) = rt_Wait R now' (re_limiter entry) in
         (err, putEntry l operatorID (entry\<lparr>re_requestCount := re_requestCount entry + 1, re_lastAccess := now',
            re_limiter := b\<rparr>))))"

definition Reserve :: "('b, 'e, 'r) rate_ops \<Rightarrow> int \<Rightarrow> 'b Limiter \<Rightarrow> string \<Rightarrow> 'r \<times> 'b Limiter" where
  "Reserve R now l operatorID =
     (let (entry, l) = getOrCreateLimiter R now l operatorID;
          (r, b) = rt_Reserve R now (re_limiter entry) in
      (r, putEntry l operatorID (entry\<lparr>re_requestCount := re_requestCount entry + 1, re_lastAccess := now,
         re_limiter := b\<rparr>)))"

record operator_stats =
  os_request_count :: u64
  os_blocked_count :: u64
  os_last_access :: int
  os_tokens :: float64

record limiter_stats =
  ls_total_operators :: nat
  ls_total_requests :: u64
  ls_total_blocked :: u64
  ls_per_operator_limit :: int
  ls_global_limit :: int
  ls_burst :: int
  ls_global_tokens :: float64
  ls_operators :: "(string \<times> operator_stats) list"

definition entryStats :: "('b, 'e, 'r) rate_ops \<Rightarrow> int \<Rightarrow> 'b rateLimiterEntry \<Rightarrow> operator_stats" where
  "entryStats R now entry =
     \<lparr>os_request_count = re_requestCount entry, os_blocked_count = re_blockedCount entry,
      os_last_access = re_lastAccess entry div 1000000000, os_tokens = rt_Tokens R now (re_limiter entry)\<rparr>"

text \<open>\<open>None\<close> is the answer \<open>exists: false\<close>; the second component holds \<open>limit\<close> and \<open>burst\<close>.\<close>

definition GetOperatorStats ::
  "('b, 'e, 'r) rate_ops \<Rightarrow> int \<Rightarrow> 'b Limiter \<Rightarrow> string \<Rightarrow> (operator_stats \<times> int \<times> int) option" where
  "GetOperatorStats R now l operatorID =
     map_option (\<lambda>entry. (entryStats R now entry, lc_PerOperatorRPS (li_config l), lc_Burst (li_config l)))
       (fmlookup (li_limiters l) operatorID)"

text \<open>The entries in the order \<open>ids\<close> of the map iteration.\<close>

definition entriesOf :: "string list \<Rightarrow> 'b Limiter \<Rightarrow> (string \<times> 'b rateLimiterEntry) list" where
  "entriesOf ids l = List.map_filter (\<lambda>i. map_option (Pair i) (fmlookup (li_limiters l) i)) ids"

definition GetAllStats :: "('b, 'e, 'r) rate_ops \<Rightarrow> int \<Rightarrow> string list \<Rightarrow> 'b Limiter \<Rightarrow> limiter_stats" where
  "GetAllStats R now ids l =
     \<lparr>ls_total_operators = fcard (fmdom (li_limiters l)),
      ls_total_requests = sum_list (map (\<lambda>(i, e). re_requestCount e) (entriesOf ids l)),
      ls_total_blocked = sum_list (map (\<lambda>(i, e). re_blockedCount e) (entriesOf ids l)),
      ls_per_operator_limit = lc_PerOperatorRPS (li_config l), ls_global_limit = lc_GlobalRPS (li_config l),
      ls_burst = lc_Burst (li_config l), ls_global_tokens = rt_Tokens R now (li_global l),
      ls_operators = map (\<lambda>(i, e). (i, entryStats R now e)) (entriesOf ids l)\<rparr>"

definition UpdateLimits :: "('b, 'e, 'r) rate_ops \<Rightarrow> int \<Rightarrow> 'b Limiter \<Rightarrow> int \<Rightarrow> int \<Rightarrow> 'b Limiter" where
  "UpdateLimits R now l perOperatorRPS globalRPS =
     (let cfg = (li_config l)\<lparr>lc_PerOperatorRPS := perOperatorRPS, lc_GlobalRPS := globalRPS\<rparr> in
      l\<lparr>li_config := cfg,
        li_global := rt_SetBurst R now globalRPS (rt_SetLimit R now globalRPS (li_global l)),
        li_limiters := fmmap (\<lambda>entry. entry\<lparr>re_limiter :=
          rt_SetBurst R now (lc_Burst cfg) (rt_SetLimit R now perOperatorRPS (re_limiter entry))\<rparr>) (li_limiters l)\<rparr>)"

definition RemoveOperator :: "'b Limiter \<Rightarrow> string \<Rightarrow> 'b Limiter" where
  "RemoveOperator l operatorID = l\<lparr>li_limiters := fmdrop operatorID (li_limiters l)\<rparr>"

definition inactiveThreshold :: int where
  "inactiveThreshold = 30 * 60 * 1000000000"

definition cleanup :: "int \<Rightarrow> 'b Limiter \<Rightarrow> 'b Limiter" where
  "cleanup now l =
     l\<lparr>li_limiters := fmfilter (\<lambda>operatorID. \<not> (case fmlookup (li_limiters l) operatorID of
        None \<Rightarrow> False | Some entry \<Rightarrow> now - re_lastAccess entry > inactiveThreshold)) (li_limiters l)\<rparr>"

definition GetOperatorCount :: "'b Limiter \<Rightarrow> nat" where
  "GetOperatorCount l = fcard (fmdom (li_limiters l))"

definition IsOperatorLimited :: "('b, 'e, 'r) rate_ops \<Rightarrow> int \<Rightarrow> 'b Limiter \<Rightarrow> string \<Rightarrow> bool" where
  "IsOperatorLimited R now l operatorID =
     (case fmlookup (li_limiters l) operatorID of
        None \<Rightarrow> False
      | Some entry \<Rightarrow> rt_Tokens R now (re_limiter entry) < 1)"

definition GetBlockedOperators :: "('b, 'e, 'r) rate_ops \<Rightarrow> int \<Rightarrow> string list \<Rightarrow> 'b Limiter \<Rightarrow> string list" where
  "GetBlockedOperators R now ids l =
     map fst (filter (\<lambda>(i, entry). rt_Tokens R now (re_limiter entry) < 1) (entriesOf ids l))"

definition ResetOperator :: "('b, 'e, 'r) rate_ops \<Rightarrow> 'b Limiter \<Rightarrow> string \<Rightarrow> 'b Limiter" where
  "ResetOperator R l operatorID =
     (case fmlookup (li_limiters l) operatorID of
        None \<Rightarrow> l
      | Some entry \<Rightarrow> putEntry l operatorID (entry\<lparr>re_requestCount := 0, re_blockedCount := 0,
          re_limiter := rt_NewLimiter R (lc_PerOperatorRPS (li_config l)) (lc_Burst (li_config l))\<rparr>))"

definition SetOperatorLimit :: "('b, 'e, 'r) rate_ops \<Rightarrow> int \<Rightarrow> 'b Limiter \<Rightarrow> string \<Rightarrow> int \<Rightarrow> 'b Limiter" where
  "SetOperatorLimit R now l operatorID rps =
     (case fmlookup (li_limiters l) operatorID of
        None \<Rightarrow> putEntry l operatorID (newEntry R now rps (rps * 2))
      | Some entry \<Rightarrow> putEntry l operatorID (entry\<lparr>re_limiter :=
          rt_SetBurst R now (rps * 2) (rt_SetLimit R now rps (re_limiter entry))\<rparr>))"

section \<open>Token buckets\<close>

text \<open>
  What the documentation of \<open>golang.org/x/time/rate\<close> promises: a bucket of size \<open>bst\<close>, initially
  full and refilled with \<open>rps\<close> tokens per second, from which \<open>AllowN\<close> takes \<open>n\<close> tokens if they
  are there; a bucket with limit and burst 0 lets nothing pass. \<open>tokens l t\<close> is the level of the
  bucket at time \<open>t\<close>, and \<open>valid l t\<close> says that the bucket was not used after \<open>t\<close>. Rounding of the
  level is ignored.
\<close>

definition bucket_contract ::
  "('b, 'e, 'r) rate_ops \<Rightarrow> ('b \<Rightarrow> int) \<Rightarrow> ('b \<Rightarrow> int) \<Rightarrow> ('b \<Rightarrow> int \<Rightarrow> rat) \<Rightarrow> ('b \<Rightarrow> int \<Rightarrow> bool) \<Rightarrow> bool" where
  "bucket_contract R rps bst tokens valid \<longleftrightarrow>
     (\<forall>r b t. 0 \<le> r \<longrightarrow> 0 \<le> b \<longrightarrow> rps (rt_NewLimiter R r b) = r \<and> bst (rt_NewLimiter R r b) = b \<and>
        tokens (rt_NewLimiter R r b) t = of_int b \<and> valid (rt_NewLimiter R r b) t) \<and>
     (\<forall>l t n ok l'. 0 \<le> n \<longrightarrow> 0 < rps l \<longrightarrow> valid l t \<longrightarrow> rt_AllowN R t n l = (ok, l') \<longrightarrow>
        rps l' = rps l \<and> bst l' = bst l \<and> valid l' t \<and>
        (ok \<longleftrightarrow> of_int n \<le> tokens l t) \<and> tokens l' t = tokens l t - (if ok then of_int n else 0)) \<and>
     (\<forall>l t n ok l'. 1 \<le> n \<longrightarrow> rps l = 0 \<longrightarrow> bst l = 0 \<longrightarrow> rt_AllowN R t n l = (ok, l') \<longrightarrow>
        \<not> ok \<and> rps l' = 0 \<and> bst l' = 0) \<and>
     (\<forall>l t t'. t \<le> t' \<longrightarrow> 0 < rps l \<longrightarrow> valid l t \<longrightarrow> valid l t' \<and>
        tokens l t' = min (of_int (bst l)) (tokens l t + of_int (rps l) * of_int (t' - t) / 1000000000)) \<and>
     (\<forall>l t r. 0 \<le> r \<longrightarrow> rps (rt_SetLimit R t r l) = r \<and> bst (rt_SetLimit R t r l) = bst l) \<and>
     (\<forall>l t b. 0 \<le> b \<longrightarrow> bst (rt_SetBurst R t b l) = b \<and> rps (rt_SetBurst R t b l) = rps l)"

lemma bucket_new:
  assumes "bucket_contract R rps bst tokens valid" and "0 \<le> r" and "0 \<le> b"
  shows "rps (rt_NewLimiter R r b) = r \<and>
    bst (rt_NewLimiter R r b) = b \<and>
    tokens (rt_NewLimiter R r b) t = of_int b \<and> valid (rt_NewLimiter R r b) t"
  using assms unfolding bucket_contract_def by (elim conjE) metis

lemma bucket_allow:
  assumes "bucket_contract R rps bst tokens valid" and "0 \<le> n" and "0 < rps l" and "valid l t" and "rt_AllowN R t n l = (ok, l')"
  shows "rps l' = rps l \<and> bst l' = bst l \<and> valid l' t \<and>
    (ok \<longleftrightarrow> of_int n \<le> tokens l t) \<and>
    tokens l' t = tokens l t - (if ok then of_int n else 0)"
  using assms unfolding bucket_contract_def by (elim conjE) metis

lemma bucket_zero:
  assumes "bucket_contract R rps bst tokens valid" and "1 \<le> n" and "rps l = 0" and "bst l = 0"
    and "rt_AllowN R t n l = (ok, l')"
  shows "\<not> ok \<and>
    rps l' = 0 \<and>
    bst l' = 0"
  using assms unfolding bucket_contract_def by (elim conjE) metis

lemma bucket_refill:
  assumes "bucket_contract R rps bst tokens valid" and "t \<le> t'" and "0 < rps l" and "valid l t"
  shows "valid l t' \<and> tokens l t' = min (of_int (bst l)) (tokens l t + of_int (rps l) * of_int (t' - t) / 1000000000)"
  using assms unfolding bucket_contract_def by (elim conjE) metis

lemma bucket_set:
  assumes "bucket_contract R rps bst tokens valid" and "0 \<le> r"
  shows "rps (rt_SetLimit R t r l) = r \<and>
    bst (rt_SetLimit R t r l) = bst l \<and>
    bst (rt_SetBurst R t r l) = r \<and>
    rps (rt_SetBurst R t r l) = rps l"
  using assms unfolding bucket_contract_def by (elim conjE) metis

section \<open>Sequences of requests\<close>

datatype limiter_event = Request int string int | Sweep int

fun event_time :: "limiter_event \<Rightarrow> int" where
  "event_time (Request t operatorID n) = t"
| "event_time (Sweep t) = t"

fun event_valid :: "limiter_event \<Rightarrow> bool" where
  "event_valid (Request t operatorID n) \<longleftrightarrow> 0 \<le> n"
| "event_valid (Sweep t) \<longleftrightarrow> True"

fun limiter_step :: "('b, 'e, 'r) rate_ops \<Rightarrow> limiter_event \<Rightarrow> 'b Limiter \<Rightarrow> bool \<times> 'b Limiter" where
  "limiter_step R (Request t operatorID n) l = AllowN R t l operatorID n"
| "limiter_step R (Sweep t) l = (False, cleanup t l)"

text \<open>How many requests of the operators in \<open>P\<close> an event lets pass.\<close>

fun gain :: "('b, 'e, 'r) rate_ops \<Rightarrow> (string \<Rightarrow> bool) \<Rightarrow> limiter_event \<Rightarrow> 'b Limiter \<Rightarrow> int" where
  "gain R P (Request t operatorID n) l = (if P operatorID \<and> fst (AllowN R t l operatorID n) then n else 0)"
| "gain R P (Sweep t) l = 0"

fun admitted :: "('b, 'e, 'r) rate_ops \<Rightarrow> (string \<Rightarrow> bool) \<Rightarrow> limiter_event list \<Rightarrow> 'b Limiter \<Rightarrow> int" where
  "admitted R P [] l = 0"
| "admitted R P (ev # evs) l = gain R P ev l + admitted R P evs (snd (limiter_step R ev l))"

text \<open>Events in order of time, starting at \<open>t\<close> or later.\<close>

fun timed :: "int \<Rightarrow> limiter_event list \<Rightarrow> bool" where
  "timed t [] \<longleftrightarrow> True"
| "timed t (ev # evs) \<longleftrightarrow> t \<le> event_time ev \<and> event_valid ev \<and> timed (event_time ev) evs"

text \<open>
  The level of a bucket as a potential: if every event lets pass at most what it takes out of the
  potential, and the potential grows by at most \<open>r\<close> per second, then the sum is bounded.
\<close>

lemma admitted_by_potential:
  fixes potential :: "int \<Rightarrow> 'b Limiter \<Rightarrow> rat"
  assumes step: "\<And>ev l t. I t l \<Longrightarrow> t \<le> event_time ev \<Longrightarrow> event_valid ev \<Longrightarrow>
      I (event_time ev) (snd (limiter_step R ev l)) \<and>
      of_int (gain R P ev l) + potential (event_time ev) (snd (limiter_step R ev l)) \<le>
        potential t l + r * of_int (event_time ev - t) / 1000000000"
    and pos: "\<And>t l. I t l \<Longrightarrow> 0 \<le> potential t l" and r: "0 \<le> r"
  shows "I t l \<Longrightarrow> timed t evs \<Longrightarrow> \<forall>ev \<in> set evs. event_time ev \<le> t1 \<Longrightarrow> t \<le> t1 \<Longrightarrow>
    of_int (admitted R P evs l) \<le> potential t l + r * of_int (t1 - t) / 1000000000"
proof (induction evs arbitrary: t l)
  case Nil
  have "0 \<le> r * of_int (t1 - t) / 1000000000" using r Nil.prems(4) by simp
  then show ?case using pos [OF Nil.prems(1)] by simp
next
  case (Cons ev evs)
  let ?t = "event_time ev" and ?l = "snd (limiter_step R ev l)"
  have t: "t \<le> ?t" "event_valid ev" "timed ?t evs" "?t \<le> t1" using Cons.prems by auto
  note s = step [OF Cons.prems(1) t(1,2)]
  have "of_int (admitted R P evs ?l) \<le> potential ?t ?l + r * of_int (t1 - ?t) / 1000000000"
    using Cons.IH [of ?t ?l] s t Cons.prems(3) by simp
  moreover have "r * of_int (?t - t) / 1000000000 + r * of_int (t1 - ?t) / 1000000000 = r * of_int (t1 - t) / 1000000000"
    by (simp add: field_simps)
  ultimately show ?case using s by simp
qed

lemma putEntry_simps [simp]:
  "putEntry (putEntry l i e) i e' = putEntry l i e'" "li_config (putEntry l i e) = li_config l"
  "li_global (putEntry l i e) = li_global l" "fmlookup (li_limiters (putEntry l i e)) j = (if i = j then Some e else fmlookup (li_limiters l) j)"
  by (simp_all add: putEntry_def)

text \<open>The entry a request works on, and the three ways a request can end.\<close>

definition entryFor :: "('b, 'e, 'r) rate_ops \<Rightarrow> int \<Rightarrow> 'b Limiter \<Rightarrow> string \<Rightarrow> 'b rateLimiterEntry" where
  "entryFor R now l operatorID = fst (getOrCreateLimiter R now l operatorID)"

lemma AllowN_cases:
  obtains (rejected_globally) g where "rt_AllowN R t n (li_global l) = (False, g)" "AllowN R t l i n = (False, l\<lparr>li_global := g\<rparr>)"
  | (decided) g ok b e where "rt_AllowN R t n (li_global l) = (True, g)"
      "rt_AllowN R t n (re_limiter (entryFor R t l i)) = (ok, b)" "re_limiter e = b"
      "re_lastAccess e = (if ok then t else re_lastAccess (entryFor R t l i))"
      "AllowN R t l i n = (ok, putEntry (l\<lparr>li_global := g\<rparr>) i e)"
proof (cases "rt_AllowN R t n (li_global l)")
  case (Pair ok g)
  show thesis
  proof (cases ok)
    case False
    with Pair rejected_globally show thesis by (simp add: AllowN_def)
  next
    case True
    let ?l = "l\<lparr>li_global := g\<rparr>" and ?e = "entryFor R t l i"
    obtain ok' b where b: "rt_AllowN R t n (re_limiter ?e) = (ok', b)" by fastforce
    let ?e1 = "?e\<lparr>re_requestCount := re_requestCount ?e + of_int n, re_limiter := b\<rparr>"
    obtain l1 where l1: "getOrCreateLimiter R t ?l i = (?e, l1)" "\<And>e. putEntry l1 i e = putEntry ?l i e"
      by (cases "fmlookup (li_limiters l) i") (auto simp: getOrCreateLimiter_def entryFor_def Let_def)
    show thesis
    proof (rule decided [of g ok' b "if ok' then ?e1\<lparr>re_lastAccess := t\<rparr>
          else ?e1\<lparr>re_blockedCount := re_blockedCount ?e1 + of_int n\<rparr>"])
      show "AllowN R t l i n = (ok', putEntry ?l i (if ok' then ?e1\<lparr>re_lastAccess := t\<rparr>
          else ?e1\<lparr>re_blockedCount := re_blockedCount ?e1 + of_int n\<rparr>))"
        using Pair True b l1 by (simp add: AllowN_def Let_def)
    qed (use Pair True b in simp_all)
  qed
qed

lemma Allow_eq_AllowN: "Allow R now l i = AllowN R now l i 1"
  by (simp only: Allow_def AllowN_def of_int_1)

section \<open>Rates\<close>

text \<open>
  An entry with the configured limits: since the last admitted request at \<open>re_lastAccess\<close> the bucket
  has been refilling.
\<close>

definition entry_ok ::
  "('b \<Rightarrow> int) \<Rightarrow> ('b \<Rightarrow> int) \<Rightarrow> ('b \<Rightarrow> int \<Rightarrow> rat) \<Rightarrow> ('b \<Rightarrow> int \<Rightarrow> bool) \<Rightarrow> LimiterConfig \<Rightarrow> int \<Rightarrow> 'b rateLimiterEntry \<Rightarrow> bool" where
  "entry_ok rps bst tokens valid cfg t e \<longleftrightarrow>
     rps (re_limiter e) = lc_PerOperatorRPS cfg \<and> bst (re_limiter e) = lc_Burst cfg \<and> valid (re_limiter e) t \<and> re_lastAccess e \<le> t \<and>
     min (of_int (lc_Burst cfg)) (of_int (lc_PerOperatorRPS cfg) * of_int (t - re_lastAccess e) / 1000000000)
       \<le> tokens (re_limiter e) t"

definition limiter_ok ::
  "('b \<Rightarrow> int) \<Rightarrow> ('b \<Rightarrow> int) \<Rightarrow> ('b \<Rightarrow> int \<Rightarrow> rat) \<Rightarrow> ('b \<Rightarrow> int \<Rightarrow> bool) \<Rightarrow> LimiterConfig \<Rightarrow> int \<Rightarrow> 'b Limiter \<Rightarrow> bool" where
  "limiter_ok rps bst tokens valid cfg t l \<longleftrightarrow> li_config l = cfg \<and>
     rps (li_global l) = lc_GlobalRPS cfg \<and> bst (li_global l) = lc_GlobalRPS cfg \<and> valid (li_global l) t \<and> 0 \<le> tokens (li_global l) t \<and>
     (\<forall>i e. fmlookup (li_limiters l) i = Some e \<longrightarrow> entry_ok rps bst tokens valid cfg t e)"

text \<open>What the bucket of an operator holds; an operator without one gets a full one.\<close>

definition operator_level :: "('b \<Rightarrow> int \<Rightarrow> rat) \<Rightarrow> string \<Rightarrow> int \<Rightarrow> 'b Limiter \<Rightarrow> rat" where
  "operator_level tokens i t l =
     (case fmlookup (li_limiters l) i of None \<Rightarrow> of_int (lc_Burst (li_config l)) | Some e \<Rightarrow> tokens (re_limiter e) t)"

lemma operator_level_simps [simp]:
  "operator_level tokens j t (putEntry l i e) = (if j = i then tokens (re_limiter e) t else operator_level tokens j t l)"
  "operator_level tokens j t (l\<lparr>li_global := g\<rparr>) = operator_level tokens j t l"
  by (auto simp: operator_level_def putEntry_def split: option.split)

definition config_ok :: "LimiterConfig \<Rightarrow> bool" where
  "config_ok cfg \<longleftrightarrow> 0 < lc_PerOperatorRPS cfg \<and> 0 < lc_GlobalRPS cfg \<and> 0 < lc_Burst cfg"

lemma config_ok_defaults: "config_ok (limiterDefaults cfg)"
  by (auto simp: config_ok_def limiterDefaults_def Let_def)

lemma refill_bounds:
  assumes "bucket_contract R rps bst tokens valid" and "t \<le> t'" and "0 < rps l" and "valid l t"
  shows "tokens l t' \<le> tokens l t + of_int (rps l) * of_int (t' - t) / 1000000000"
    and "tokens l t \<le> of_int (bst l)" and "tokens l t \<le> tokens l t'"
proof -
  have grow: "0 \<le> of_int (rps l) * of_int (t' - t) / (1000000000 :: rat)" using assms(2,3) by simp
  show le: "tokens l t \<le> of_int (bst l)"
    using bucket_refill [OF assms(1) order_refl assms(3,4)] by (simp add: min_def split: if_splits)
  show "tokens l t' \<le> tokens l t + of_int (rps l) * of_int (t' - t) / 1000000000" "tokens l t \<le> tokens l t'"
    using bucket_refill [OF assms] le grow by simp_all
qed

lemma min_shift: "min b x \<le> y \<Longrightarrow> 0 \<le> d \<Longrightarrow> min b (x + d) \<le> min b (y + d)" for b :: rat
  by (auto simp: min_def split: if_splits)

lemma entry_ok_advance:
  assumes "bucket_contract R rps bst tokens valid" and "config_ok cfg" and "entry_ok rps bst tokens valid cfg t e" and "t \<le> t'"
  shows "entry_ok rps bst tokens valid cfg t' e"
proof -
  let ?r = "rat_of_int (lc_PerOperatorRPS cfg)" and ?b = "rat_of_int (lc_Burst cfg)" and ?a = "re_lastAccess e"
  have e: "rps (re_limiter e) = lc_PerOperatorRPS cfg" "bst (re_limiter e) = lc_Burst cfg" "?a \<le> t" "valid (re_limiter e) t"
    "min ?b (?r * of_int (t - ?a) / 1000000000) \<le> tokens (re_limiter e) t"
    using assms(3) by (simp_all add: entry_ok_def)
  have "0 < rps (re_limiter e)" using assms(2) e by (simp add: config_ok_def)
  then have fill: "valid (re_limiter e) t' \<and> tokens (re_limiter e) t' = min ?b (tokens (re_limiter e) t + ?r * of_int (t' - t) / 1000000000)"
    using bucket_refill [OF assms(1,4)] e by simp
  have "?r * of_int (t' - ?a) / 1000000000 = ?r * of_int (t - ?a) / 1000000000 + ?r * of_int (t' - t) / 1000000000"
    by (simp add: field_simps)
  moreover have "0 \<le> ?r * of_int (t' - t) / 1000000000" using assms(2,4) by (simp add: config_ok_def)
  ultimately have "min ?b (?r * of_int (t' - ?a) / 1000000000) \<le> tokens (re_limiter e) t'"
    using fill e(5) min_shift [of ?b "?r * of_int (t - ?a) / 1000000000" "tokens (re_limiter e) t" "?r * of_int (t' - t) / 1000000000"]
    by (simp only:)
  then show ?thesis using e fill assms(4) by (simp add: entry_ok_def)
qed

lemma entry_ok_nonneg: "config_ok cfg \<Longrightarrow> entry_ok rps bst tokens valid cfg t e \<Longrightarrow> 0 \<le> tokens (re_limiter e) t"
  by (auto simp: entry_ok_def config_ok_def min_def elim!: order_trans [rotated])

lemma limiter_ok_advance:
  assumes "bucket_contract R rps bst tokens valid" and "config_ok cfg" and "limiter_ok rps bst tokens valid cfg t l" and "t \<le> t'"
  shows "limiter_ok rps bst tokens valid cfg t' l"
proof -
  have g: "0 < rps (li_global l)" "valid (li_global l) t" "0 \<le> tokens (li_global l) t" using assms(2,3) by (simp_all add: limiter_ok_def config_ok_def)
  have "valid (li_global l) t'" "0 \<le> tokens (li_global l) t'"
    using bucket_refill [OF assms(1,4) g(1,2)] refill_bounds(3) [OF assms(1,4) g(1,2)] g(3) by simp_all
  then show ?thesis using assms(3) entry_ok_advance [OF assms(1,2) _ assms(4)] by (simp add: limiter_ok_def)
qed

lemma limiter_ok_new: "bucket_contract R rps bst tokens valid \<Longrightarrow> limiter_ok rps bst tokens valid (limiterDefaults cfg) t (NewRateLimiter R cfg)"
  using bucket_new [of R rps bst tokens valid "lc_GlobalRPS (limiterDefaults cfg)" "lc_GlobalRPS (limiterDefaults cfg)" t] config_ok_defaults [of cfg]
  by (simp add: limiter_ok_def NewRateLimiter_def Let_def config_ok_def)

text \<open>The entry a request works on has the configured limits and the level of its operator.\<close>

lemma entryFor_ok:
  assumes "bucket_contract R rps bst tokens valid" and "config_ok cfg" and "limiter_ok rps bst tokens valid cfg t l"
  shows "entry_ok rps bst tokens valid cfg t (entryFor R t l i)"
    and "tokens (re_limiter (entryFor R t l i)) t = operator_level tokens i t l"
proof -
  let ?b = "rt_NewLimiter R (lc_PerOperatorRPS cfg) (lc_Burst cfg)"
  have new: "rps ?b = lc_PerOperatorRPS cfg \<and> bst ?b = lc_Burst cfg \<and> tokens ?b t = of_int (lc_Burst cfg) \<and> valid ?b t"
    using bucket_new [OF assms(1)] assms(2) by (simp add: config_ok_def)
  have cfg: "li_config l = cfg" "\<And>e. fmlookup (li_limiters l) i = Some e \<Longrightarrow> entry_ok rps bst tokens valid cfg t e"
    using assms(3) by (simp_all add: limiter_ok_def)
  show "entry_ok rps bst tokens valid cfg t (entryFor R t l i)"
    using new cfg assms(2)
    by (auto simp: entryFor_def getOrCreateLimiter_def newEntry_def Let_def entry_ok_def config_ok_def split: option.split)
  show "tokens (re_limiter (entryFor R t l i)) t = operator_level tokens i t l"
    using new cfg(1) by (auto simp: entryFor_def getOrCreateLimiter_def newEntry_def Let_def operator_level_def split: option.split)
qed

text \<open>A request keeps the invariant and takes what it admits out of both buckets.\<close>

lemma request_keeps:
  assumes "bucket_contract R rps bst tokens valid" and "config_ok cfg" and "limiter_ok rps bst tokens valid cfg t l" and "0 \<le> n"
  shows "limiter_ok rps bst tokens valid cfg t (snd (AllowN R t l i n)) \<and>
    (if fst (AllowN R t l i n) then of_int n else 0) + tokens (li_global (snd (AllowN R t l i n))) t \<le> tokens (li_global l) t \<and>
    (if j = i \<and> fst (AllowN R t l i n) then of_int n else 0) + operator_level tokens j t (snd (AllowN R t l i n))
      \<le> operator_level tokens j t l"
proof (cases rule: AllowN_cases [of R t n l i])
  case (rejected_globally g)
  have "0 < rps (li_global l)" "valid (li_global l) t" using assms(2,3) by (simp_all add: limiter_ok_def config_ok_def)
  moreover have "operator_level tokens j t (l\<lparr>li_global := g\<rparr>) = operator_level tokens j t l"
    by simp
  ultimately show ?thesis
    using bucket_allow [OF assms(1,4) _ _ rejected_globally(1)] rejected_globally(2) assms(3) by (simp add: limiter_ok_def)
next
  case (decided g ok b e)
  let ?e = "entryFor R t l i"
  have "0 < rps (li_global l)" "valid (li_global l) t" using assms(2,3) by (simp_all add: limiter_ok_def config_ok_def)
  note G = bucket_allow [OF assms(1,4) this decided(1)]
  note E = entryFor_ok [OF assms(1-3), of i]
  have pos: "0 < rps (re_limiter ?e)" "valid (re_limiter ?e) t" "0 \<le> tokens (re_limiter ?e) t"
    using E(1) assms(2) entry_ok_nonneg [OF assms(2) E(1)] by (simp_all add: entry_ok_def config_ok_def)
  note B = bucket_allow [OF assms(1,4) pos(1,2) decided(2)]
  have "0 \<le> tokens b t" using B pos(3) by (auto split: if_splits)
  then have e: "entry_ok rps bst tokens valid cfg t e"
    using E(1) B decided(3,4) assms(2) by (cases ok) (auto simp: entry_ok_def config_ok_def)
  have lvl: "operator_level tokens j t (putEntry (l\<lparr>li_global := g\<rparr>) i e) =
      (if j = i then operator_level tokens i t l - (if ok then of_int n else 0) else operator_level tokens j t l)"
    using B E(2) decided(3) by auto
  have "limiter_ok rps bst tokens valid cfg t (putEntry (l\<lparr>li_global := g\<rparr>) i e)"
    using assms(3) G e by (auto simp: limiter_ok_def)
  then show ?thesis using decided(5) G assms(4) lvl by auto
qed

text \<open>
  A sweep removes only entries whose bucket is full again, when half an hour is enough to fill it.
\<close>

lemma sweep_keeps:
  assumes "bucket_contract R rps bst tokens valid" and "config_ok cfg" and "limiter_ok rps bst tokens valid cfg t l"
    and "lc_Burst cfg \<le> 1800 * lc_PerOperatorRPS cfg"
  shows "limiter_ok rps bst tokens valid cfg t (cleanup t l) \<and> operator_level tokens j t (cleanup t l) \<le> operator_level tokens j t l"
proof -
  have "of_int (lc_Burst cfg) \<le> tokens (re_limiter e) t"
    if e: "fmlookup (li_limiters l) j = Some e" "inactiveThreshold < t - re_lastAccess e" for e
  proof -
    let ?r = "rat_of_int (lc_PerOperatorRPS cfg)"
    have "1800 \<le> rat_of_int (t - re_lastAccess e) / 1000000000" using e(2) by (simp add: inactiveThreshold_def)
    then have "?r * 1800 \<le> ?r * (rat_of_int (t - re_lastAccess e) / 1000000000)"
      using assms(2) by (intro mult_left_mono) (simp_all add: config_ok_def)
    moreover have "rat_of_int (lc_Burst cfg) \<le> ?r * 1800"
      using assms(4) of_int_le_iff [of "lc_Burst cfg" "1800 * lc_PerOperatorRPS cfg", where 'a = rat] by simp
    ultimately have "rat_of_int (lc_Burst cfg) \<le> ?r * of_int (t - re_lastAccess e) / 1000000000" by simp
    then show ?thesis using assms(3) e(1) unfolding limiter_ok_def entry_ok_def by (metis min_absorb1)
  qed
  then show ?thesis
    using assms(3) by (auto simp: limiter_ok_def cleanup_def operator_level_def split: option.split)
qed

lemma operator_level_advance:
  assumes "bucket_contract R rps bst tokens valid" and "config_ok cfg" and "limiter_ok rps bst tokens valid cfg t l" and "t \<le> t'"
  shows "operator_level tokens i t' l \<le> operator_level tokens i t l + rat_of_int (lc_PerOperatorRPS cfg) * of_int (t' - t) / 1000000000"
proof (cases "fmlookup (li_limiters l) i")
  case None
  have "0 \<le> rat_of_int (lc_PerOperatorRPS cfg) * of_int (t' - t) / 1000000000"
    using assms(2,4) by (simp add: config_ok_def)
  then show ?thesis using None by (simp add: operator_level_def)
next
  case (Some e)
  then have "rps (re_limiter e) = lc_PerOperatorRPS cfg" "valid (re_limiter e) t"
    using assms(3) by (simp_all add: limiter_ok_def entry_ok_def)
  then show ?thesis using Some refill_bounds(1) [OF assms(1,4), of "re_limiter e"] assms(2)
    by (simp add: operator_level_def config_ok_def)
qed

lemma operator_level_nonneg:
  assumes "config_ok cfg" and "limiter_ok rps bst tokens valid cfg t l"
  shows "0 \<le> operator_level tokens i t l"
proof (cases "fmlookup (li_limiters l) i")
  case None
  then show ?thesis using assms by (simp add: operator_level_def limiter_ok_def config_ok_def)
next
  case (Some e)
  then have "entry_ok rps bst tokens valid cfg t e" using assms(2) by (simp add: limiter_ok_def)
  then show ?thesis using Some entry_ok_nonneg [OF assms(1)] by (simp add: operator_level_def)
qed

text \<open>One event, and the two bounds of a sequence of events.\<close>

lemma event_keeps:
  assumes "bucket_contract R rps bst tokens valid" and "config_ok cfg" and "lc_Burst cfg \<le> 1800 * lc_PerOperatorRPS cfg"
    and "limiter_ok rps bst tokens valid cfg t l" and "t \<le> event_time ev" and "event_valid ev"
  shows "limiter_ok rps bst tokens valid cfg (event_time ev) (snd (limiter_step R ev l)) \<and>
    of_int (gain R (\<lambda>j. j = i) ev l) + operator_level tokens i (event_time ev) (snd (limiter_step R ev l))
      \<le> operator_level tokens i (event_time ev) l \<and>
    of_int (gain R (\<lambda>j. True) ev l) + tokens (li_global (snd (limiter_step R ev l))) (event_time ev)
      \<le> tokens (li_global l) (event_time ev)"
proof -
  note l = limiter_ok_advance [OF assms(1,2,4,5)]
  show ?thesis
  proof (cases ev)
    case (Request t j n)
    then show ?thesis using request_keeps [OF assms(1,2), of t l n j i] l assms(6) by auto
  next
    case (Sweep t)
    then show ?thesis using sweep_keeps [OF assms(1,2) _ assms(3), of t l i] l by (simp add: cleanup_def)
  qed
qed

lemma operator_bound:
  assumes "bucket_contract R rps bst tokens valid" and "config_ok cfg" and "lc_Burst cfg \<le> 1800 * lc_PerOperatorRPS cfg"
    and "limiter_ok rps bst tokens valid cfg t0 l" and "timed t0 evs" and "\<forall>ev \<in> set evs. event_time ev \<le> t1" and "t0 \<le> t1"
  shows "of_int (admitted R (\<lambda>j. j = i) evs l) \<le>
    operator_level tokens i t0 l + rat_of_int (lc_PerOperatorRPS cfg) * of_int (t1 - t0) / 1000000000"
proof (rule admitted_by_potential [where I = "limiter_ok rps bst tokens valid cfg", OF _ _ _ assms(4-7)])
  fix ev l t assume l: "limiter_ok rps bst tokens valid cfg t l" "t \<le> event_time ev" "event_valid ev"
  note event_keeps [OF assms(1-3) l, of i]
  then show "limiter_ok rps bst tokens valid cfg (event_time ev) (snd (limiter_step R ev l)) \<and>
    of_int (gain R (\<lambda>j. j = i) ev l) + operator_level tokens i (event_time ev) (snd (limiter_step R ev l))
      \<le> operator_level tokens i t l + rat_of_int (lc_PerOperatorRPS cfg) * of_int (event_time ev - t) / 1000000000"
    using operator_level_advance [OF assms(1,2) l(1,2), of i] by auto
qed (use assms(2) in \<open>auto simp: config_ok_def intro: operator_level_nonneg [OF assms(2)]\<close>)

lemma global_bound:
  assumes "bucket_contract R rps bst tokens valid" and "config_ok cfg" and "lc_Burst cfg \<le> 1800 * lc_PerOperatorRPS cfg"
    and "limiter_ok rps bst tokens valid cfg t0 l" and "timed t0 evs" and "\<forall>ev \<in> set evs. event_time ev \<le> t1" and "t0 \<le> t1"
  shows "of_int (admitted R (\<lambda>j. True) evs l) \<le>
    tokens (li_global l) t0 + rat_of_int (lc_GlobalRPS cfg) * of_int (t1 - t0) / 1000000000"
proof (rule admitted_by_potential [where I = "limiter_ok rps bst tokens valid cfg" and potential = "\<lambda>t l. tokens (li_global l) t",
      OF _ _ _ assms(4-7)])
  fix ev l t assume l: "limiter_ok rps bst tokens valid cfg t l" "t \<le> event_time ev" "event_valid ev"
  have g: "rps (li_global l) = lc_GlobalRPS cfg" "0 < rps (li_global l)" "valid (li_global l) t"
    using l(1) assms(2) by (simp_all add: limiter_ok_def config_ok_def)
  note event_keeps [OF assms(1-3) l, of "[]"]
  then show "limiter_ok rps bst tokens valid cfg (event_time ev) (snd (limiter_step R ev l)) \<and>
    of_int (gain R (\<lambda>j. True) ev l) + tokens (li_global (snd (limiter_step R ev l))) (event_time ev)
      \<le> tokens (li_global l) t + rat_of_int (lc_GlobalRPS cfg) * of_int (event_time ev - t) / 1000000000"
    using refill_bounds(1) [OF assms(1) l(2) g(2,3)] g(1) by auto
qed (use assms(2) in \<open>auto simp: limiter_ok_def config_ok_def\<close>)

lemma new_levels:
  assumes "bucket_contract R rps bst tokens valid"
  shows "operator_level tokens i t (NewRateLimiter R cfg) = of_int (lc_Burst (limiterDefaults cfg)) \<and>
    tokens (li_global (NewRateLimiter R cfg)) t = of_int (lc_GlobalRPS (limiterDefaults cfg))"
  using bucket_new [OF assms] config_ok_defaults [of cfg]
  by (simp add: operator_level_def NewRateLimiter_def Let_def config_ok_def)

section \<open>Properties\<close>


text \<open>A token bucket that keeps the contract: limit, burst, level at the last use, and its time.\<close>

type_synonym ex_bucket = "int \<times> int \<times> rat \<times> int option"

fun ex_tokens :: "ex_bucket \<Rightarrow> int \<Rightarrow> rat" where
  "ex_tokens (r, b, k, None) t = of_int b"
| "ex_tokens (r, b, k, Some s) t = min (of_int b) (k + of_int r * of_int (t - s) / 1000000000)"

fun ex_valid :: "ex_bucket \<Rightarrow> int \<Rightarrow> bool" where
  "ex_valid (r, b, k, s) t \<longleftrightarrow> (case s of None \<Rightarrow> True | Some u \<Rightarrow> u \<le> t)"

definition ex_rate :: "(ex_bucket, unit, unit) rate_ops" where
  "ex_rate =
     \<lparr>rt_NewLimiter = \<lambda>r b. (r, b, 0, None),
      rt_AllowN = \<lambda>t n l. (let k = ex_tokens l t in
        (of_int n \<le> k, (fst l, fst (snd l), if of_int n \<le> k then k - of_int n else k, Some t))),
      rt_Wait = \<lambda>t l. (None, l), rt_Reserve = \<lambda>t l. ((), l), rt_Tokens = \<lambda>t l. ex_tokens l t,
      rt_SetLimit = \<lambda>t r l. (r, fst (snd l), ex_tokens l t, Some t),
      rt_SetBurst = \<lambda>t b l. (fst l, b, ex_tokens l t, Some t)\<rparr>"

lemma ex_tokens_le: "ex_tokens l t \<le> of_int (fst (snd l))"
  by (cases "(l, t)" rule: ex_tokens.cases) simp_all

lemma min_refill: "0 \<le> d \<Longrightarrow> min b (x + d) = min b (min b x + d)" for b :: rat
  by (simp add: min_def)

lemma ex_refill:
  assumes "t \<le> t'" and "0 < fst l"
  shows "ex_tokens l t' = min (of_int (fst (snd l))) (ex_tokens l t + of_int (fst l) * of_int (t' - t) / 1000000000)"
proof (cases "(l, t)" rule: ex_tokens.cases)
  case (2 r b k s t'')
  have "0 \<le> of_int r * of_int (t' - t) / (1000000000 :: rat)" using assms 2 by simp
  moreover have "k + of_int r * of_int (t' - s) / 1000000000 =
      (k + of_int r * of_int (t - s) / 1000000000) + of_int r * of_int (t' - t) / 1000000000"
    by (simp add: field_simps)
  moreover note min_refill [of "of_int r * of_int (t' - t) / 1000000000" "of_int b" "k + of_int r * of_int (t - s) / 1000000000"]
  ultimately show ?thesis using 2 by (simp only: ex_tokens.simps fst_conv snd_conv prod.inject)
next
  case (1 r b k t'')
  have "0 \<le> of_int r * of_int (t' - t) / (1000000000 :: rat)" using assms 1 by simp
  then show ?thesis using 1 by simp
qed

lemma ex_rate_contract: "bucket_contract ex_rate fst (\<lambda>l. fst (snd l)) ex_tokens ex_valid"
  unfolding bucket_contract_def
proof (intro conjI allI impI)
  fix l :: ex_bucket and t n ok l'
  assume n: "1 \<le> n" "fst l = 0" "fst (snd l) = 0" "rt_AllowN ex_rate t n l = (ok, l')"
  have "\<not> rat_of_int n \<le> ex_tokens l t" using ex_tokens_le [of l t] n(1,3) of_int_le_iff [of 1 n, where 'a = rat] by simp
  with n show "\<not> ok" "fst l' = 0" "fst (snd l') = 0" by (auto simp: ex_rate_def Let_def)
next
  fix l :: ex_bucket and t n ok l'
  assume n: "0 \<le> n" "0 < fst l" "ex_valid l t" "rt_AllowN ex_rate t n l = (ok, l')"
  then show "fst l' = fst l" "fst (snd l') = fst (snd l)" "ex_valid l' t" "ok \<longleftrightarrow> rat_of_int n \<le> ex_tokens l t"
    by (auto simp: ex_rate_def Let_def)
  show "ex_tokens l' t = ex_tokens l t - (if ok then of_int n else 0)"
    using n ex_tokens_le [of l t] by (auto simp: ex_rate_def Let_def min_def)
next
  fix l :: ex_bucket and t t' :: int
  assume "t \<le> t'" "0 < fst l" "ex_valid l t"
  then show "ex_valid l t'" by (cases l) (auto split: option.splits)
next
  fix l :: ex_bucket and t t' :: int
  assume "t \<le> t'" "0 < fst l"
  then show "ex_tokens l t' = min (of_int (fst (snd l))) (ex_tokens l t + of_int (fst l) * of_int (t' - t) / 1000000000)"
    by (rule ex_refill)
qed (simp_all add: ex_rate_def)


fun limiter_run :: "('b, 'e, 'r) rate_ops \<Rightarrow> limiter_event list \<Rightarrow> 'b Limiter \<Rightarrow> 'b Limiter" where
  "limiter_run R [] l = l"
| "limiter_run R (ev # evs) l = limiter_run R evs (snd (limiter_step R ev l))"

text \<open>Requests of one operator at one time use up the global bucket, admitted or not.\<close>

lemma flood_drains_global:
  assumes "bucket_contract R rps bst tokens valid" and "config_ok cfg"
  shows "limiter_ok rps bst tokens valid cfg t l \<Longrightarrow> of_nat k \<le> tokens (li_global l) t \<Longrightarrow>
    limiter_ok rps bst tokens valid cfg t (limiter_run R (replicate k (Request t i 1)) l) \<and>
    tokens (li_global (limiter_run R (replicate k (Request t i 1)) l)) t = tokens (li_global l) t - of_nat k"
proof (induction k arbitrary: l)
  case (Suc k)
  have g: "0 < rps (li_global l)" "valid (li_global l) t"
    using Suc.prems(1) assms(2) by (simp_all add: limiter_ok_def config_ok_def)
  let ?l = "snd (AllowN R t l i 1)"
  have keep: "limiter_ok rps bst tokens valid cfg t ?l" using request_keeps [OF assms Suc.prems(1)] by simp
  have "tokens (li_global ?l) t = tokens (li_global l) t - 1"
  proof (cases rule: AllowN_cases [of R t 1 l i])
    case (rejected_globally g')
    then show ?thesis using bucket_allow [OF assms(1) _ g rejected_globally(1)] Suc.prems(2) by simp
  next
    case (decided g' ok b e)
    then show ?thesis using bucket_allow [OF assms(1) _ g decided(1)] by simp
  qed
  with Suc.IH [OF keep] Suc.prems(2) show ?case by (simp add: algebra_simps)
qed simp

text \<open>
  One operator can shut out all others. Every request takes a token from the global bucket
  before the operator's own bucket is asked, and keeps it when the request is then rejected. After
  \<open>GlobalRPS\<close> requests of one operator at one moment, of which at most \<open>Burst\<close> were admitted, the
  requests of every operator are rejected.
\<close>

theorem one_operator_starves_others:
  assumes "bucket_contract R rps bst tokens valid"
    and "lc_Burst (limiterDefaults cfg) \<le> 1800 * lc_PerOperatorRPS (limiterDefaults cfg)"
  shows "admitted R (\<lambda>j. j = noisy) (replicate (nat (lc_GlobalRPS (limiterDefaults cfg))) (Request t noisy 1)) (NewRateLimiter R cfg)
      \<le> lc_Burst (limiterDefaults cfg) \<and>
    \<not> fst (Allow R t (limiter_run R (replicate (nat (lc_GlobalRPS (limiterDefaults cfg))) (Request t noisy 1))
        (NewRateLimiter R cfg)) victim)"
proof -
  let ?c = "limiterDefaults cfg" and ?l = "NewRateLimiter R cfg"
  let ?k = "nat (lc_GlobalRPS ?c)"
  let ?l' = "limiter_run R (replicate ?k (Request t noisy 1)) ?l"
  note cfg = config_ok_defaults [of cfg]
  have timed: "timed t (replicate k (Request t noisy 1))" for k by (induction k) auto
  have "rat_of_int (admitted R (\<lambda>j. j = noisy) (replicate ?k (Request t noisy 1)) ?l) \<le> of_int (lc_Burst ?c)"
    using operator_bound [OF assms(1) cfg assms(2) limiter_ok_new [OF assms(1)] timed, where ?t1.0 = t and i = noisy] new_levels [OF assms(1)]
    by simp
  moreover have "limiter_ok rps bst tokens valid ?c t ?l'" "tokens (li_global ?l') t = 0"
    using flood_drains_global [OF assms(1) cfg limiter_ok_new [OF assms(1)], of ?k t noisy] new_levels [OF assms(1)] cfg
    by (simp_all add: config_ok_def)
  moreover obtain ok g where g: "rt_AllowN R t 1 (li_global ?l') = (ok, g)" by fastforce
  moreover have "0 < rps (li_global ?l')" "valid (li_global ?l') t"
    using cfg calculation(2) by (simp_all add: limiter_ok_def config_ok_def)
  ultimately show ?thesis using bucket_allow [OF assms(1) _ _ _ g] by (simp add: Allow_def)
qed

theorem one_operator_starves_others_witness:
  "\<not> fst (Allow ex_rate 0 (limiter_run ex_rate (replicate 10 (Request 0 ''noisy'' 1))
     (NewRateLimiter ex_rate \<lparr>lc_PerOperatorRPS = 1, lc_GlobalRPS = 10, lc_Burst = 2, lc_CleanupPeriod = 1\<rparr>)) ''victim'')"
  using one_operator_starves_others [OF ex_rate_contract, where t = 0 and noisy = "''noisy''" and victim = "''victim''" and
      cfg = "\<lparr>lc_PerOperatorRPS = 1, lc_GlobalRPS = 10, lc_Burst = 2, lc_CleanupPeriod = 1\<rparr>"]
  by (simp add: limiterDefaults_def Let_def)

text \<open>
  An operator that was locked out with \<open>SetOperatorLimit(id, 0)\<close> comes back by itself. Its
  requests are rejected and leave \<open>lastAccess\<close> alone, so after half an hour the cleanup takes it for
  inactive and drops its entry with the custom limit; the next request gets a fresh bucket with the
  default limits.
\<close>

definition locked_out :: "('b \<Rightarrow> int) \<Rightarrow> ('b \<Rightarrow> int) \<Rightarrow> LimiterConfig \<Rightarrow> int \<Rightarrow> string \<Rightarrow> 'b Limiter \<Rightarrow> bool" where
  "locked_out rps bst cfg t i l \<longleftrightarrow> li_config l = cfg \<and>
     (\<exists>e. fmlookup (li_limiters l) i = Some e \<and> rps (re_limiter e) = 0 \<and> bst (re_limiter e) = 0 \<and> re_lastAccess e \<le> t)"

lemma locked_out_request:
  assumes "bucket_contract R rps bst tokens valid" and "locked_out rps bst cfg t0 i l" and "1 \<le> n"
  shows "\<not> fst (AllowN R t l i n) \<and> locked_out rps bst cfg t0 i (snd (AllowN R t l i n))"
proof (cases rule: AllowN_cases [of R t n l i])
  case (rejected_globally g)
  then show ?thesis using assms(2) by (simp add: locked_out_def)
next
  case (decided g ok b e)
  obtain e0 where e0: "fmlookup (li_limiters l) i = Some e0" "rps (re_limiter e0) = 0" "bst (re_limiter e0) = 0"
    "re_lastAccess e0 \<le> t0" "li_config l = cfg"
    using assms(2) by (auto simp: locked_out_def)
  then have "entryFor R t l i = e0" by (simp add: entryFor_def getOrCreateLimiter_def)
  with decided e0 bucket_zero [OF assms(1,3), of "re_limiter e0" t ok b] show ?thesis
    by (auto simp: locked_out_def)
qed

lemma locked_out_run:
  assumes "bucket_contract R rps bst tokens valid"
  shows "locked_out rps bst cfg t0 i l \<Longrightarrow>
    admitted R (\<lambda>j. True) (map (\<lambda>(t, n). Request t i (1 + int n)) calls) l = 0 \<and>
    locked_out rps bst cfg t0 i (limiter_run R (map (\<lambda>(t, n). Request t i (1 + int n)) calls) l)"
proof (induction calls arbitrary: l)
  case (Cons c calls)
  obtain t n where c: "c = (t, n)" by fastforce
  from locked_out_request [OF assms Cons.prems, of "1 + int n" t] Cons.IH c show ?case by simp
qed simp

lemma locked_out_start:
  assumes "bucket_contract R rps bst tokens valid"
    and "\<And>e. fmlookup (li_limiters l) i = Some e \<Longrightarrow> re_lastAccess e \<le> t0"
  shows "locked_out rps bst (li_config l) t0 i (SetOperatorLimit R t0 l i 0)"
  using bucket_new [OF assms(1), of 0 0 t0] bucket_set [OF assms(1), of 0 t0] assms(2)
  by (auto simp: SetOperatorLimit_def locked_out_def newEntry_def split: option.split)

theorem banned_operator_returns:
  assumes "bucket_contract R rps bst tokens valid" and "0 < lc_PerOperatorRPS (li_config l)" and "0 < lc_Burst (li_config l)"
    and "\<forall>e. fmlookup (li_limiters l) operatorID = Some e \<longrightarrow> re_lastAccess e \<le> t0"
    and "t0 + inactiveThreshold < t1"
    and "fst (rt_AllowN R t1 1 (li_global (cleanup t1 (limiter_run R
        (map (\<lambda>(t, n). Request t operatorID (1 + int n)) calls) (SetOperatorLimit R t0 l operatorID 0)))))"
  shows "admitted R (\<lambda>j. True) (map (\<lambda>(t, n). Request t operatorID (1 + int n)) calls) (SetOperatorLimit R t0 l operatorID 0) = 0 \<and>
    fst (Allow R t1 (cleanup t1 (limiter_run R (map (\<lambda>(t, n). Request t operatorID (1 + int n)) calls)
      (SetOperatorLimit R t0 l operatorID 0))) operatorID)"
proof -
  let ?l1 = "limiter_run R (map (\<lambda>(t, n). Request t operatorID (1 + int n)) calls) (SetOperatorLimit R t0 l operatorID 0)"
  let ?b = "rt_NewLimiter R (lc_PerOperatorRPS (li_config l)) (lc_Burst (li_config l))"
  note run = locked_out_run [OF assms(1) locked_out_start [OF assms(1)], of l operatorID t0 calls]
  then have l1: "locked_out rps bst (li_config l) t0 operatorID ?l1" using assms(4) by simp
  then have none: "fmlookup (li_limiters (cleanup t1 ?l1)) operatorID = None" "li_config (cleanup t1 ?l1) = li_config l"
    using assms(5) by (auto simp: locked_out_def cleanup_def)
  obtain ok b where b: "rt_AllowN R t1 1 ?b = (ok, b)" by fastforce
  then have "ok" using bucket_new [OF assms(1), of "lc_PerOperatorRPS (li_config l)" "lc_Burst (li_config l)" t1]
      bucket_allow [OF assms(1) _ _ _ b] assms(2,3) by simp
  moreover obtain g where "rt_AllowN R t1 1 (li_global (cleanup t1 ?l1)) = (True, g)"
    using assms(6) by (cases "rt_AllowN R t1 1 (li_global (cleanup t1 ?l1))") simp
  ultimately have "fst (Allow R t1 (cleanup t1 ?l1) operatorID)"
    using b none by (simp add: Allow_def getOrCreateLimiter_def newEntry_def Let_def)
  with run assms(4) show ?thesis by simp
qed

theorem banned_operator_returns_witness:
  "fst (Allow ex_rate 2000000000000 (cleanup 2000000000000 (limiter_run ex_rate
      (map (\<lambda>(t, n). Request t ''op'' (1 + int n)) [(1000000000, 0), (1900000000000, 2)])
      (SetOperatorLimit ex_rate 0 (NewRateLimiter ex_rate \<lparr>lc_PerOperatorRPS = 1, lc_GlobalRPS = 10, lc_Burst = 2,
        lc_CleanupPeriod = 1\<rparr>) ''op'' 0))) ''op'')"
proof -
  let ?l = "NewRateLimiter ex_rate \<lparr>lc_PerOperatorRPS = 1, lc_GlobalRPS = 10, lc_Burst = 2, lc_CleanupPeriod = 1\<rparr>"
  let ?l0 = "SetOperatorLimit ex_rate 0 ?l ''op'' 0"
  let ?calls = "[(1000000000, 0), (1900000000000, 2)]"
  let ?l2 = "cleanup 2000000000000 (limiter_run ex_rate (map (\<lambda>(t, n). Request t ''op'' (1 + int n)) ?calls) ?l0)"
  have "fst (rt_AllowN ex_rate 2000000000000 1 (li_global ?l2))"
    by (simp add: NewRateLimiter_def limiterDefaults_def SetOperatorLimit_def AllowN_def cleanup_def ex_rate_def
        getOrCreateLimiter_def newEntry_def putEntry_def Let_def)
  from banned_operator_returns [OF ex_rate_contract _ _ _ _ this] show ?thesis
    by (simp add: NewRateLimiter_def limiterDefaults_def Let_def inactiveThreshold_def)
qed

text \<open>Reloading the limits replaces custom limits as well.\<close>

lemma update_overrides_custom_limit:
  assumes "bucket_contract R rps bst tokens valid" and "0 \<le> r" and "0 \<le> lc_Burst (li_config l)"
    and "fmlookup (li_limiters (UpdateLimits R now l r g)) i = Some e"
  shows "rps (re_limiter e) = r \<and> bst (re_limiter e) = lc_Burst (li_config l)"
  using assms(4) bucket_set [OF assms(1)] assms(2,3) by (auto simp: UpdateLimits_def Let_def)

end
