(* ===== verification/Http_Auth.thy ===== *)
theory Http_Auth
  imports Rate_Limiter Go_Strings
begin

text \<open>
  \<open>pkg/auth/jwt.go\<close> and \<open>pkg/auth/middleware.go\<close>: token claims, roles and the HTTP middleware. A
  handler maps a state and a request to a response and the new state, and a middleware is a function
  on handlers. What a handler writes to its \<open>ResponseWriter\<close> is the response: headers set by a
  middleware before it calls the next handler are overridden by the same headers set there.
  \<open>now\<close> is the time in nanoseconds. The text of an error response leaves out the detail of the error
  it reports. Signing and parsing of tokens is \<open>golang-jwt\<close>, a parameter.
\<close>

section \<open>Tokens\<close>

text \<open>The times of the registered claims are in seconds.\<close>

record Claims =
  ct_UserID :: string
  ct_Roles :: "string list"
  ct_ExpiresAt :: "int option"
  ct_IssuedAt :: "int option"
  ct_NotBefore :: "int option"
  ct_Issuer :: string

record JWTManager =
  jm_secret :: bytes
  jm_tokenTTL :: int
  jm_issuer :: string

datatype signing_method = HMAC string | OtherMethod string

datatype jwt_error = UnexpectedSigningMethod string | JWTLibraryError string

datatype auth_error = SignTokenFailed jwt_error | ParseTokenFailed jwt_error | InvalidTokenClaims

text \<open>
  The library: \<open>jw_Sign secret claims\<close> is \<open>NewWithClaims(SigningMethodHS256, claims).SignedString\<close>;
  \<open>jw_Parse\<close> is \<open>ParseWithClaims\<close> at a time, which asks the function it is given for the key and
  returns the claims and the field \<open>Valid\<close> of the token.
\<close>

record jwt_env =
  jw_Sign :: "bytes \<Rightarrow> Claims \<Rightarrow> (jwt_error, string) outcome"
  jw_Parse :: "int \<Rightarrow> string \<Rightarrow> (signing_method \<Rightarrow> (jwt_error, bytes) outcome) \<Rightarrow> (jwt_error, Claims \<times> bool) outcome"

definition RoleAdmin :: string where "RoleAdmin = ''admin''"
definition RoleReader :: string where "RoleReader = ''reader''"
definition RoleValidator :: string where "RoleValidator = ''validator''"
definition RoleWriter :: string where "RoleWriter = ''writer''"

definition NewJWTManager :: "string \<Rightarrow> int \<Rightarrow> string \<Rightarrow> JWTManager" where
  "NewJWTManager secret tokenTTL issuer = \<lparr>jm_secret = string_bytes secret, jm_tokenTTL = tokenTTL, jm_issuer = issuer\<rparr>"

text \<open>\<open>NewNumericDate\<close> keeps whole seconds.\<close>

definition GenerateToken :: "jwt_env \<Rightarrow> int \<Rightarrow> JWTManager \<Rightarrow> string \<Rightarrow> string list \<Rightarrow> (auth_error, string) outcome" where
  "GenerateToken J now m userID roles =
     (let claims = \<lparr>ct_UserID = userID, ct_Roles = roles, ct_ExpiresAt = Some ((now + jm_tokenTTL m) div 1000000000),
            ct_IssuedAt = Some (now div 1000000000), ct_NotBefore = Some (now div 1000000000), ct_Issuer = jm_issuer m\<rparr> in
      wrap_error SignTokenFailed (jw_Sign J (jm_secret m) claims))"

definition keyFunction :: "JWTManager \<Rightarrow> signing_method \<Rightarrow> (jwt_error, bytes) outcome" where
  "keyFunction m method =
     (case method of HMAC _ \<Rightarrow> Ok (jm_secret m) | OtherMethod alg \<Rightarrow> Err (UnexpectedSigningMethod alg))"

definition ValidateToken :: "jwt_env \<Rightarrow> int \<Rightarrow> JWTManager \<Rightarrow> string \<Rightarrow> (auth_error, Claims) outcome" where
  "ValidateToken J now m tokenString =
     bind_outcome (wrap_error ParseTokenFailed (jw_Parse J now tokenString (keyFunction m))) (\<lambda>(claims, valid).
     if \<not> valid then Err InvalidTokenClaims else Ok claims)"

fun HasRole :: "Claims \<Rightarrow> string \<Rightarrow> bool" where
  "HasRole c role = list_ex (\<lambda>r. r = role) (ct_Roles c)"

fun HasAnyRole :: "Claims \<Rightarrow> string list \<Rightarrow> bool" where
  "HasAnyRole c roles = list_ex (HasRole c) roles"

definition IsAdmin :: "Claims \<Rightarrow> bool" where
  "IsAdmin c = HasRole c ''admin''"

section \<open>Requests and handlers\<close>

text \<open>
  \<open>rq_Header\<close> is \<open>r.Header.Get\<close>, the empty string for a missing header; \<open>rq_Claims\<close> is the value of the
  request context under \<open>ClaimsContextKey\<close>.
\<close>

record 'i http_request =
  rq_Method :: string
  rq_Path :: string
  rq_Header :: "string \<Rightarrow> string"
  rq_RemoteAddr :: string
  rq_Body :: 'i
  rq_Claims :: "Claims option"

datatype 'o http_body = TextBody string | JSONBody 'o | NoBody

record 'o http_response =
  rs_Status :: nat
  rs_Header :: "string \<rightharpoonup> string"
  rs_Body :: "'o http_body"

type_synonym ('s, 'i, 'o) handler = "'s \<Rightarrow> 'i http_request \<Rightarrow> 'o http_response \<times> 's"

definition http_Error :: "string \<Rightarrow> nat \<Rightarrow> 'o http_response" where
  "http_Error message code =
     \<lparr>rs_Status = code, rs_Header = [''Content-Type'' \<mapsto> ''text/plain; charset=utf-8''], rs_Body = TextBody message\<rparr>"

definition StatusOK :: nat where "StatusOK = 200"
definition StatusUnauthorized :: nat where "StatusUnauthorized = 401"
definition StatusForbidden :: nat where "StatusForbidden = 403"
definition StatusTooManyRequests :: nat where "StatusTooManyRequests = 429"

section \<open>Middleware\<close>

text \<open>The token of a header \<open>Bearer token\<close>.\<close>

definition bearerToken :: "string \<Rightarrow> string option" where
  "bearerToken authHeader =
     (case SplitN2 CHR '' '' authHeader of
        [scheme, token] \<Rightarrow> if scheme = ''Bearer'' then Some token else None
      | _ \<Rightarrow> None)"

definition AuthMiddleware :: "jwt_env \<Rightarrow> int \<Rightarrow> JWTManager \<Rightarrow> ('s, 'i, 'o) handler \<Rightarrow> ('s, 'i, 'o) handler" where
  "AuthMiddleware J now m next s r =
     (let authHeader = rq_Header r ''Authorization'' in
      if authHeader = '''' then (http_Error ''missing authorization header'' StatusUnauthorized, s)
      else
        (case bearerToken authHeader of
           None \<Rightarrow> (http_Error ''invalid authorization header format'' StatusUnauthorized, s)
         | Some tokenString \<Rightarrow>
             (case ValidateToken J now m tokenString of
                Ok claims \<Rightarrow> next s (r\<lparr>rq_Claims := Some claims\<rparr>)
              | _ \<Rightarrow> (http_Error ''invalid token'' StatusUnauthorized, s))))"

definition OptionalAuthMiddleware ::
  "jwt_env \<Rightarrow> int \<Rightarrow> JWTManager \<Rightarrow> ('s, 'i, 'o) handler \<Rightarrow> ('s, 'i, 'o) handler" where
  "OptionalAuthMiddleware J now m next s r =
     (let authHeader = rq_Header r ''Authorization'' in
      next s
        (if authHeader \<noteq> '''' then
           (case bearerToken authHeader of
              Some token \<Rightarrow> (case ValidateToken J now m token of Ok claims \<Rightarrow> r\<lparr>rq_Claims := Some claims\<rparr> | _ \<Rightarrow> r)
            | None \<Rightarrow> r)
         else r))"

definition GetClaims :: "'i http_request \<Rightarrow> Claims option" where
  "GetClaims r = rq_Claims r"

definition RequireRoleMiddleware :: "string list \<Rightarrow> ('s, 'i, 'o) handler \<Rightarrow> ('s, 'i, 'o) handler" where
  "RequireRoleMiddleware roles next s r =
     (case GetClaims r of
        None \<Rightarrow> (http_Error ''unauthorized'' StatusUnauthorized, s)
      | Some claims \<Rightarrow>
          if \<not> HasAnyRole claims roles then (http_Error ''forbidden: insufficient permissions'' StatusForbidden, s)
          else next s r)"

text \<open>
  A single bucket for all requests; \<open>get\<close> and \<open>put\<close> are its place in the state. The bucket starts as
  \<open>rate.NewLimiter(rps, rps*2)\<close>.
\<close>

definition RateLimitMiddleware ::
  "('b, 'e, 'r) rate_ops \<Rightarrow> int \<Rightarrow> ('s \<Rightarrow> 'b) \<Rightarrow> ('b \<Rightarrow> 's \<Rightarrow> 's) \<Rightarrow> ('s, 'i, 'o) handler \<Rightarrow> ('s, 'i, 'o) handler" where
  "RateLimitMiddleware R now get put next s r =
     (let (ok, limiter) = rt_AllowN R now 1 (get s); s = put limiter s in
      if \<not> ok then (http_Error ''rate limit exceeded'' StatusTooManyRequests, s) else next s r)"

record 'b PerIPRateLimiter =
  ip_limiters :: "(string, 'b) fmap"
  ip_rate :: int
  ip_burst :: int
  ip_cleanup :: int

definition NewPerIPRateLimiter :: "int \<Rightarrow> int \<Rightarrow> int \<Rightarrow> 'b PerIPRateLimiter" where
  "NewPerIPRateLimiter requestsPerSecond burst cleanupInterval =
     \<lparr>ip_limiters = fmempty, ip_rate = requestsPerSecond, ip_burst = burst, ip_cleanup = cleanupInterval\<rparr>"

definition GetLimiter :: "('b, 'e, 'r) rate_ops \<Rightarrow> 'b PerIPRateLimiter \<Rightarrow> string \<Rightarrow> 'b \<times> 'b PerIPRateLimiter" where
  "GetLimiter R l ip =
     (case fmlookup (ip_limiters l) ip of
        Some limiter \<Rightarrow> (limiter, l)
      | None \<Rightarrow>
          (let limiter = rt_NewLimiter R (ip_rate l) (ip_burst l) in
           (limiter, l\<lparr>ip_limiters := fmupd ip limiter (ip_limiters l)\<rparr>)))"

text \<open>One tick of \<open>cleanupLoop\<close>.\<close>

definition cleanupTick :: "'b PerIPRateLimiter \<Rightarrow> 'b PerIPRateLimiter" where
  "cleanupTick l = l\<lparr>ip_limiters := fmempty\<rparr>"

definition getClientIP :: "'i http_request \<Rightarrow> string" where
  "getClientIP r =
     (let forwarded = rq_Header r ''X-Forwarded-For'' in
      if forwarded \<noteq> '''' then TrimSpace (hd (Split CHR '','' forwarded))
      else
        (let realIP = rq_Header r ''X-Real-IP'' in
         if realIP \<noteq> '''' then realIP
         else beforeLast CHR '':'' (rq_RemoteAddr r)))"

definition PerIPMiddleware ::
  "('b, 'e, 'r) rate_ops \<Rightarrow> int \<Rightarrow> ('s \<Rightarrow> 'b PerIPRateLimiter) \<Rightarrow> ('b PerIPRateLimiter \<Rightarrow> 's \<Rightarrow> 's) \<Rightarrow>
   ('s, 'i, 'o) handler \<Rightarrow> ('s, 'i, 'o) handler" where
  "PerIPMiddleware R now get put next s r =
     (let ip = getClientIP r;
          (limiter, l) = GetLimiter R (get s) ip;
          (ok, limiter) = rt_AllowN R now 1 limiter;
          s = put (l\<lparr>ip_limiters := fmupd ip limiter (ip_limiters l)\<rparr>) s in
      if \<not> ok then (http_Error ''rate limit exceeded'' StatusTooManyRequests, s) else next s r)"

definition corsAllowed :: "string list \<Rightarrow> string \<Rightarrow> string option" where
  "corsAllowed allowedOrigins origin =
     (if length allowedOrigins = 0 \<or> (length allowedOrigins = 1 \<and> allowedOrigins ! 0 = ''*'') then Some ''*''
      else if list_ex (\<lambda>a. a = origin) allowedOrigins then Some origin
      else None)"

definition corsHeaders :: "string list \<Rightarrow> bool \<Rightarrow> string \<Rightarrow> string \<rightharpoonup> string" where
  "corsHeaders allowedOrigins allowCredentials origin =
     (case corsAllowed allowedOrigins origin of
        None \<Rightarrow> Map.empty
      | Some origin \<Rightarrow>
          [''Access-Control-Allow-Origin'' \<mapsto> origin,
           ''Access-Control-Allow-Methods'' \<mapsto> ''GET, POST, PUT, DELETE, OPTIONS'',
           ''Access-Control-Allow-Headers'' \<mapsto> ''Accept, Content-Type, Content-Length, Accept-Encoding, Authorization'']
          ++ (if allowCredentials then [''Access-Control-Allow-Credentials'' \<mapsto> ''true''] else Map.empty))"

definition CORSMiddleware :: "string list \<Rightarrow> bool \<Rightarrow> ('s, 'i, 'o) handler \<Rightarrow> ('s, 'i, 'o) handler" where
  "CORSMiddleware allowedOrigins allowCredentials next s r =
     (let headers = corsHeaders allowedOrigins allowCredentials (rq_Header r ''Origin'') in
      if rq_Method r = ''OPTIONS'' then (\<lparr>rs_Status = StatusOK, rs_Header = headers, rs_Body = NoBody\<rparr>, s)
      else (case next s r of (resp, s) \<Rightarrow> (resp\<lparr>rs_Header := headers ++ rs_Header resp\<rparr>, s)))"

text \<open>The log keeps method, path and the status the wrapped writer has seen; \<open>put\<close> appends an entry.\<close>

type_synonym log_entry = "string \<times> string \<times> nat"

definition LoggingMiddleware :: "(log_entry \<Rightarrow> 's \<Rightarrow> 's) \<Rightarrow> ('s, 'i, 'o) handler \<Rightarrow> ('s, 'i, 'o) handler" where
  "LoggingMiddleware put next s r =
     (case next s r of (resp, s) \<Rightarrow> (resp, put (rq_Method r, rq_Path r, rs_Status resp) s))"

section \<open>Tokens round trip\<close>

text \<open>
  What the documentation of \<open>golang-jwt\<close> promises of the two calls: a token that parses as valid was
  signed with the key the key function returned, and its claims hold at the time; a token that was
  signed parses, with its claims, exactly at those times. \<open>carries key claims token\<close> says that
  \<open>token\<close> has \<open>claims\<close> as its content and a signature with \<open>key\<close>.
\<close>

definition in_force :: "int \<Rightarrow> Claims \<Rightarrow> bool" where
  "in_force now c \<longleftrightarrow>
     (case ct_NotBefore c of None \<Rightarrow> True | Some t \<Rightarrow> t * 1000000000 \<le> now) \<and>
     (case ct_ExpiresAt c of None \<Rightarrow> True | Some t \<Rightarrow> now < t * 1000000000)"

definition jwt_contract :: "jwt_env \<Rightarrow> (bytes \<Rightarrow> Claims \<Rightarrow> string \<Rightarrow> bool) \<Rightarrow> bool" where
  "jwt_contract J carries \<longleftrightarrow>
     (\<forall>now tok kf c. jw_Parse J now tok kf = Ok (c, True) \<longrightarrow>
        (\<exists>meth key. kf meth = Ok key \<and> carries key c tok) \<and> in_force now c) \<and>
     (\<forall>key c tok. jw_Sign J key c = Ok tok \<longrightarrow> carries key c tok) \<and>
     (\<forall>key c tok now kf. carries key c tok \<longrightarrow> (\<forall>alg. kf (HMAC alg) = Ok key) \<longrightarrow> in_force now c \<longrightarrow>
        jw_Parse J now tok kf = Ok (c, True)) \<and>
     (\<forall>key key' c c' tok. carries key c tok \<longrightarrow> carries key' c' tok \<longrightarrow> c = c')"

lemma ValidateToken_iff:
  assumes "jwt_contract J carries"
  shows "ValidateToken J now m tok = Ok c \<longleftrightarrow> carries (jm_secret m) c tok \<and> in_force now c"
proof
  assume "ValidateToken J now m tok = Ok c"
  then have p: "jw_Parse J now tok (keyFunction m) = Ok (c, True)"
    by (auto simp: ValidateToken_def split: if_splits)
  then obtain meth key where "keyFunction m meth = Ok key" "carries key c tok"
    using assms unfolding jwt_contract_def by metis
  moreover have "in_force now c" using assms p unfolding jwt_contract_def by metis
  ultimately show "carries (jm_secret m) c tok \<and> in_force now c"
    by (auto simp: keyFunction_def split: signing_method.splits)
next
  assume "carries (jm_secret m) c tok \<and> in_force now c"
  moreover have "\<forall>alg. keyFunction m (HMAC alg) = Ok (jm_secret m)" by (simp add: keyFunction_def)
  ultimately have "jw_Parse J now tok (keyFunction m) = Ok (c, True)"
    using assms unfolding jwt_contract_def by metis
  then show "ValidateToken J now m tok = Ok c" by (simp add: ValidateToken_def)
qed

text \<open>The claims of a token issued at \<open>now\<close>.\<close>

definition issued_claims :: "int \<Rightarrow> JWTManager \<Rightarrow> string \<Rightarrow> string list \<Rightarrow> Claims" where
  "issued_claims now m user roles =
     \<lparr>ct_UserID = user, ct_Roles = roles, ct_ExpiresAt = Some ((now + jm_tokenTTL m) div 1000000000),
      ct_IssuedAt = Some (now div 1000000000), ct_NotBefore = Some (now div 1000000000), ct_Issuer = jm_issuer m\<rparr>"

lemma in_force_issued: "in_force now' (issued_claims now m user roles) \<longleftrightarrow>
    now div 1000000000 * 1000000000 \<le> now' \<and> now' < (now + jm_tokenTTL m) div 1000000000 * 1000000000"
  by (simp add: in_force_def issued_claims_def)

lemma ValidateToken_issued:
  assumes "jwt_contract J carries" and "GenerateToken J now m user roles = Ok tok"
  shows "ValidateToken J now' m tok = Ok c \<longleftrightarrow>
    c = issued_claims now m user roles \<and> in_force now' (issued_claims now m user roles)"
proof -
  let ?c = "issued_claims now m user roles"
  have "jw_Sign J (jm_secret m) ?c = Ok tok" using assms(2) by (simp add: GenerateToken_def issued_claims_def Let_def)
  then have tok: "carries (jm_secret m) ?c tok" using assms(1) unfolding jwt_contract_def by metis
  then have "carries (jm_secret m) c tok \<longleftrightarrow> c = ?c" using assms(1) unfolding jwt_contract_def by metis
  then show ?thesis using ValidateToken_iff [OF assms(1)] by auto
qed

text \<open>
  C30. A token the manager issues is accepted by the same manager, with the user and the roles it was
  issued for, from the second it was issued in until the lifetime is over (cut to whole seconds), and
  at no other time.
\<close>

theorem issued_token_lifetime:
  assumes "jwt_contract J carries" and "GenerateToken J now m user roles = Ok tok"
  shows "((\<exists>c. ValidateToken J now' m tok = Ok c) \<longleftrightarrow>
      now div 1000000000 * 1000000000 \<le> now' \<and> now' < (now + jm_tokenTTL m) div 1000000000 * 1000000000) \<and>
    (\<forall>c. ValidateToken J now' m tok = Ok c \<longrightarrow> ct_UserID c = user \<and> ct_Roles c = roles \<and> ct_Issuer c = jm_issuer m)"
  by (simp add: ValidateToken_issued [OF assms] in_force_issued) (simp add: issued_claims_def)

text \<open>A signer that signs the claims \<open>c0\<close> with the key \<open>k0\<close> and nothing else.\<close>

definition ex_jwt :: "bytes \<Rightarrow> Claims \<Rightarrow> jwt_env" where
  "ex_jwt k0 c0 =
     \<lparr>jw_Sign = \<lambda>key c. if key = k0 \<and> c = c0 then Ok ''t'' else Err (JWTLibraryError ''''),
      jw_Parse = \<lambda>now tok kf. if tok = ''t'' \<and> kf (HMAC ''HS256'') = Ok k0 \<and> in_force now c0 then Ok (c0, True)
        else Err (JWTLibraryError '''')\<rparr>"

definition ex_carries :: "bytes \<Rightarrow> Claims \<Rightarrow> bytes \<Rightarrow> Claims \<Rightarrow> string \<Rightarrow> bool" where
  "ex_carries k0 c0 key c tok \<longleftrightarrow> key = k0 \<and> c = c0 \<and> tok = ''t''"

lemma ex_jwt_contract: "jwt_contract (ex_jwt k0 c0) (ex_carries k0 c0)"
  unfolding jwt_contract_def by (auto simp: ex_jwt_def ex_carries_def split: if_splits)

definition ex_jwt_manager :: JWTManager where
  "ex_jwt_manager = NewJWTManager ''s'' 3000000000 ''hypasis-sync''"

lemma ex_token: "GenerateToken (ex_jwt (jm_secret m) (issued_claims now m user roles)) now m user roles = Ok ''t''"
  by (simp add: GenerateToken_def ex_jwt_def issued_claims_def)

theorem issued_token_lifetime_witness:
  "(\<exists>c. ValidateToken (ex_jwt (jm_secret ex_jwt_manager) (issued_claims 1500000000 ex_jwt_manager ''u'' [''writer'']))
      3999999999 ex_jwt_manager ''t'' = Ok c) \<and>
   (\<nexists>c. ValidateToken (ex_jwt (jm_secret ex_jwt_manager) (issued_claims 1500000000 ex_jwt_manager ''u'' [''writer'']))
      4000000000 ex_jwt_manager ''t'' = Ok c)"
  using issued_token_lifetime [OF ex_jwt_contract ex_token, of ex_jwt_manager 1500000000 "''u''" "[''writer'']" 3999999999]
    issued_token_lifetime [OF ex_jwt_contract ex_token, of ex_jwt_manager 1500000000 "''u''" "[''writer'']" 4000000000]
  by (simp add: ex_jwt_manager_def NewJWTManager_def)

section \<open>Bearer tokens\<close>

lemma bearerToken_iff: "bearerToken h = Some tok \<longleftrightarrow> h = ''Bearer '' @ tok"
proof -
  have "bearerToken h = Some tok \<longleftrightarrow> SplitN2 CHR '' '' h = [''Bearer'', tok]"
    by (auto simp: bearerToken_def split: list.splits if_splits)
  then show ?thesis by (simp add: SplitN2_eq)
qed

text \<open>A request passes the middleware exactly with a bearer token that is signed with the secret and in force.\<close>

lemma AuthMiddleware_cases:
  assumes "jwt_contract J carries"
  shows "(\<exists>tok c. rq_Header r ''Authorization'' = ''Bearer '' @ tok \<and> carries (jm_secret m) c tok \<and> in_force now c \<and>
      AuthMiddleware J now m next s r = next s (r\<lparr>rq_Claims := Some c\<rparr>)) \<or>
    (rs_Status (fst (AuthMiddleware J now m next s r)) = StatusUnauthorized \<and> snd (AuthMiddleware J now m next s r) = s)"
proof (cases "bearerToken (rq_Header r ''Authorization'')")
  case None
  then show ?thesis by (simp add: AuthMiddleware_def http_Error_def Let_def)
next
  case (Some tok)
  then have h: "rq_Header r ''Authorization'' = ''Bearer '' @ tok" by (simp add: bearerToken_iff)
  show ?thesis
  proof (cases "ValidateToken J now m tok")
    case (Ok c)
    then have "AuthMiddleware J now m next s r = next s (r\<lparr>rq_Claims := Some c\<rparr>)"
      using h Some by (simp add: AuthMiddleware_def Let_def)
    then show ?thesis using h Ok ValidateToken_iff [OF assms, of now m tok c] by auto
  qed (use h Some in \<open>simp_all add: AuthMiddleware_def http_Error_def Let_def\<close>)
qed

section \<open>Limits per address\<close>

text \<open>The requests of a list are served in order, at their times.\<close>

fun serveAll :: "(int \<Rightarrow> ('s, 'i, 'o) handler) \<Rightarrow> 's \<Rightarrow> (int \<times> 'i http_request) list \<Rightarrow> 'o http_response list" where
  "serveAll h s [] = []"
| "serveAll h s ((now, r) # rs) = (case h now s r of (resp, s) \<Rightarrow> resp # serveAll h s rs)"

text \<open>The per-IP middleware in front of a handler that always answers \<open>resp\<close>.\<close>

definition limited ::
  "('b, 'e, 'r) rate_ops \<Rightarrow> 'o http_response \<Rightarrow> int \<Rightarrow> ('b PerIPRateLimiter, 'i, 'o) handler" where
  "limited R resp now = PerIPMiddleware R now (\<lambda>l. l) (\<lambda>l _. l) (\<lambda>l _. (resp, l))"

definition spoofed :: "'i http_request \<Rightarrow> string \<Rightarrow> 'i http_request" where
  "spoofed r a = r\<lparr>rq_Header := (rq_Header r)(''X-Forwarded-For'' := a)\<rparr>"

lemma TrimSpace_digits: "list_all is_digit s \<Longrightarrow> TrimSpace s = s"
proof -
  assume *: "list_all is_digit s"
  have "dropWhile is_space xs = xs" if "list_all is_digit xs" for xs
    using that by (cases xs) (auto simp: is_digit_not_space)
  from this [OF *] this [of "rev s"] * show ?thesis by (simp add: TrimSpace_def)
qed

lemma getClientIP_spoofed: "getClientIP (spoofed r (decimal k)) = decimal k"
proof -
  have "CHR '','' \<notin> set (decimal k)" using decimal_digits [of k] by (auto simp: list_all_iff is_digit_def)
  then show ?thesis using decimal_digits [of k] by (simp add: getClientIP_def spoofed_def Split_no_sep TrimSpace_digits)
qed

lemma limited_step:
  assumes "bucket_contract R rps bst tokens valid" and "0 < ip_rate l" and "0 \<le> ip_burst l"
    and b0: "b0 = (case fmlookup (ip_limiters l) (getClientIP r) of Some b \<Rightarrow> b | None \<Rightarrow> rt_NewLimiter R (ip_rate l) (ip_burst l))"
    and "rps b0 = ip_rate l" and "valid b0 t"
  obtains b0' where "limited R resp t l r =
      (if 1 \<le> tokens b0 t then resp else http_Error ''rate limit exceeded'' StatusTooManyRequests,
       l\<lparr>ip_limiters := fmupd (getClientIP r) b0' (ip_limiters l)\<rparr>)"
    and "rps b0' = ip_rate l" and "valid b0' t" and "tokens b0' t = tokens b0 t - (if 1 \<le> tokens b0 t then 1 else 0)"
proof -
  obtain ok b0' where a: "rt_AllowN R t 1 b0 = (ok, b0')" by fastforce
  have b: "rps b0' = ip_rate l" "valid b0' t" "ok \<longleftrightarrow> 1 \<le> tokens b0 t" "tokens b0' t = tokens b0 t - (if ok then 1 else 0)"
    using bucket_allow [OF assms(1) _ _ assms(6) a] assms(2,5) by simp_all
  have "limited R resp t l r =
      (if ok then resp else http_Error ''rate limit exceeded'' StatusTooManyRequests,
       l\<lparr>ip_limiters := fmupd (getClientIP r) b0' (ip_limiters l)\<rparr>)"
    using a by (cases "fmlookup (ip_limiters l) (getClientIP r)")
      (simp_all add: b0 limited_def PerIPMiddleware_def GetLimiter_def Let_def)
  then show ?thesis using that b by simp
qed

lemma honest_requests:
  assumes "bucket_contract R rps bst tokens valid"
  shows "0 < ip_rate l \<Longrightarrow> 0 \<le> ip_burst l \<Longrightarrow>
    (case fmlookup (ip_limiters l) (getClientIP r) of Some b \<Rightarrow> b | None \<Rightarrow> rt_NewLimiter R (ip_rate l) (ip_burst l)) = b0 \<Longrightarrow>
    rps b0 = ip_rate l \<Longrightarrow> valid b0 t \<Longrightarrow> tokens b0 t = of_nat k \<Longrightarrow>
    serveAll (limited R resp) l (replicate n (t, r)) =
      replicate (min n k) resp @ replicate (n - k) (http_Error ''rate limit exceeded'' StatusTooManyRequests)"
proof (induction n arbitrary: l b0 k)
  case (Suc n)
  obtain b0' where st: "limited R resp t l r =
      (if 1 \<le> tokens b0 t then resp else http_Error ''rate limit exceeded'' StatusTooManyRequests,
       l\<lparr>ip_limiters := fmupd (getClientIP r) b0' (ip_limiters l)\<rparr>)"
    and l': "rps b0' = ip_rate l" "valid b0' t" "tokens b0' t = tokens b0 t - (if 1 \<le> tokens b0 t then 1 else 0)"
    using limited_step [OF assms Suc.prems(1,2) Suc.prems(3) [symmetric] Suc.prems(4,5)] by blast
  have one: "1 \<le> tokens b0 t \<longleftrightarrow> k \<noteq> 0" using Suc.prems(6) by (cases k) simp_all
  then have "tokens b0' t = of_nat (k - 1)" using l'(3) Suc.prems(6) by (cases k) simp_all
  then show ?case
    using Suc.IH [of "l\<lparr>ip_limiters := fmupd (getClientIP r) b0' (ip_limiters l)\<rparr>" b0' "k - 1"] Suc.prems(1,2) st one l'(1,2)
    by (cases k) simp_all
qed simp

lemma spoofed_requests:
  assumes "bucket_contract R rps bst tokens valid"
  shows "0 < ip_rate l \<Longrightarrow> 0 < ip_burst l \<Longrightarrow> \<forall>k \<ge> m. fmlookup (ip_limiters l) (decimal k) = None \<Longrightarrow>
    serveAll (limited R resp) l (map (\<lambda>k. (t, spoofed r (decimal k))) [m..<m + n]) = replicate n resp"
proof (induction n arbitrary: l m)
  case (Suc n)
  let ?b = "rt_NewLimiter R (ip_rate l) (ip_burst l)"
  have b: "rps ?b = ip_rate l" "valid ?b t" "tokens ?b t = of_int (ip_burst l)"
    using bucket_new [OF assms, of "ip_rate l" "ip_burst l" t] Suc.prems(1,2) by simp_all
  have new: "?b = (case fmlookup (ip_limiters l) (getClientIP (spoofed r (decimal m))) of Some b \<Rightarrow> b | None \<Rightarrow> ?b)"
    using Suc.prems(3) by (simp add: getClientIP_spoofed)
  obtain b0' where st: "limited R resp t l (spoofed r (decimal m)) =
      (if 1 \<le> tokens ?b t then resp else http_Error ''rate limit exceeded'' StatusTooManyRequests,
       l\<lparr>ip_limiters := fmupd (getClientIP (spoofed r (decimal m))) b0' (ip_limiters l)\<rparr>)"
    using limited_step [OF assms Suc.prems(1) less_imp_le [OF Suc.prems(2)] new b(1,2)] by blast
  have one: "(1 :: rat) \<le> of_int (ip_burst l)" using Suc.prems(2) of_int_le_iff [of 1 "ip_burst l", where 'a = rat] by simp
  have "serveAll (limited R resp) (l\<lparr>ip_limiters := fmupd (decimal m) b0' (ip_limiters l)\<rparr>)
      (map (\<lambda>k. (t, spoofed r (decimal k))) [Suc m..<Suc m + n]) = replicate n resp"
    using Suc.prems by (intro Suc.IH) simp_all
  then show ?case using st b(3) one by (simp add: upt_conv_Cons getClientIP_spoofed del: upt_Suc)
qed simp

text \<open>
  Requests that reach the REST server in one instant from one address: without an
  \<open>X-Forwarded-For\<close> header of the client's own the first \<open>burst\<close> of them are served and the others get
  status 429, and with one that is different in every request all of them are served, however many
  they are and however low the limit is.
\<close>

theorem forged_addresses_evade_limit:
  assumes "bucket_contract R rps bst tokens valid" and "0 < rate" and "0 < burst"
  shows "serveAll (limited R resp) (NewPerIPRateLimiter rate burst interval) (replicate n (t, r)) =
      replicate (min n (nat burst)) resp @
      replicate (n - nat burst) (http_Error ''rate limit exceeded'' StatusTooManyRequests) \<and>
    serveAll (limited R resp) (NewPerIPRateLimiter rate burst interval)
      (map (\<lambda>k. (t, spoofed r (decimal k))) [0..<n]) = replicate n resp"
proof -
  let ?l = "NewPerIPRateLimiter rate burst interval :: 'a PerIPRateLimiter"
  have l: "ip_rate ?l = rate" "ip_burst ?l = burst" "ip_limiters ?l = fmempty" by (simp_all add: NewPerIPRateLimiter_def)
  have b: "rps (rt_NewLimiter R rate burst) = rate" "valid (rt_NewLimiter R rate burst) t"
    "tokens (rt_NewLimiter R rate burst) t = of_nat (nat burst)"
    using bucket_new [OF assms(1), of rate burst t] assms(2,3) by simp_all
  show ?thesis
    using honest_requests [OF assms(1), of ?l r _ t "nat burst" resp n] spoofed_requests [OF assms(1), of ?l 0 resp t r n]
      assms(2,3) b by (simp add: l)
qed

definition ex_request :: "string \<Rightarrow> string \<Rightarrow> unit http_request" where
  "ex_request method path =
     \<lparr>rq_Method = method, rq_Path = path, rq_Header = (\<lambda>_. ''''), rq_RemoteAddr = ''10.0.0.1:5000'', rq_Body = (), rq_Claims = None\<rparr>"

theorem forged_addresses_evade_limit_witness:
  "serveAll (limited ex_rate (http_Error ''served'' 200 :: unit http_response)) (NewPerIPRateLimiter 1 2 600000000000)
      (map (\<lambda>k. (0, spoofed (ex_request ''GET'' ''/health'') (decimal k))) [0..<1000]) =
     replicate 1000 (http_Error ''served'' 200) \<and>
   serveAll (limited ex_rate (http_Error ''served'' 200 :: unit http_response)) (NewPerIPRateLimiter 1 2 600000000000)
      (replicate 3 (0, ex_request ''GET'' ''/health'')) =
     [http_Error ''served'' 200, http_Error ''served'' 200, http_Error ''rate limit exceeded'' 429]"
  using forged_addresses_evade_limit [OF ex_rate_contract, of 1 2 "http_Error ''served'' 200 :: unit http_response"
      600000000000 3 0 "ex_request ''GET'' ''/health''"]
    forged_addresses_evade_limit [OF ex_rate_contract, of 1 2 "http_Error ''served'' 200 :: unit http_response"
      600000000000 1000 0 "ex_request ''GET'' ''/health''"]
  by (simp add: numeral_2_eq_2 numeral_3_eq_3 StatusTooManyRequests_def del: upt_Suc)

end
