(* ===== verification/TLS_Setup.thy ===== *)
theory TLS_Setup
  imports Go_Prelude
begin

text \<open>
  \<open>pkg/auth/tls.go\<close>: loading, generating and checking certificates. The operating system's files and
  Go's \<open>crypto\<close> packages are the environment \<open>tls_env\<close>; the code's own part is the order of the steps,
  the fields it fills in, the errors and what is left on disk when a step fails. \<open>now\<close> is the time in
  nanoseconds, read once per call. The progress messages are left out.
\<close>

section \<open>Model\<close>

type_synonym files = "string \<rightharpoonup> bytes"

datatype tls_version = VersionTLS12 | VersionTLS13

datatype cipher_suite =
    TLS_ECDHE_RSA_WITH_AES_256_GCM_SHA384
  | TLS_ECDHE_RSA_WITH_AES_128_GCM_SHA256
  | TLS_ECDHE_ECDSA_WITH_AES_256_GCM_SHA384
  | TLS_ECDHE_ECDSA_WITH_AES_128_GCM_SHA256
  | TLS_AES_256_GCM_SHA384
  | TLS_AES_128_GCM_SHA256
  | TLS_CHACHA20_POLY1305_SHA256

datatype tls_curve = X25519 | CurveP256

record 'c tls_config =
  tc_Certificates :: "'c list"
  tc_MinVersion :: tls_version
  tc_CipherSuites :: "cipher_suite list"
  tc_PreferServerCipherSuites :: bool
  tc_CurvePreferences :: "tls_curve list"
  tc_SessionTicketsDisabled :: bool
  tc_NextProtos :: "string list"

datatype key_usage = KeyUsageKeyEncipherment | KeyUsageDigitalSignature | ExtKeyUsageServerAuth

text \<open>The fields of \<open>x509.Certificate\<close> the code sets or reads; a parsed certificate is one too.\<close>

record x509_certificate =
  xc_SerialNumber :: nat
  xc_Organization :: "string list"
  xc_CommonName :: string
  xc_NotBefore :: int
  xc_NotAfter :: int
  xc_KeyUsages :: "key_usage list"
  xc_BasicConstraintsValid :: bool
  xc_DNSNames :: "string list"

datatype tls_error =
    LoadCertificateFailed string
  | GenerateKeyFailed string
  | GenerateSerialFailed string
  | CreateCertificateFailed string
  | CreateCertFileFailed string
  | WriteCertFailed string
  | CreateKeyFileFailed string
  | MarshalKeyFailed string
  | WriteKeyFailed string
  | ReadCertificateFailed string
  | DecodePEMFailed
  | ParseCertificateFailed string
  | NotYetValid int
  | CertificateExpired int

text \<open>
  The environment: \<open>te_Create\<close> is \<open>os.Create\<close>, \<open>te_OpenFile\<close> is \<open>os.OpenFile\<close> with the flags of the code,
  \<open>te_Write\<close> is the write that \<open>pem.Encode\<close> makes to an open file. They return the files and an error.
\<close>

record ('k, 'c) tls_env =
  te_LoadX509KeyPair :: "files \<Rightarrow> string \<Rightarrow> string \<Rightarrow> (string, 'c) outcome"
  te_GenerateKey :: "(string, 'k) outcome"
  te_RandInt :: "nat \<Rightarrow> (string, nat) outcome"
  te_CreateCertificate :: "x509_certificate \<Rightarrow> 'k \<Rightarrow> (string, bytes) outcome"
  te_MarshalECPrivateKey :: "'k \<Rightarrow> (string, bytes) outcome"
  te_Create :: "files \<Rightarrow> string \<Rightarrow> string option \<times> files"
  te_OpenFile :: "files \<Rightarrow> string \<Rightarrow> string option \<times> files"
  te_Write :: "files \<Rightarrow> string \<Rightarrow> bytes \<Rightarrow> string option \<times> files"
  te_ReadFile :: "files \<Rightarrow> string \<Rightarrow> (string, bytes) outcome"
  te_pemEncode :: "string \<Rightarrow> bytes \<Rightarrow> bytes"
  te_pemDecode :: "bytes \<Rightarrow> bytes option"
  te_ParseCertificate :: "bytes \<Rightarrow> (string, x509_certificate) outcome"

definition LoadTLSConfig :: "('k, 'c) tls_env \<Rightarrow> files \<Rightarrow> string \<Rightarrow> string \<Rightarrow> (tls_error, 'c tls_config) outcome" where
  "LoadTLSConfig E fs certFile keyFile =
     bind_outcome (wrap_error LoadCertificateFailed (te_LoadX509KeyPair E fs certFile keyFile)) (\<lambda>cert.
     Ok \<lparr>tc_Certificates = [cert], tc_MinVersion = VersionTLS12,
         tc_CipherSuites = [TLS_ECDHE_RSA_WITH_AES_256_GCM_SHA384, TLS_ECDHE_RSA_WITH_AES_128_GCM_SHA256,
           TLS_ECDHE_ECDSA_WITH_AES_256_GCM_SHA384, TLS_ECDHE_ECDSA_WITH_AES_128_GCM_SHA256],
         tc_PreferServerCipherSuites = True, tc_CurvePreferences = [], tc_SessionTicketsDisabled = False, tc_NextProtos = []\<rparr>)"

definition certTemplate :: "int \<Rightarrow> nat \<Rightarrow> string list \<Rightarrow> x509_certificate" where
  "certTemplate now serialNumber hosts =
     \<lparr>xc_SerialNumber = serialNumber, xc_Organization = [''Hypasis Sync Protocol''], xc_CommonName = ''localhost'',
      xc_NotBefore = now, xc_NotAfter = now + 365 * 24 * 3600000000000,
      xc_KeyUsages = [KeyUsageKeyEncipherment, KeyUsageDigitalSignature, ExtKeyUsageServerAuth],
      xc_BasicConstraintsValid = True, xc_DNSNames = (if length hosts > 0 then hosts else [''localhost''])\<rparr>"


text \<open>The key file: it is opened (and truncated) before the key is marshalled.\<close>

definition writeKeyFile :: "('k, 'c) tls_env \<Rightarrow> files \<Rightarrow> string \<Rightarrow> 'k \<Rightarrow> (tls_error, unit) outcome \<times> files" where
  "writeKeyFile E fs keyFile privateKey =
     (case te_OpenFile E fs keyFile of
        (Some e, fs) \<Rightarrow> (Err (CreateKeyFileFailed e), fs)
      | (None, fs) \<Rightarrow>
          (case te_MarshalECPrivateKey E privateKey of
             Err e \<Rightarrow> (Err (MarshalKeyFailed e), fs)
           | Panic p \<Rightarrow> (Panic p, fs)
           | Ok privBytes \<Rightarrow>
               (case te_Write E fs keyFile (te_pemEncode E ''EC PRIVATE KEY'' privBytes) of
                  (Some e, fs) \<Rightarrow> (Err (WriteKeyFailed e), fs)
                | (None, fs) \<Rightarrow> (Ok (), fs))))"

definition GenerateSelfSignedCert ::
  "('k, 'c) tls_env \<Rightarrow> int \<Rightarrow> files \<Rightarrow> string \<Rightarrow> string \<Rightarrow> string list \<Rightarrow> (tls_error, unit) outcome \<times> files" where
  "GenerateSelfSignedCert E now fs certFile keyFile hosts =
     (case bind_outcome (wrap_error GenerateKeyFailed (te_GenerateKey E)) (\<lambda>privateKey.
           bind_outcome (wrap_error GenerateSerialFailed (te_RandInt E (2 ^ 128))) (\<lambda>serialNumber.
           bind_outcome (wrap_error CreateCertificateFailed
               (te_CreateCertificate E (certTemplate now serialNumber hosts) privateKey)) (\<lambda>derBytes.
           Ok (privateKey, derBytes)))) of
        Err e \<Rightarrow> (Err e, fs)
      | Panic p \<Rightarrow> (Panic p, fs)
      | Ok (privateKey, derBytes) \<Rightarrow>
          (case te_Create E fs certFile of
             (Some e, fs) \<Rightarrow> (Err (CreateCertFileFailed e), fs)
           | (None, fs) \<Rightarrow>
               (case te_Write E fs certFile (te_pemEncode E ''CERTIFICATE'' derBytes) of
                  (Some e, fs) \<Rightarrow> (Err (WriteCertFailed e), fs)
                | (None, fs) \<Rightarrow> writeKeyFile E fs keyFile privateKey)))"

definition VerifyCertificate :: "('k, 'c) tls_env \<Rightarrow> int \<Rightarrow> files \<Rightarrow> string \<Rightarrow> (tls_error, unit) outcome" where
  "VerifyCertificate E now fs certFile =
     bind_outcome (wrap_error ReadCertificateFailed (te_ReadFile E fs certFile)) (\<lambda>certPEM.
     case te_pemDecode E certPEM of
       None \<Rightarrow> Err DecodePEMFailed
     | Some block \<Rightarrow>
         bind_outcome (wrap_error ParseCertificateFailed (te_ParseCertificate E block)) (\<lambda>cert.
         if now < xc_NotBefore cert then Err (NotYetValid (xc_NotBefore cert))
         else if now > xc_NotAfter cert then Err (CertificateExpired (xc_NotAfter cert))
         else Ok ()))"

definition GetSecureTLSConfig :: "'c \<Rightarrow> 'c tls_config" where
  "GetSecureTLSConfig cert =
     \<lparr>tc_Certificates = [cert], tc_MinVersion = VersionTLS13,
      tc_CipherSuites = [TLS_AES_256_GCM_SHA384, TLS_AES_128_GCM_SHA256, TLS_CHACHA20_POLY1305_SHA256],
      tc_PreferServerCipherSuites = True, tc_CurvePreferences = [X25519, CurveP256],
      tc_SessionTicketsDisabled = False, tc_NextProtos = [''h2'', ''http/1.1'']\<rparr>"

section \<open>Lifetime of a generated certificate\<close>

text \<open>
  What the packages document: opening for writing leaves an empty file and a successful write appends
  to it, other files stay; decoding gives back the encoded block; a parsed certificate has the fields
  of its template, with times cut to whole seconds.
\<close>

definition cut_second :: "int \<Rightarrow> int" where
  "cut_second t = t div 1000000000 * 1000000000"

definition tls_contract :: "('k, 'c) tls_env \<Rightarrow> bool" where
  "tls_contract E \<longleftrightarrow>
     (\<forall>fs f fs'. te_Create E fs f = (None, fs') \<longrightarrow> fs' = fs(f \<mapsto> [])) \<and>
     (\<forall>fs f fs'. te_OpenFile E fs f = (None, fs') \<longrightarrow> fs' = fs(f \<mapsto> [])) \<and>
     (\<forall>fs f e fs'. te_OpenFile E fs f = (Some e, fs') \<longrightarrow> fs' = fs) \<and>
     (\<forall>fs f old new fs'. fs f = Some old \<longrightarrow> te_Write E fs f new = (None, fs') \<longrightarrow> fs' = fs(f \<mapsto> old @ new)) \<and>
     (\<forall>fs f content. fs f = Some content \<longrightarrow> te_ReadFile E fs f = Ok content) \<and>
     (\<forall>kind block. te_pemDecode E (te_pemEncode E kind block) = Some block) \<and>
     (\<forall>c k der. te_CreateCertificate E c k = Ok der \<longrightarrow>
        te_ParseCertificate E der =
          Ok (c\<lparr>xc_NotBefore := cut_second (xc_NotBefore c), xc_NotAfter := cut_second (xc_NotAfter c)\<rparr>))"

lemma tls_open:
  assumes "tls_contract E"
  shows "te_Create E fs f = (None, fs') \<Longrightarrow> fs' = fs(f \<mapsto> [])"
    and "te_OpenFile E fs f = (None, fs') \<Longrightarrow> fs' = fs(f \<mapsto> [])"
    and "te_OpenFile E fs f = (Some e, fs') \<Longrightarrow> fs' = fs"
  using assms unfolding tls_contract_def by simp_all

lemma tls_write:
  assumes "tls_contract E" and "fs f = Some old" and "te_Write E fs f new = (None, fs')"
  shows "fs' = fs(f \<mapsto> old @ new)"
  using assms unfolding tls_contract_def by blast

lemma tls_read:
  assumes "tls_contract E"
  shows "fs f = Some content \<Longrightarrow> te_ReadFile E fs f = Ok content"
    and "te_pemDecode E (te_pemEncode E kind block) = Some block"
    and "te_CreateCertificate E c k = Ok der \<Longrightarrow> te_ParseCertificate E der =
      Ok (c\<lparr>xc_NotBefore := cut_second (xc_NotBefore c), xc_NotAfter := cut_second (xc_NotAfter c)\<rparr>)"
  using assms unfolding tls_contract_def by blast+

lemma generated_files:
  assumes "tls_contract E" and "GenerateSelfSignedCert E now fs certFile keyFile hosts = (Ok (), fs')"
  obtains serial key der priv where "te_CreateCertificate E (certTemplate now serial hosts) key = Ok der"
    and "te_MarshalECPrivateKey E key = Ok priv"
    and "fs' = (let fs1 = fs(certFile \<mapsto> te_pemEncode E ''CERTIFICATE'' der) in
       fs1(keyFile \<mapsto> te_pemEncode E ''EC PRIVATE KEY'' priv))"
proof -
  obtain key serial der fs1 fs2 where d: "te_CreateCertificate E (certTemplate now serial hosts) key = Ok der"
    and w: "te_Create E fs certFile = (None, fs1)" "te_Write E fs1 certFile (te_pemEncode E ''CERTIFICATE'' der) = (None, fs2)"
      "writeKeyFile E fs2 keyFile key = (Ok (), fs')"
    using assms(2) by (auto simp: GenerateSelfSignedCert_def split: outcome.splits prod.splits option.splits)
  obtain fs3 priv where m: "te_OpenFile E fs2 keyFile = (None, fs3)" "te_MarshalECPrivateKey E key = Ok priv"
    "te_Write E fs3 keyFile (te_pemEncode E ''EC PRIVATE KEY'' priv) = (None, fs')"
    using w(3) by (auto simp: writeKeyFile_def split: outcome.splits prod.splits option.splits)
  have f1: "fs1 = fs(certFile \<mapsto> [])" using tls_open(1) [OF assms(1) w(1)] .
  then have f2: "fs2 = fs1(certFile \<mapsto> te_pemEncode E ''CERTIFICATE'' der)"
    using tls_write [OF assms(1) _ w(2), of "[]"] by simp
  have f3: "fs3 = fs2(keyFile \<mapsto> [])" using tls_open(2) [OF assms(1) m(1)] .
  then have "fs' = fs3(keyFile \<mapsto> te_pemEncode E ''EC PRIVATE KEY'' priv)"
    using tls_write [OF assms(1) _ m(3), of "[]"] by simp
  then show ?thesis using d m(2) f1 f2 f3 by (intro that [of serial key der priv]) simp_all
qed

text \<open>
  A generated certificate passes the check from the second it was made in until a year later, and
  at no other time, provided certificate and key have files of their own; with one file for both the
  key overwrites the certificate.
\<close>

theorem generated_certificate_lifetime:
  assumes "tls_contract E" and "certFile \<noteq> keyFile"
    and "GenerateSelfSignedCert E now fs certFile keyFile hosts = (Ok (), fs')"
  shows "VerifyCertificate E now' fs' certFile = Ok () \<longleftrightarrow>
    cut_second now \<le> now' \<and> now' \<le> cut_second (now + 365 * 24 * 3600000000000)"
proof -
  obtain serial key der priv where d: "te_CreateCertificate E (certTemplate now serial hosts) key = Ok der"
    and f: "fs' = (let fs1 = fs(certFile \<mapsto> te_pemEncode E ''CERTIFICATE'' der) in
       fs1(keyFile \<mapsto> te_pemEncode E ''EC PRIVATE KEY'' priv))"
    by (rule generated_files [OF assms(1,3)])
  let ?c = "certTemplate now serial hosts"
  have "fs' certFile = Some (te_pemEncode E ''CERTIFICATE'' der)" using f assms(2) by (simp add: Let_def)
  then have r: "te_ReadFile E fs' certFile = Ok (te_pemEncode E ''CERTIFICATE'' der)"
    by (rule tls_read(1) [OF assms(1)])
  have p: "te_pemDecode E (te_pemEncode E ''CERTIFICATE'' der) = Some der" by (rule tls_read(2) [OF assms(1)])
  have "te_ParseCertificate E der =
      Ok (?c\<lparr>xc_NotBefore := cut_second (xc_NotBefore ?c), xc_NotAfter := cut_second (xc_NotAfter ?c)\<rparr>)"
    by (rule tls_read(3) [OF assms(1) d])
  then show ?thesis using r p by (auto simp: VerifyCertificate_def certTemplate_def)
qed

text \<open>An environment whose certificates are the template, kept under its first byte.\<close>

definition ex_tls :: "int \<Rightarrow> (unit, unit) tls_env" where
  "ex_tls t =
     (let c = certTemplate t 0 [''node''] in
      \<lparr>te_LoadX509KeyPair = \<lambda>fs c k. Ok (), te_GenerateKey = Ok (), te_RandInt = \<lambda>n. Ok 0,
       te_CreateCertificate = \<lambda>d k. if d = c then Ok [0] else Err '''',
       te_MarshalECPrivateKey = \<lambda>k. Ok [1], te_Create = \<lambda>fs f. (None, fs(f \<mapsto> [])), te_OpenFile = \<lambda>fs f. (None, fs(f \<mapsto> [])),
       te_Write = \<lambda>fs f new. (None, fs(f \<mapsto> (case fs f of None \<Rightarrow> [] | Some old \<Rightarrow> old) @ new)),
       te_ReadFile = \<lambda>fs f. (case fs f of None \<Rightarrow> Err '''' | Some content \<Rightarrow> Ok content),
       te_pemEncode = \<lambda>kind b. b, te_pemDecode = Some,
       te_ParseCertificate = \<lambda>der. Ok (c\<lparr>xc_NotBefore := cut_second (xc_NotBefore c), xc_NotAfter := cut_second (xc_NotAfter c)\<rparr>)\<rparr>)"

lemma ex_tls_contract: "tls_contract (ex_tls t)"
  unfolding tls_contract_def by (simp add: ex_tls_def Let_def)

lemma ex_tls_generates: "GenerateSelfSignedCert (ex_tls t) t fs c k [''node''] = (Ok (), fs(c \<mapsto> [0], k \<mapsto> [1]))"
  by (simp add: GenerateSelfSignedCert_def writeKeyFile_def ex_tls_def Let_def)

theorem generated_certificate_lifetime_witness:
  "VerifyCertificate (ex_tls 1500000000) 1000000000 [''cert'' \<mapsto> [0], ''key'' \<mapsto> [1]] ''cert'' = Ok () \<and>
   VerifyCertificate (ex_tls 1500000000) 31536001000000001 [''cert'' \<mapsto> [0], ''key'' \<mapsto> [1]] ''cert'' \<noteq> Ok ()"
  using generated_certificate_lifetime [OF ex_tls_contract _ ex_tls_generates, of "''cert''" "''key''" 1500000000 1000000000 Map.empty]
    generated_certificate_lifetime [OF ex_tls_contract _ ex_tls_generates, of "''cert''" "''key''" 1500000000 31536001000000001 Map.empty]
  by (simp add: cut_second_def)

text \<open>When the key file cannot be opened the new certificate stays beside the old key.\<close>

lemma failed_key_leaves_certificate:
  assumes "tls_contract E" and "GenerateSelfSignedCert E now fs certFile keyFile hosts = (Err (CreateKeyFileFailed e), fs')"
  shows "\<exists>serial key der. te_CreateCertificate E (certTemplate now serial hosts) key = Ok der \<and>
    fs' = fs(certFile \<mapsto> te_pemEncode E ''CERTIFICATE'' der)"
proof -
  obtain key serial der fs1 fs2 where d: "te_CreateCertificate E (certTemplate now serial hosts) key = Ok der"
    and w: "te_Create E fs certFile = (None, fs1)" "te_Write E fs1 certFile (te_pemEncode E ''CERTIFICATE'' der) = (None, fs2)"
      "writeKeyFile E fs2 keyFile key = (Err (CreateKeyFileFailed e), fs')"
    using assms(2) by (auto simp: GenerateSelfSignedCert_def outcome_eq_Err split: outcome.splits prod.splits option.splits)
  have f1: "fs1 = fs(certFile \<mapsto> [])" using tls_open(1) [OF assms(1) w(1)] .
  then have "fs2 = fs1(certFile \<mapsto> te_pemEncode E ''CERTIFICATE'' der)"
    using tls_write [OF assms(1) _ w(2), of "[]"] by simp
  moreover have "te_OpenFile E fs2 keyFile = (Some e, fs')"
    using w(3) by (auto simp: writeKeyFile_def split: outcome.splits prod.splits option.splits)
  ultimately show ?thesis using d f1 tls_open(3) [OF assms(1)] by (intro exI [of _ serial] exI [of _ key] exI [of _ der]) simp
qed

end
