(* ===== verification/Pebble_Storage.thy ===== *)
theory Pebble_Storage
  imports Block_Storage
begin

text \<open>
  The persistent engine of \<open>pkg/storage/pebble.go\<close>. PebbleDB and the RLP codec of
  go-ethereum are not part of the repository: they are the argument \<open>env\<close> of the definitions, a
  dictionary of the calls the engine makes. What the engine relies on is the predicate
  \<open>pebble_contract\<close>: reads see the last committed write, a batch is applied atomically and in
  order, a failed write leaves either the old or the new contents. Writes may fail; reads that
  fail for I/O reasons are outside the contract.
\<close>

section \<open>The key-value store and the codec\<close>

record PebbleOptions =
  opt_CacheSize :: int
  opt_WriteBufferSize :: int
  opt_MaxOpenFiles :: int

record ('d, 'b) pebble_env =
  pb_Open :: "string \<Rightarrow> PebbleOptions \<Rightarrow> (string, 'd) outcome"
  pb_Close :: "'d \<Rightarrow> kv_error option"
  pb_Get :: "'d \<Rightarrow> bytes \<Rightarrow> (kv_error, bytes) outcome"
  pb_Set :: "'d \<Rightarrow> bytes \<Rightarrow> bytes \<Rightarrow> kv_error option \<times> 'd"
  pb_NewBatch :: "'d \<Rightarrow> 'b"
  pb_BatchSet :: "'b \<Rightarrow> bytes \<Rightarrow> bytes \<Rightarrow> (kv_error, 'b) outcome"
  pb_Commit :: "'d \<Rightarrow> 'b \<Rightarrow> kv_error option \<times> 'd"
  rlp_encBlock :: "Block option \<Rightarrow> bytes option"
  rlp_decBlock :: "bytes \<Rightarrow> Block option"
  rlp_encRanges :: "BlockRange list \<Rightarrow> bytes option"
  rlp_decRanges :: "bytes \<Rightarrow> BlockRange list option"

section \<open>Model\<close>

record 'd PebbleStorage =
  ps_db :: 'd
  ps_gapTracker :: GapTracker

definition prefixBlockByNumber :: bytes where "prefixBlockByNumber = string_bytes ''block:num:''"
definition prefixBlockByHash :: bytes where "prefixBlockByHash = string_bytes ''block:hash:''"
definition prefixMetaMin :: bytes where "prefixMetaMin = string_bytes ''meta:min''"
definition prefixMetaMax :: bytes where "prefixMetaMax = string_bytes ''meta:max''"
definition prefixMetaCount :: bytes where "prefixMetaCount = string_bytes ''meta:count''"
definition prefixGapRanges :: bytes where "prefixGapRanges = string_bytes ''gaps:ranges''"

definition makeBlockNumberKey :: "u64 \<Rightarrow> bytes" where
  "makeBlockNumberKey number = prefixBlockByNumber @ put_uint64 number"

definition makeBlockHashKey :: "hash \<Rightarrow> bytes" where
  "makeBlockHashKey h = prefixBlockByHash @ hash_bytes h"

definition DefaultPebbleOptions :: PebbleOptions where
  "DefaultPebbleOptions = \<lparr>opt_CacheSize = 2 * 1024 * 1024 * 1024,
     opt_WriteBufferSize = 256 * 1024 * 1024, opt_MaxOpenFiles = 1024\<rparr>"

text \<open>
  The read pattern of the metadata code: \<open>current := uint64(0); if err == nil { current =
  binary.BigEndian.Uint64(data) }\<close>.
\<close>

definition readMeta :: "('d, 'b) pebble_env \<Rightarrow> 'd \<Rightarrow> bytes \<Rightarrow> ('e, u64) outcome" where
  "readMeta env db key =
     (case pb_Get env db key of
        Ok data \<Rightarrow> be_uint64 data
      | Err _ \<Rightarrow> Ok 0
      | Panic p \<Rightarrow> Panic p)"

definition updateMetadataBatch ::
  "('d, 'b) pebble_env \<Rightarrow> 'd \<Rightarrow> 'b \<Rightarrow> u64 \<Rightarrow> u64 \<Rightarrow> u64 \<Rightarrow> (kv_error, 'b) outcome" where
  "updateMetadataBatch env db batch minBlock maxBlock count =
     bind_outcome (readMeta env db prefixMetaMin) (\<lambda>currentMin.
     bind_outcome (if currentMin = 0 \<or> minBlock < currentMin
                   then pb_BatchSet env batch prefixMetaMin (put_uint64 minBlock)
                   else Ok batch) (\<lambda>batch.
     bind_outcome (readMeta env db prefixMetaMax) (\<lambda>currentMax.
     bind_outcome (if maxBlock > currentMax
                   then pb_BatchSet env batch prefixMetaMax (put_uint64 maxBlock)
                   else Ok batch) (\<lambda>batch.
     bind_outcome (readMeta env db prefixMetaCount) (\<lambda>currentCount.
     pb_BatchSet env batch prefixMetaCount (put_uint64 (currentCount + count)))))))"

definition updateMetadata ::
  "('d, 'b) pebble_env \<Rightarrow> 'd \<Rightarrow> 'b \<Rightarrow> u64 \<Rightarrow> (kv_error, 'b) outcome" where
  "updateMetadata env db batch blockNum =
     bind_outcome (readMeta env db prefixMetaMin) (\<lambda>currentMin.
     bind_outcome (if currentMin = 0 \<or> blockNum < currentMin
                   then pb_BatchSet env batch prefixMetaMin (put_uint64 blockNum)
                   else Ok batch) (\<lambda>batch.
     bind_outcome (readMeta env db prefixMetaMax) (\<lambda>currentMax.
     bind_outcome (if blockNum > currentMax
                   then pb_BatchSet env batch prefixMetaMax (put_uint64 blockNum)
                   else Ok batch) (\<lambda>batch.
     bind_outcome (readMeta env db prefixMetaCount) (\<lambda>currentCount.
     pb_BatchSet env batch prefixMetaCount (put_uint64 (currentCount + 1)))))))"

definition saveGapTracker ::
  "('d, 'b) pebble_env \<Rightarrow> 'd PebbleStorage \<Rightarrow> (storage_error, unit) outcome \<times> 'd PebbleStorage" where
  "saveGapTracker env s =
     (case rlp_encRanges env (GetAvailableRanges (ps_gapTracker s)) of
        None \<Rightarrow> (Err EncodeGapRangesFailed, s)
      | Some data \<Rightarrow>
          (case pb_Set env (ps_db s) prefixGapRanges data of
             (Some e, db) \<Rightarrow> (Err (SaveGapTrackerFailed e), s\<lparr>ps_db := db\<rparr>)
           | (None, db) \<Rightarrow> (Ok (), s\<lparr>ps_db := db\<rparr>)))"

text \<open>The two writes every block makes into the batch.\<close>

definition batchBlock ::
  "('d, 'b) pebble_env \<Rightarrow> 'b \<Rightarrow> Header \<Rightarrow> bytes \<Rightarrow> (storage_error, 'b) outcome" where
  "batchBlock env batch h data =
     bind_outcome (wrap_error SetFailed
       (pb_BatchSet env batch (makeBlockNumberKey (hd_Number h)) data)) (\<lambda>batch.
     wrap_error SetFailed
       (pb_BatchSet env batch (makeBlockHashKey (hd_Hash h)) (put_uint64 (hd_Number h))))"

text \<open>\<open>storeBlockInternal\<close> up to the commit: the filled batch and the block's number.\<close>

definition prepareBlock ::
  "('d, 'b) pebble_env \<Rightarrow> 'd \<Rightarrow> Block option \<Rightarrow> (storage_error, u64 \<times> 'b) outcome" where
  "prepareBlock env db block =
     (case rlp_encBlock env block of
        None \<Rightarrow> Err EncodeBlockFailed
      | Some data \<Rightarrow>
          deref block (\<lambda>b. deref (blk_Header b) (\<lambda>h.
          bind_outcome (batchBlock env (pb_NewBatch env db) h data) (\<lambda>batch.
          bind_outcome (wrap_error UpdateMetadataFailed
            (updateMetadata env db batch (hd_Number h))) (\<lambda>batch.
          Ok (hd_Number h, batch))))))"

definition storeBlockInternal ::
  "('d, 'b) pebble_env \<Rightarrow> 'd PebbleStorage \<Rightarrow> Block option \<Rightarrow>
   (storage_error, unit) outcome \<times> 'd PebbleStorage" where
  "storeBlockInternal env s block =
     (case prepareBlock env (ps_db s) block of
        Err e \<Rightarrow> (Err e, s)
      | Panic p \<Rightarrow> (Panic p, s)
      | Ok (n, batch) \<Rightarrow>
          (case pb_Commit env (ps_db s) batch of
             (Some e, db) \<Rightarrow> (Err (CommitFailed e), s\<lparr>ps_db := db\<rparr>)
           | (None, db) \<Rightarrow>
               saveGapTracker env (s\<lparr>ps_db := db,
                 ps_gapTracker := MarkAvailable (ps_gapTracker s) n (n + 1)\<rparr>)))"

definition pebble_StoreBlock ::
  "('d, 'b) pebble_env \<Rightarrow> 'd PebbleStorage \<Rightarrow> Block option \<Rightarrow>
   (storage_error, unit) outcome \<times> 'd PebbleStorage" where
  "pebble_StoreBlock env s block = storeBlockInternal env s block"

text \<open>
  The loop of \<open>StoreBlocks\<close>. The gap tracker is updated inside the loop, before the commit, so
  it is returned also when the loop fails.
\<close>

fun batchBlocks ::
  "('d, 'b) pebble_env \<Rightarrow> 'b \<Rightarrow> u64 \<Rightarrow> u64 \<Rightarrow> GapTracker \<Rightarrow> Block option list \<Rightarrow>
   (storage_error, 'b \<times> u64 \<times> u64) outcome \<times> GapTracker" where
  "batchBlocks env batch mn mx g [] = (Ok (batch, mn, mx), g)"
| "batchBlocks env batch mn mx g (block # blocks) =
     (case rlp_encBlock env block of
        None \<Rightarrow> (deref block (\<lambda>b. deref (blk_Header b) (\<lambda>h. Err EncodeBlockFailed)), g)
      | Some data \<Rightarrow>
          (case deref block (\<lambda>b. deref (blk_Header b) (\<lambda>h.
                  bind_outcome (batchBlock env batch h data) (\<lambda>batch. Ok (hd_Number h, batch)))) of
             Err e \<Rightarrow> (Err e, g)
           | Panic p \<Rightarrow> (Panic p, g)
           | Ok (n, batch) \<Rightarrow>
               batchBlocks env batch (if n < mn then n else mn) (if n > mx then n else mx)
                 (MarkAvailable g n (n + 1)) blocks))"

definition pebble_StoreBlocks ::
  "('d, 'b) pebble_env \<Rightarrow> 'd PebbleStorage \<Rightarrow> Block option list \<Rightarrow>
   (storage_error, unit) outcome \<times> 'd PebbleStorage" where
  "pebble_StoreBlocks env s blocks =
     (case blocks of
        [] \<Rightarrow> (Ok (), s)
      | first # _ \<Rightarrow>
          (case deref first (\<lambda>b. deref (blk_Header b) (\<lambda>h. Ok (hd_Number h))) of
             Err e \<Rightarrow> (Err e, s)
           | Panic p \<Rightarrow> (Panic p, s)
           | Ok n0 \<Rightarrow>
               (case batchBlocks env (pb_NewBatch env (ps_db s)) n0 n0 (ps_gapTracker s) blocks of
                  (Err e, g) \<Rightarrow> (Err e, s\<lparr>ps_gapTracker := g\<rparr>)
                | (Panic p, g) \<Rightarrow> (Panic p, s\<lparr>ps_gapTracker := g\<rparr>)
                | (Ok (batch, mn, mx), g) \<Rightarrow>
                    (case updateMetadataBatch env (ps_db s) batch mn mx (of_nat (length blocks)) of
                       Err e \<Rightarrow> (Err (UpdateMetadataFailed e), s\<lparr>ps_gapTracker := g\<rparr>)
                     | Panic p \<Rightarrow> (Panic p, s\<lparr>ps_gapTracker := g\<rparr>)
                     | Ok batch \<Rightarrow>
                         (case pb_Commit env (ps_db s) batch of
                            (Some e, db) \<Rightarrow>
                              (Err (CommitFailed e), s\<lparr>ps_db := db, ps_gapTracker := g\<rparr>)
                          | (None, db) \<Rightarrow>
                              saveGapTracker env (s\<lparr>ps_db := db, ps_gapTracker := g\<rparr>))))))"

definition pebble_GetBlock ::
  "('d, 'b) pebble_env \<Rightarrow> 'd PebbleStorage \<Rightarrow> u64 \<Rightarrow> (storage_error, Block) outcome" where
  "pebble_GetBlock env s number =
     (case pb_Get env (ps_db s) (makeBlockNumberKey number) of
        Err e \<Rightarrow> if e = ErrNotFound then Err (BlockNotFound number) else Err (GetFailed e)
      | Panic p \<Rightarrow> Panic p
      | Ok data \<Rightarrow>
          (case rlp_decBlock env data of None \<Rightarrow> Err DecodeBlockFailed | Some b \<Rightarrow> Ok b))"

definition pebble_GetBlockByHash ::
  "('d, 'b) pebble_env \<Rightarrow> 'd PebbleStorage \<Rightarrow> hash \<Rightarrow> (storage_error, Block) outcome" where
  "pebble_GetBlockByHash env s h =
     (case pb_Get env (ps_db s) (makeBlockHashKey h) of
        Err e \<Rightarrow> if e = ErrNotFound then Err (BlockHashNotFound h) else Err (GetFailed e)
      | Panic p \<Rightarrow> Panic p
      | Ok numBytes \<Rightarrow> bind_outcome (be_uint64 numBytes) (pebble_GetBlock env s))"

definition pebble_HasBlock :: "('d, 'b) pebble_env \<Rightarrow> 'd PebbleStorage \<Rightarrow> u64 \<Rightarrow> bool" where
  "pebble_HasBlock env s number = is_ok (pb_Get env (ps_db s) (makeBlockNumberKey number))"

fun collectOk :: "('e, 'a) outcome list \<Rightarrow> ('f, 'a list) outcome" where
  "collectOk [] = Ok []"
| "collectOk (Ok a # rs) = bind_outcome (collectOk rs) (\<lambda>as. Ok (a # as))"
| "collectOk (Err _ # rs) = collectOk rs"
| "collectOk (Panic p # rs) = Panic p"

definition pebble_GetBlocks ::
  "('d, 'b) pebble_env \<Rightarrow> 'd PebbleStorage \<Rightarrow> u64 \<Rightarrow> u64 \<Rightarrow> (storage_error, Block list) outcome" where
  "pebble_GetBlocks env s start end =
     (if unat (end - start) > max_slice_cap then Panic MakesliceCap
      else collectOk (map (pebble_GetBlock env s) (u64_loop start end)))"

definition pebble_GetGaps :: "'d PebbleStorage \<Rightarrow> BlockRange list" where
  "pebble_GetGaps s = GetGaps (ps_gapTracker s)"

definition pebble_GetAvailableRanges :: "'d PebbleStorage \<Rightarrow> BlockRange list" where
  "pebble_GetAvailableRanges s = GetAvailableRanges (ps_gapTracker s)"

definition pebble_GetNextGap :: "'d PebbleStorage \<Rightarrow> BlockRange option" where
  "pebble_GetNextGap s = GetNextGap (ps_gapTracker s)"

definition pebble_GetMinBlock :: "('d, 'b) pebble_env \<Rightarrow> 'd PebbleStorage \<Rightarrow> (storage_error, u64) outcome" where
  "pebble_GetMinBlock env s = readMeta env (ps_db s) prefixMetaMin"

definition pebble_GetMaxBlock :: "('d, 'b) pebble_env \<Rightarrow> 'd PebbleStorage \<Rightarrow> (storage_error, u64) outcome" where
  "pebble_GetMaxBlock env s = readMeta env (ps_db s) prefixMetaMax"

definition pebble_GetBlockCount :: "('d, 'b) pebble_env \<Rightarrow> 'd PebbleStorage \<Rightarrow> (storage_error, u64) outcome" where
  "pebble_GetBlockCount env s = readMeta env (ps_db s) prefixMetaCount"

definition pebble_Close ::
  "('d, 'b) pebble_env \<Rightarrow> 'd PebbleStorage \<Rightarrow> (storage_error, unit) outcome \<times> 'd PebbleStorage" where
  "pebble_Close env s =
     (case saveGapTracker env s of
        (Ok _, s') \<Rightarrow>
          ((case pb_Close env (ps_db s') of None \<Rightarrow> Ok () | Some e \<Rightarrow> Err (CloseFailed e)), s')
      | (Err e, s') \<Rightarrow> (Err e, s')
      | (Panic p, s') \<Rightarrow> (Panic p, s'))"

text \<open>\<open>loadGapTracker\<close> on the fresh tracker that \<open>NewPebbleStorage\<close> has just made.\<close>

definition loadGapTracker ::
  "('d, 'b) pebble_env \<Rightarrow> 'd PebbleStorage \<Rightarrow> (storage_error, 'd PebbleStorage) outcome" where
  "loadGapTracker env s =
     (case pb_Get env (ps_db s) prefixGapRanges of
        Err e \<Rightarrow> if e = ErrNotFound then Ok s else Err (GetFailed e)
      | Panic p \<Rightarrow> Panic p
      | Ok data \<Rightarrow>
          (case rlp_decRanges env data of
             None \<Rightarrow> Err DecodeGapRangesFailed
           | Some ranges \<Rightarrow>
               Ok (s\<lparr>ps_gapTracker := mark_ranges MarkAvailable (ps_gapTracker s) ranges\<rparr>)))"

definition NewPebbleStorage ::
  "('d, 'b) pebble_env \<Rightarrow> string \<Rightarrow> PebbleOptions option \<Rightarrow> (storage_error, 'd PebbleStorage) outcome" where
  "NewPebbleStorage env dataDir opts =
     (let o' = (case opts of None \<Rightarrow> DefaultPebbleOptions | Some o1 \<Rightarrow> o1) in
      bind_outcome (wrap_error OpenFailed (pb_Open env dataDir o')) (\<lambda>db.
      wrap_error LoadGapTrackerFailed
        (loadGapTracker env \<lparr>ps_db = db, ps_gapTracker = NewGapTracker\<rparr>)))"

definition pebble_ops :: "('d, 'b) pebble_env \<Rightarrow> 'd PebbleStorage storage_ops" where
  "pebble_ops env = \<lparr>
     st_HasBlock = pebble_HasBlock env,
     st_GetBlock = pebble_GetBlock env,
     st_GetBlockByHash = pebble_GetBlockByHash env,
     st_StoreBlock = pebble_StoreBlock env,
     st_StoreBlocks = pebble_StoreBlocks env,
     st_GetBlocks = pebble_GetBlocks env,
     st_GetGaps = pebble_GetGaps,
     st_GetAvailableRanges = pebble_GetAvailableRanges,
     st_GetNextGap = pebble_GetNextGap,
     st_GetMinBlock = pebble_GetMinBlock env,
     st_GetMaxBlock = pebble_GetMaxBlock env,
     st_GetBlockCount = pebble_GetBlockCount env\<rparr>"

section \<open>What the engine relies on\<close>

definition kv_apply :: "(bytes \<rightharpoonup> bytes) \<Rightarrow> (bytes \<times> bytes) list \<Rightarrow> (bytes \<rightharpoonup> bytes)" where
  "kv_apply m ws = foldl (\<lambda>m w. m(fst w \<mapsto> snd w)) m ws"

text \<open>
  The documented behaviour of PebbleDB, relative to the contents \<open>kv\<close> of a database and the
  pending writes \<open>wr\<close> of a batch.
\<close>

definition pebble_contract ::
  "('d, 'b) pebble_env \<Rightarrow> ('d \<Rightarrow> bytes \<rightharpoonup> bytes) \<Rightarrow> ('b \<Rightarrow> (bytes \<times> bytes) list) \<Rightarrow> bool" where
  "pebble_contract env kv wr \<longleftrightarrow>
     (\<forall>d k. pb_Get env d k = (case kv d k of None \<Rightarrow> Err ErrNotFound | Some v \<Rightarrow> Ok v)) \<and>
     (\<forall>d. wr (pb_NewBatch env d) = []) \<and>
     (\<forall>b k v b'. pb_BatchSet env b k v = Ok b' \<longrightarrow> wr b' = wr b @ [(k, v)]) \<and>
     (\<forall>b k v p. pb_BatchSet env b k v \<noteq> Panic p) \<and>
     (\<forall>d b d'. pb_Commit env d b = (None, d') \<longrightarrow> kv d' = kv_apply (kv d) (wr b)) \<and>
     (\<forall>d b e d'. pb_Commit env d b = (Some e, d') \<longrightarrow> kv d' \<in> {kv d, kv_apply (kv d) (wr b)}) \<and>
     (\<forall>d k v d'. pb_Set env d k v = (None, d') \<longrightarrow> kv d' = (kv d)(k \<mapsto> v)) \<and>
     (\<forall>d k v e d'. pb_Set env d k v = (Some e, d') \<longrightarrow> kv d' \<in> {kv d, (kv d)(k \<mapsto> v)})"

text \<open>
  A block the codec can represent: decoding its encoding gives it back. RLP does so for blocks
  without nil \<open>big.Int\<close> pointers (it writes nil as 0).
\<close>

definition rlp_storable :: "('d, 'b) pebble_env \<Rightarrow> Block \<Rightarrow> bool" where
  "rlp_storable env b \<longleftrightarrow>
     blk_Header b \<noteq> None \<and> (\<forall>x. rlp_encBlock env (Some b) = Some x \<longrightarrow> rlp_decBlock env x = Some b)"

definition rlp_ranges_ok :: "('d, 'b) pebble_env \<Rightarrow> bool" where
  "rlp_ranges_ok env \<longleftrightarrow>
     (\<forall>rs x. rlp_encRanges env rs = Some x \<longrightarrow> rlp_decRanges env x = Some rs)"

section \<open>Keys\<close>

lemma length_keys [simp]:
  "length prefixMetaMin = 8" "length prefixMetaMax = 8" "length prefixMetaCount = 10"
  "length prefixGapRanges = 11" "length (makeBlockNumberKey n) = 18"
  "length (makeBlockHashKey h) = 43"
  by (simp_all add: prefixMetaMin_def prefixMetaMax_def prefixMetaCount_def prefixGapRanges_def
      makeBlockNumberKey_def makeBlockHashKey_def prefixBlockByNumber_def prefixBlockByHash_def
      string_bytes_def)

lemma key_inject [simp]:
  "makeBlockNumberKey n = makeBlockNumberKey m \<longleftrightarrow> n = m"
  "makeBlockHashKey h = makeBlockHashKey g \<longleftrightarrow> h = g"
  by (simp_all add: makeBlockNumberKey_def makeBlockHashKey_def)

lemma length_neqI: "length xs \<noteq> length ys \<Longrightarrow> xs \<noteq> ys"
  by auto

lemma key_distinct [simp]:
  "makeBlockNumberKey n \<noteq> makeBlockHashKey h" "makeBlockHashKey h \<noteq> makeBlockNumberKey n"
  "makeBlockNumberKey n \<noteq> prefixMetaMin" "prefixMetaMin \<noteq> makeBlockNumberKey n"
  "makeBlockNumberKey n \<noteq> prefixMetaMax" "prefixMetaMax \<noteq> makeBlockNumberKey n"
  "makeBlockNumberKey n \<noteq> prefixMetaCount" "prefixMetaCount \<noteq> makeBlockNumberKey n"
  "makeBlockNumberKey n \<noteq> prefixGapRanges" "prefixGapRanges \<noteq> makeBlockNumberKey n"
  "makeBlockHashKey h \<noteq> prefixMetaMin" "prefixMetaMin \<noteq> makeBlockHashKey h"
  "makeBlockHashKey h \<noteq> prefixMetaMax" "prefixMetaMax \<noteq> makeBlockHashKey h"
  "makeBlockHashKey h \<noteq> prefixMetaCount" "prefixMetaCount \<noteq> makeBlockHashKey h"
  "makeBlockHashKey h \<noteq> prefixGapRanges" "prefixGapRanges \<noteq> makeBlockHashKey h"
  "prefixMetaMin \<noteq> prefixMetaCount" "prefixMetaCount \<noteq> prefixMetaMin"
  "prefixMetaMax \<noteq> prefixMetaCount" "prefixMetaCount \<noteq> prefixMetaMax"
  "prefixMetaMin \<noteq> prefixGapRanges" "prefixGapRanges \<noteq> prefixMetaMin"
  "prefixMetaMax \<noteq> prefixGapRanges" "prefixGapRanges \<noteq> prefixMetaMax"
  "prefixMetaCount \<noteq> prefixGapRanges" "prefixGapRanges \<noteq> prefixMetaCount"
  by (rule length_neqI, simp)+

lemma key_min_max [simp]: "prefixMetaMin \<noteq> prefixMetaMax" "prefixMetaMax \<noteq> prefixMetaMin"
  by (simp_all add: prefixMetaMin_def prefixMetaMax_def string_bytes_def)

section \<open>The writes of a call\<close>

lemma kv_apply_simps [simp]:
  "kv_apply m [] = m"
  "kv_apply m ((k, v) # ws) = kv_apply (m(k \<mapsto> v)) ws"
  "kv_apply m (ws @ us) = kv_apply (kv_apply m ws) us"
  by (simp_all add: kv_apply_def)

lemma kv_apply_other: "k \<notin> fst ` set ws \<Longrightarrow> kv_apply m ws k = m k"
  by (induction ws arbitrary: m) auto

definition block_writes :: "Header \<Rightarrow> bytes \<Rightarrow> (bytes \<times> bytes) list" where
  "block_writes h data =
     [(makeBlockNumberKey (hd_Number h), data), (makeBlockHashKey (hd_Hash h), put_uint64 (hd_Number h))]"

definition meta_writes :: "u64 \<Rightarrow> u64 \<Rightarrow> u64 \<Rightarrow> u64 \<Rightarrow> u64 \<Rightarrow> u64 \<Rightarrow> (bytes \<times> bytes) list" where
  "meta_writes curMin curMax curCount mn mx c =
     (if curMin = 0 \<or> mn < curMin then [(prefixMetaMin, put_uint64 mn)] else []) @
     (if mx > curMax then [(prefixMetaMax, put_uint64 mx)] else []) @
     [(prefixMetaCount, put_uint64 (curCount + c))]"

text \<open>The value of a metadata key: 0 when it is missing.\<close>

definition meta_value :: "(bytes \<rightharpoonup> bytes) \<Rightarrow> bytes \<Rightarrow> u64" where
  "meta_value m k = (case m k of None \<Rightarrow> 0 | Some d \<Rightarrow> of_nat (bytes_nat (take 8 d)))"

lemma meta_value_put [simp]:
  "meta_value (m(k \<mapsto> put_uint64 x)) k' = (if k' = k then x else meta_value m k')"
proof -
  have "of_nat (bytes_nat (take 8 (put_uint64 x))) = x"
    using be_uint64_put_uint64 [of x] by (simp add: be_uint64_def)
  then show ?thesis by (simp add: meta_value_def)
qed

lemma updateMetadata_eq: "updateMetadata env db batch n = updateMetadataBatch env db batch n n 1"
  by (simp add: updateMetadata_def updateMetadataBatch_def)

lemma meta_writes_keys: "fst ` set (meta_writes a b c mn mx n) \<subseteq> {prefixMetaMin, prefixMetaMax, prefixMetaCount}"
  by (auto simp: meta_writes_def)

lemma kv_apply_meta [simp]:
  "kv_apply m (meta_writes a b c mn mx n) (makeBlockNumberKey i) = m (makeBlockNumberKey i)"
  "kv_apply m (meta_writes a b c mn mx n) (makeBlockHashKey h) = m (makeBlockHashKey h)"
  "kv_apply m (meta_writes a b c mn mx n) prefixGapRanges = m prefixGapRanges"
  using meta_writes_keys [of a b c mn mx n] by (auto intro!: kv_apply_other)

section \<open>Well-formed contents\<close>

text \<open>
  What the engine keeps true of the database: a block key holds the encoding of a block with that
  number, a hash key holds the number of a stored block, and metadata values have eight bytes.
\<close>

definition kv_wf :: "('d, 'b) pebble_env \<Rightarrow> (bytes \<rightharpoonup> bytes) \<Rightarrow> bool" where
  "kv_wf env m \<longleftrightarrow>
     (\<forall>n x. m (makeBlockNumberKey n) = Some x \<longrightarrow>
        (\<exists>b. rlp_decBlock env x = Some b \<and> block_number b = Some n)) \<and>
     (\<forall>h x. m (makeBlockHashKey h) = Some x \<longrightarrow>
        (\<exists>n. x = put_uint64 n \<and> m (makeBlockNumberKey n) \<noteq> None)) \<and>
     (\<forall>k x. k \<in> {prefixMetaMin, prefixMetaMax, prefixMetaCount} \<longrightarrow> m k = Some x \<longrightarrow> length x = 8)"

definition kv_view :: "('d, 'b) pebble_env \<Rightarrow> (bytes \<rightharpoonup> bytes) \<Rightarrow> u64 \<Rightarrow> Block option" where
  "kv_view env m n = Option.bind (m (makeBlockNumberKey n)) (rlp_decBlock env)"

definition stored_numbers :: "(bytes \<rightharpoonup> bytes) \<Rightarrow> u64 set" where
  "stored_numbers m = {n. m (makeBlockNumberKey n) \<noteq> None}"

definition ps_inv :: "('d, 'b) pebble_env \<Rightarrow> ('d \<Rightarrow> bytes \<rightharpoonup> bytes) \<Rightarrow> 'd PebbleStorage \<Rightarrow> bool" where
  "ps_inv env kv s \<longleftrightarrow> kv_wf env (kv (ps_db s)) \<and> gt_inv (ps_gapTracker s)"

definition pebble_view ::
  "('d, 'b) pebble_env \<Rightarrow> ('d \<Rightarrow> bytes \<rightharpoonup> bytes) \<Rightarrow> 'd PebbleStorage \<Rightarrow> u64 \<Rightarrow> Block option" where
  "pebble_view env kv s = kv_view env (kv (ps_db s))"

lemma kv_wf_number:
  "kv_wf env m \<Longrightarrow> m (makeBlockNumberKey n) = Some x \<Longrightarrow>
   \<exists>b. rlp_decBlock env x = Some b \<and> block_number b = Some n"
  by (simp add: kv_wf_def)

lemma kv_wf_meta_length:
  "kv_wf env m \<Longrightarrow> k \<in> {prefixMetaMin, prefixMetaMax, prefixMetaCount} \<Longrightarrow> m k = Some x \<Longrightarrow> length x = 8"
  unfolding kv_wf_def by blast

lemma kv_wf_empty [simp]: "kv_wf env Map.empty"
  by (simp add: kv_wf_def)

lemma kv_wf_gap_write [simp]: "kv_wf env (m(prefixGapRanges \<mapsto> x)) \<longleftrightarrow> kv_wf env m"
  by (simp add: kv_wf_def)

lemma kv_wf_meta_writes:
  assumes "kv_wf env m"
  shows "kv_wf env (kv_apply m (meta_writes a b c mn mx n))"
proof -
  have "length x = 8" if "k \<in> {prefixMetaMin, prefixMetaMax, prefixMetaCount}"
    "kv_apply m (meta_writes a b c mn mx n) k = Some x" for k x
    using that kv_wf_meta_length [OF assms that(1), of x]
    by (auto simp: meta_writes_def split: if_splits)
  with assms show ?thesis by (simp add: kv_wf_def)
qed

lemma kv_wf_block_writes:
  assumes "kv_wf env m" and "rlp_decBlock env x = Some b" and "blk_Header b = Some h"
  shows "kv_wf env (kv_apply m (block_writes h x))"
  using assms by (auto simp: kv_wf_def block_writes_def block_number_def) (metis (full_types))

lemma kv_view_writes [simp]:
  "kv_view env (m(prefixGapRanges \<mapsto> y)) = kv_view env m"
  "kv_view env (kv_apply m (meta_writes a b c mn mx n)) = kv_view env m"
  by (simp_all add: kv_view_def fun_eq_iff)

lemma kv_view_block_writes:
  "rlp_decBlock env x = Some b \<Longrightarrow>
   kv_view env (kv_apply m (block_writes h x)) = (kv_view env m)(hd_Number h \<mapsto> b)"
  by (auto simp: kv_view_def block_writes_def fun_eq_iff)

lemma stored_numbers_writes [simp]:
  "stored_numbers (m(prefixGapRanges \<mapsto> y)) = stored_numbers m"
  "stored_numbers (kv_apply m (meta_writes a b c mn mx n)) = stored_numbers m"
  "stored_numbers (kv_apply m (block_writes h x)) = insert (hd_Number h) (stored_numbers m)"
  by (auto simp: stored_numbers_def block_writes_def)

lemma hash_key_writes [simp]:
  "kv_apply m (block_writes h x) (makeBlockHashKey g) =
     (if g = hd_Hash h then Some (put_uint64 (hd_Number h)) else m (makeBlockHashKey g))"
  by (simp add: block_writes_def)

lemma gap_key_writes [simp]:
  "kv_apply m (block_writes h x) prefixGapRanges = m prefixGapRanges"
  by (simp add: block_writes_def)

lemma meta_value_block_writes [simp]:
  "k \<in> {prefixMetaMin, prefixMetaMax, prefixMetaCount} \<Longrightarrow>
   meta_value (kv_apply m (block_writes h x)) k = meta_value m k"
  by (auto simp: meta_value_def block_writes_def)

lemma meta_value_gap_write [simp]:
  "k \<in> {prefixMetaMin, prefixMetaMax, prefixMetaCount} \<Longrightarrow>
   meta_value (m(prefixGapRanges \<mapsto> y)) k = meta_value m k"
  by (auto simp: meta_value_def)

lemma meta_value_meta_writes:
  "meta_value (kv_apply m (meta_writes a b c mn mx n)) prefixMetaMin =
     (if a = 0 \<or> mn < a then mn else meta_value m prefixMetaMin)"
  "meta_value (kv_apply m (meta_writes a b c mn mx n)) prefixMetaMax =
     (if mx > b then mx else meta_value m prefixMetaMax)"
  "meta_value (kv_apply m (meta_writes a b c mn mx n)) prefixMetaCount = c + n"
  by (simp_all add: meta_writes_def)

text \<open>The contents after the batch of one block was committed.\<close>

definition committed :: "(bytes \<rightharpoonup> bytes) \<Rightarrow> Header \<Rightarrow> bytes \<Rightarrow> (bytes \<rightharpoonup> bytes)" where
  "committed m h x = kv_apply m (block_writes h x @ meta_writes (meta_value m prefixMetaMin)
     (meta_value m prefixMetaMax) (meta_value m prefixMetaCount) (hd_Number h) (hd_Number h) 1)"

lemma committed_props:
  assumes "rlp_decBlock env x = Some b" and "blk_Header b = Some h"
  shows "kv_wf env m \<Longrightarrow> kv_wf env (committed m h x)"
    and "kv_view env (committed m h x) = (kv_view env m)(hd_Number h \<mapsto> b)"
  using assms by (simp_all add: committed_def kv_wf_meta_writes kv_wf_block_writes kv_view_block_writes)

lemma committed_lookups [simp]:
  "stored_numbers (committed m h x) = insert (hd_Number h) (stored_numbers m)"
  "committed m h x prefixGapRanges = m prefixGapRanges"
  "committed m h x (makeBlockHashKey g) =
     (if g = hd_Hash h then Some (put_uint64 (hd_Number h)) else m (makeBlockHashKey g))"
  by (simp_all add: committed_def)

section \<open>The engine on a key-value store that keeps its contract\<close>

locale pebble_engine =
  fixes env :: "('d, 'b) pebble_env"
    and kv :: "'d \<Rightarrow> bytes \<rightharpoonup> bytes"
    and wr :: "'b \<Rightarrow> (bytes \<times> bytes) list"
  assumes contract: "pebble_contract env kv wr"
begin

lemma get_eq: "pb_Get env d k = (case kv d k of None \<Rightarrow> Err ErrNotFound | Some v \<Rightarrow> Ok v)"
  using contract by (simp add: pebble_contract_def)

lemma new_batch [simp]: "wr (pb_NewBatch env d) = []"
  using contract by (simp add: pebble_contract_def)

lemma batch_set: "pb_BatchSet env b k v = Ok b' \<Longrightarrow> wr b' = wr b @ [(k, v)]"
  using contract by (simp add: pebble_contract_def)

lemma commit_ok: "pb_Commit env d b = (None, d') \<Longrightarrow> kv d' = kv_apply (kv d) (wr b)"
  using contract by (simp add: pebble_contract_def)

lemma commit_err: "pb_Commit env d b = (Some e, d') \<Longrightarrow> kv d' = kv d \<or> kv d' = kv_apply (kv d) (wr b)"
  using contract unfolding pebble_contract_def by blast

lemma set_ok: "pb_Set env d k v = (None, d') \<Longrightarrow> kv d' = (kv d)(k \<mapsto> v)"
  using contract by (simp add: pebble_contract_def)

lemma set_err: "pb_Set env d k v = (Some e, d') \<Longrightarrow> kv d' = kv d \<or> kv d' = (kv d)(k \<mapsto> v)"
  using contract unfolding pebble_contract_def by blast

lemma readMeta_value: "readMeta env d k = Ok x \<Longrightarrow> x = meta_value (kv d) k"
  by (auto simp: readMeta_def get_eq meta_value_def be_uint64_def split: option.splits if_splits)

lemma batchBlock_writes: "batchBlock env b h data = Ok b' \<Longrightarrow> wr b' = wr b @ block_writes h data"
  by (auto simp: batchBlock_def block_writes_def dest!: batch_set)

lemma updateMetadataBatch_writes:
  assumes "updateMetadataBatch env d b mn mx c = Ok b'"
  shows "wr b' = wr b @ meta_writes (meta_value (kv d) prefixMetaMin)
    (meta_value (kv d) prefixMetaMax) (meta_value (kv d) prefixMetaCount) mn mx c"
  using assms
  by (auto simp: updateMetadataBatch_def meta_writes_def dest!: batch_set readMeta_value split: if_splits)

lemma saveGapTracker_cases:
  assumes "saveGapTracker env s = (r, s')"
  obtains (saved) x where "r = Ok ()" "rlp_encRanges env (GetAvailableRanges (ps_gapTracker s)) = Some x"
      "kv (ps_db s') = (kv (ps_db s))(prefixGapRanges \<mapsto> x)" "ps_gapTracker s' = ps_gapTracker s"
  | (failed) e x where "r = Err e" "ps_gapTracker s' = ps_gapTracker s"
      "kv (ps_db s') = kv (ps_db s) \<or>
       rlp_encRanges env (GetAvailableRanges (ps_gapTracker s)) = Some x \<and>
       kv (ps_db s') = (kv (ps_db s))(prefixGapRanges \<mapsto> x)"
proof (cases "rlp_encRanges env (GetAvailableRanges (ps_gapTracker s))")
  case None
  with assms failed [of EncodeGapRangesFailed] show thesis by (auto simp: saveGapTracker_def)
next
  case (Some x)
  obtain e' db where db: "pb_Set env (ps_db s) prefixGapRanges x = (e', db)" by fastforce
  show thesis
  proof (cases e')
    case None
    with assms Some db set_ok [of "ps_db s" _ _ db] saved [of x] show thesis
      by (auto simp: saveGapTracker_def)
  next
    case (Some e)
    with assms \<open>rlp_encRanges _ _ = _\<close> db set_err [of "ps_db s" _ _ e db]
      failed [of "SaveGapTrackerFailed e" x] show thesis
      by (auto simp: saveGapTracker_def)
  qed
qed

lemma prepareBlock_ok:
  assumes "prepareBlock env d (Some b) = Ok (n, batch)" and "blk_Header b = Some h"
  obtains x where "rlp_encBlock env (Some b) = Some x" "n = hd_Number h"
    "wr batch = block_writes h x @ meta_writes (meta_value (kv d) prefixMetaMin)
      (meta_value (kv d) prefixMetaMax) (meta_value (kv d) prefixMetaCount) n n 1"
  using assms
  by (auto simp: prepareBlock_def updateMetadata_eq split: option.splits
      dest!: batchBlock_writes updateMetadataBatch_writes)

lemma readMeta_ok:
  assumes "kv_wf env (kv d)" and "k \<in> {prefixMetaMin, prefixMetaMax, prefixMetaCount}"
  shows "readMeta env d k = Ok (meta_value (kv d) k)"
  using kv_wf_meta_length [OF assms]
  by (auto simp: readMeta_def get_eq meta_value_def be_uint64_def split: option.split)

lemma batch_set_no_panic: "pb_BatchSet env b k v \<noteq> Panic p"
  using contract by (simp add: pebble_contract_def)

lemma batchBlock_no_panic: "batchBlock env b h x \<noteq> Panic p"
  by (simp add: batchBlock_def outcome_eq_Panic batch_set_no_panic)

lemma updateMetadataBatch_no_panic:
  "kv_wf env (kv d) \<Longrightarrow> updateMetadataBatch env d b mn mx c \<noteq> Panic p"
  by (simp add: updateMetadataBatch_def readMeta_ok outcome_eq_Panic batch_set_no_panic)

lemma prepareBlock_no_panic:
  assumes "kv_wf env (kv d)" and "blk_Header b = Some h"
  shows "prepareBlock env d (Some b) \<noteq> Panic p"
  using assms
  by (simp add: prepareBlock_def updateMetadata_eq batchBlock_no_panic updateMetadataBatch_no_panic
      outcome_eq_Panic split: option.split)

text \<open>
  Every outcome of \<open>StoreBlock\<close>: everything was written, the batch was committed but the tracker
  not saved, or the batch was not (or not successfully) committed.
\<close>

lemma storeBlock_cases:
  assumes wf: "kv_wf env (kv (ps_db s))" and h: "blk_Header b = Some h"
    and call: "storeBlockInternal env s (Some b) = (r, s')"
  obtains (stored) x y where "r = Ok ()" "rlp_encBlock env (Some b) = Some x"
      "ps_gapTracker s' = MarkAvailable (ps_gapTracker s) (hd_Number h) (hd_Number h + 1)"
      "rlp_encRanges env (GetAvailableRanges (ps_gapTracker s')) = Some y"
      "kv (ps_db s') = (committed (kv (ps_db s)) h x)(prefixGapRanges \<mapsto> y)"
  | (unsaved) e x y where "r = Err e" "rlp_encBlock env (Some b) = Some x"
      "ps_gapTracker s' = MarkAvailable (ps_gapTracker s) (hd_Number h) (hd_Number h + 1)"
      "kv (ps_db s') = committed (kv (ps_db s)) h x \<or>
       rlp_encRanges env (GetAvailableRanges (ps_gapTracker s')) = Some y \<and>
       kv (ps_db s') = (committed (kv (ps_db s)) h x)(prefixGapRanges \<mapsto> y)"
  | (uncommitted) e x where "r = Err e" "ps_gapTracker s' = ps_gapTracker s"
      "kv (ps_db s') = kv (ps_db s) \<or>
       rlp_encBlock env (Some b) = Some x \<and> kv (ps_db s') = committed (kv (ps_db s)) h x"
proof (cases "prepareBlock env (ps_db s) (Some b)")
  case (Err e)
  with call uncommitted [of e] show thesis by (auto simp: storeBlockInternal_def)
next
  case (Panic p)
  with prepareBlock_no_panic [OF wf h] show thesis by blast
next
  case (Ok nb)
  obtain n batch where nb: "nb = (n, batch)" by fastforce
  obtain x where x: "rlp_encBlock env (Some b) = Some x" "n = hd_Number h"
    and batch: "kv_apply (kv (ps_db s)) (wr batch) = committed (kv (ps_db s)) h x"
  proof (rule prepareBlock_ok [OF Ok [unfolded nb] h])
    fix x assume x: "rlp_encBlock env (Some b) = Some x" "n = hd_Number h"
      "wr batch = block_writes h x @ meta_writes (meta_value (kv (ps_db s)) prefixMetaMin)
        (meta_value (kv (ps_db s)) prefixMetaMax) (meta_value (kv (ps_db s)) prefixMetaCount) n n 1"
    show thesis by (rule that [OF x(1,2)]) (simp add: x committed_def)
  qed
  obtain ce db where ce: "pb_Commit env (ps_db s) batch = (ce, db)" by fastforce
  show thesis
  proof (cases ce)
    case (Some e)
    with Ok nb ce call have "r = Err (CommitFailed e)" "s' = s\<lparr>ps_db := db\<rparr>"
      by (simp_all add: storeBlockInternal_def)
    with commit_err [of "ps_db s" batch e db] Some ce x(1) batch show thesis
      by (intro uncommitted [of "CommitFailed e" x]) simp_all
  next
    case None
    let ?s = "s\<lparr>ps_db := db, ps_gapTracker := MarkAvailable (ps_gapTracker s) n (n + 1)\<rparr>"
    have "saveGapTracker env ?s = (r, s')" using Ok nb ce None call by (simp add: storeBlockInternal_def)
    moreover have kvs: "kv db = committed (kv (ps_db s)) h x"
      using None ce commit_ok [of "ps_db s" batch db] batch by simp
    ultimately show thesis
    proof (cases rule: saveGapTracker_cases)
      case (saved y)
      with x kvs show thesis by (intro stored) simp_all
    next
      case (failed e y)
      with x kvs show thesis by (intro unsaved [of e x y]) simp_all
    qed
  qed
qed

lemma get_block_view:
  assumes "kv_wf env (kv (ps_db s))"
  shows "pebble_GetBlock env s n =
    (case pebble_view env kv s n of None \<Rightarrow> Err (BlockNotFound n) | Some b \<Rightarrow> Ok b)"
    and "pebble_HasBlock env s n \<longleftrightarrow> pebble_view env kv s n \<noteq> None"
  using kv_wf_number [OF assms, of n]
  by (auto simp: pebble_GetBlock_def pebble_HasBlock_def get_eq pebble_view_def kv_view_def
      split: option.split)

lemma get_by_hash_view:
  assumes "kv_wf env (kv (ps_db s))" and "kv (ps_db s) (makeBlockHashKey h) = Some (put_uint64 n)"
  shows "pebble_GetBlockByHash env s h = pebble_GetBlock env s n"
  using assms by (simp add: pebble_GetBlockByHash_def get_eq)

lemma store_ok_effect:
  assumes "kv_wf env (kv (ps_db s))" and "rlp_storable env b" and "blk_Header b = Some h"
    and "pebble_StoreBlock env s (Some b) = (Ok u, s')"
  shows "kv_wf env (kv (ps_db s'))"
    and "pebble_view env kv s' = (pebble_view env kv s)(hd_Number h \<mapsto> b)"
    and "kv (ps_db s') (makeBlockHashKey (hd_Hash h)) = Some (put_uint64 (hd_Number h))"
    and "ps_gapTracker s' = MarkAvailable (ps_gapTracker s) (hd_Number h) (hd_Number h + 1)"
proof -
  obtain x y where xy: "rlp_encBlock env (Some b) = Some x"
    "kv (ps_db s') = (committed (kv (ps_db s)) h x)(prefixGapRanges \<mapsto> y)"
    "ps_gapTracker s' = MarkAvailable (ps_gapTracker s) (hd_Number h) (hd_Number h + 1)"
    by (rule storeBlock_cases [OF assms(1,3) assms(4) [unfolded pebble_StoreBlock_def]]) auto
  have dec: "rlp_decBlock env x = Some b" using assms(2) xy(1) by (simp add: rlp_storable_def)
  note c = committed_props [OF dec assms(3)]
  show "kv_wf env (kv (ps_db s'))" using assms(1) c(1) xy(2) by simp
  show "pebble_view env kv s' = (pebble_view env kv s)(hd_Number h \<mapsto> b)"
    using c(2) xy(2) by (simp add: pebble_view_def)
  show "kv (ps_db s') (makeBlockHashKey (hd_Hash h)) = Some (put_uint64 (hd_Number h))"
    using xy(2) by simp
  show "ps_gapTracker s' = MarkAvailable (ps_gapTracker s) (hd_Number h) (hd_Number h + 1)" by (rule xy)
qed

lemma store_err_effect:
  assumes "kv_wf env (kv (ps_db s))" and "rlp_storable env b" and "blk_Header b = Some h"
    and "pebble_StoreBlock env s (Some b) = (Err e, s')"
  shows "kv_wf env (kv (ps_db s'))"
    and "pebble_view env kv s' = pebble_view env kv s \<or>
      pebble_view env kv s' = (pebble_view env kv s)(hd_Number h \<mapsto> b)"
    and "ps_gapTracker s' = ps_gapTracker s \<or>
      ps_gapTracker s' = MarkAvailable (ps_gapTracker s) (hd_Number h) (hd_Number h + 1)"
proof -
  have dec: "rlp_encBlock env (Some b) = Some x \<Longrightarrow> rlp_decBlock env x = Some b" for x
    using assms(2) by (simp add: rlp_storable_def)
  note c = committed_props [OF dec assms(3)]
  show "kv_wf env (kv (ps_db s'))"
    by (rule storeBlock_cases [OF assms(1,3) assms(4) [unfolded pebble_StoreBlock_def]])
      (use assms(1) c(1) in auto)
  show "pebble_view env kv s' = pebble_view env kv s \<or>
      pebble_view env kv s' = (pebble_view env kv s)(hd_Number h \<mapsto> b)"
    by (rule storeBlock_cases [OF assms(1,3) assms(4) [unfolded pebble_StoreBlock_def]])
      (use c(2) in \<open>auto simp: pebble_view_def\<close>)
  show "ps_gapTracker s' = ps_gapTracker s \<or>
      ps_gapTracker s' = MarkAvailable (ps_gapTracker s) (hd_Number h) (hd_Number h + 1)"
    by (rule storeBlock_cases [OF assms(1,3) assms(4) [unfolded pebble_StoreBlock_def]]) auto
qed

lemma store_no_panic:
  assumes "kv_wf env (kv (ps_db s))" and "blk_Header b = Some h"
  shows "fst (pebble_StoreBlock env s (Some b)) \<noteq> Panic p"
  by (rule storeBlock_cases [OF assms prod.collapse [symmetric]]) (auto simp: pebble_StoreBlock_def)

end

text \<open>The persistent engine keeps the contract of the storage interface.\<close>

sublocale pebble_engine \<subseteq> store: block_store "pebble_ops env" "pebble_view env kv" "rlp_storable env" "ps_inv env kv"
proof unfold_locales
  fix s n b u s' e
  assume inv: "ps_inv env kv s"
  then have wf: "kv_wf env (kv (ps_db s))" by (simp add: ps_inv_def)
  show "st_HasBlock (pebble_ops env) s n \<longleftrightarrow> pebble_view env kv s n \<noteq> None"
    using get_block_view [OF wf] by (simp add: pebble_ops_def)
  show "st_GetBlock (pebble_ops env) s n = Ok b" if "pebble_view env kv s n = Some b"
    using get_block_view [OF wf] that by (simp add: pebble_ops_def)
  show "\<not> is_ok (st_GetBlock (pebble_ops env) s n)" if "pebble_view env kv s n = None"
    using get_block_view [OF wf] that by (simp add: pebble_ops_def)
  show "block_number b = Some n" if "pebble_view env kv s n = Some b"
    using kv_wf_number [OF wf, of n] that by (auto simp: pebble_view_def kv_view_def bind_eq_Some_conv)
  show "ps_inv env kv s' \<and> pebble_view env kv s' = (pebble_view env kv s)(n \<mapsto> b)"
    if "rlp_storable env b" "st_StoreBlock (pebble_ops env) s (Some b) = (Ok u, s')" "block_number b = Some n"
    using store_ok_effect [OF wf that(1)] that inv
    by (auto simp: pebble_ops_def block_number_def ps_inv_def gt.inv_mark)
  show "ps_inv env kv s' \<and> (pebble_view env kv s' = pebble_view env kv s \<or>
      pebble_view env kv s' = (pebble_view env kv s)(n \<mapsto> b))"
    if "rlp_storable env b" "st_StoreBlock (pebble_ops env) s (Some b) = (Err e, s')" "block_number b = Some n"
    using store_err_effect [OF wf that(1)] that inv
    by (fastforce simp: pebble_ops_def block_number_def ps_inv_def gt.inv_mark)
next
  show "rlp_storable env b \<Longrightarrow> block_number b \<noteq> None" for b
    by (simp add: rlp_storable_def block_number_def)
qed

section \<open>Batches\<close>

definition mark_blocks :: "GapTracker \<Rightarrow> Block list \<Rightarrow> GapTracker" where
  "mark_blocks g bs = foldl (\<lambda>g b. case block_number b of None \<Rightarrow> g | Some n \<Rightarrow> MarkAvailable g n (n + 1)) g bs"

definition numbers :: "Block list \<Rightarrow> u64 set" where
  "numbers bs = {n. Some n \<in> block_number ` set bs}"

definition view_after :: "(u64 \<rightharpoonup> Block) \<Rightarrow> Block list \<Rightarrow> (u64 \<rightharpoonup> Block)" where
  "view_after v bs = foldl (\<lambda>v b. case block_number b of None \<Rightarrow> v | Some n \<Rightarrow> v(n \<mapsto> b)) v bs"

lemma numbers_simps [simp]:
  "numbers [] = {}"
  "block_number b = Some n \<Longrightarrow> numbers (b # bs) = insert n (numbers bs)"
  by (auto simp: numbers_def)

lemma mark_blocks_simps [simp]:
  "mark_blocks g [] = g"
  "block_number b = Some n \<Longrightarrow> mark_blocks g (b # bs) = mark_blocks (MarkAvailable g n (n + 1)) bs"
  by (simp_all add: mark_blocks_def)

lemma view_after_simps [simp]:
  "view_after v [] = v"
  "block_number b = Some n \<Longrightarrow> view_after v (b # bs) = view_after (v(n \<mapsto> b)) bs"
  by (simp_all add: view_after_def)

lemma mark_blocks_props:
  "gt_inv g \<Longrightarrow> list_all (\<lambda>b. block_number b \<noteq> None) bs \<Longrightarrow>
   gt_inv (mark_blocks g bs) \<and> available (mark_blocks g bs) = available g \<union> (numbers bs - {u64_max})"
proof (induction bs arbitrary: g)
  case (Cons b bs)
  then obtain n where n: "block_number b = Some n" by auto
  have "{n ..< n + 1} = {n} - {u64_max}" using singleton_u64 [of n] by (cases "n = u64_max") auto
  with Cons n show ?case by (auto simp: gt.inv_mark gt.avail_mark)
qed simp

lemma view_after_other: "n \<notin> numbers bs \<Longrightarrow> view_after v bs n = v n"
proof (induction bs arbitrary: v)
  case (Cons b bs)
  then show ?case by (cases "block_number b") (auto simp: view_after_def numbers_def)
qed simp

lemma view_after_stored:
  "distinct (map block_number bs) \<Longrightarrow> b \<in> set bs \<Longrightarrow> block_number b = Some n \<Longrightarrow>
   view_after v bs n = Some b"
proof (induction bs arbitrary: v)
  case (Cons c bs)
  show ?case
  proof (cases "b = c")
    case True
    with Cons have "n \<notin> numbers bs" by (auto simp: numbers_def)
    with True Cons show ?thesis by (simp add: view_after_other)
  next
    case False
    with Cons show ?thesis by (cases "block_number c") (auto simp: view_after_def)
  qed
qed simp

lemma view_after_append: "view_after v (as @ bs) = view_after (view_after v as) bs"
  by (simp add: view_after_def)

text \<open>A list of writes that stores the blocks \<open>bs\<close>, in order, and touches no metadata.\<close>

definition writes_blocks :: "('d, 'b) pebble_env \<Rightarrow> (bytes \<times> bytes) list \<Rightarrow> Block list \<Rightarrow> bool" where
  "writes_blocks env ws bs \<longleftrightarrow>
     (\<forall>m. (kv_wf env m \<longrightarrow> kv_wf env (kv_apply m ws)) \<and>
          kv_view env (kv_apply m ws) = view_after (kv_view env m) bs \<and>
          stored_numbers (kv_apply m ws) = stored_numbers m \<union> numbers bs)"

lemma writes_blocks_Cons:
  assumes "rlp_decBlock env x = Some b" and "blk_Header b = Some h" and "writes_blocks env ws bs"
  shows "writes_blocks env (block_writes h x @ ws) (b # bs)"
  using assms
  by (auto simp: writes_blocks_def kv_wf_block_writes kv_view_block_writes block_number_def)

lemma if_min_max: "(if n < mn then n else mn) = min n (mn :: u64)" "(if n > mx then n else mx) = max n (mx :: u64)"
  by (auto simp: min_def max_def)

lemma finite_numbers [simp]: "finite (numbers bs)"
  by simp

context pebble_engine
begin

text \<open>What the loop of \<open>StoreBlocks\<close> leaves in the batch and in the tracker.\<close>

lemma batchBlocks_ok:
  assumes "batchBlocks env batch mn mx g (map Some bs) = (Ok (batch', mn', mx'), g')"
    and "list_all (rlp_storable env) bs"
  shows "g' = mark_blocks g bs" and "mn' = Min (insert mn (numbers bs))"
    and "mx' = Max (insert mx (numbers bs))"
    and "\<exists>ws. wr batch' = wr batch @ ws \<and> writes_blocks env ws bs"
proof -
  have "g' = mark_blocks g bs \<and> mn' = Min (insert mn (numbers bs)) \<and> mx' = Max (insert mx (numbers bs)) \<and>
    (\<exists>ws. wr batch' = wr batch @ ws \<and> writes_blocks env ws bs)"
    using assms
  proof (induction bs arbitrary: batch mn mx g)
    case Nil
    then show ?case by (auto simp: writes_blocks_def intro: exI [of _ "[]"])
  next
    case (Cons b bs)
    from Cons.prems obtain x h b1 where x: "rlp_encBlock env (Some b) = Some x" "blk_Header b = Some h"
      "batchBlock env batch h x = Ok b1"
      "batchBlocks env b1 (min (hd_Number h) mn) (max (hd_Number h) mx)
         (MarkAvailable g (hd_Number h) (hd_Number h + 1)) (map Some bs) = (Ok (batch', mn', mx'), g')"
      by (auto simp: rlp_storable_def if_min_max split: option.splits outcome.splits)
    have n: "block_number b = Some (hd_Number h)" using x(2) by (simp add: block_number_def)
    from Cons.IH [OF x(4)] Cons.prems(2) obtain ws where
      IH: "g' = mark_blocks (MarkAvailable g (hd_Number h) (hd_Number h + 1)) bs"
        "mn' = Min (insert (min (hd_Number h) mn) (numbers bs))"
        "mx' = Max (insert (max (hd_Number h) mx) (numbers bs))"
        "wr batch' = wr b1 @ ws" "writes_blocks env ws bs" by auto
    have "rlp_decBlock env x = Some b" using Cons.prems(2) x(1) by (simp add: rlp_storable_def)
    from writes_blocks_Cons [OF this x(2) IH(5)] batchBlock_writes [OF x(3)] IH(4)
    have "\<exists>ws. wr batch' = wr batch @ ws \<and> writes_blocks env ws (b # bs)" by auto
    moreover have "mn' = Min (insert mn (numbers (b # bs)))" "mx' = Max (insert mx (numbers (b # bs)))"
      using IH(2,3) n by (cases "numbers bs = {}"; simp add: min.commute min.left_commute max.commute max.left_commute)+
    ultimately show ?case using IH(1) n by simp
  qed
  then show "g' = mark_blocks g bs" "mn' = Min (insert mn (numbers bs))"
    "mx' = Max (insert mx (numbers bs))" "\<exists>ws. wr batch' = wr batch @ ws \<and> writes_blocks env ws bs"
    by blast+
qed

lemma storable_numbers:
  "list_all (rlp_storable env) bs \<Longrightarrow> list_all (\<lambda>b. block_number b \<noteq> None) bs"
  by (auto simp: list_all_iff rlp_storable_def block_number_def)

lemma batchBlocks_errors: "batchBlocks env batch mn mx g bs \<noteq> (Err (CommitFailed c), g')"
proof (induction bs arbitrary: batch mn mx g)
  case (Cons block blocks)
  then show ?case
    by (auto simp: outcome_eq_Err batchBlock_def split: option.splits outcome.splits)
qed simp

text \<open>
  A batch that reached the commit: the tracker has marked every block of the batch, and the batch
  writes the blocks and the metadata of the whole batch.
\<close>

lemma store_blocks_batch:
  assumes "pebble_StoreBlocks env s (map Some bs) = (r, s')" and "list_all (rlp_storable env) bs"
    and "bs \<noteq> []" and "(\<exists>u. r = Ok u) \<or> (\<exists>e. r = Err (CommitFailed e))"
  obtains batch ws db ce where
    "pb_Commit env (ps_db s) batch = (ce, db)" "writes_blocks env ws bs"
    "wr batch = ws @ meta_writes (meta_value (kv (ps_db s)) prefixMetaMin)
       (meta_value (kv (ps_db s)) prefixMetaMax) (meta_value (kv (ps_db s)) prefixMetaCount)
       (Min (numbers bs)) (Max (numbers bs)) (of_nat (length bs))"
    "ce = None \<Longrightarrow> saveGapTracker env (s\<lparr>ps_db := db, ps_gapTracker := mark_blocks (ps_gapTracker s) bs\<rparr>) = (r, s')"
    "\<And>e. ce = Some e \<Longrightarrow> r = Err (CommitFailed e) \<and>
       s' = s\<lparr>ps_db := db, ps_gapTracker := mark_blocks (ps_gapTracker s) bs\<rparr>"
proof -
  obtain b0 bs0 h0 where b0: "bs = b0 # bs0" "blk_Header b0 = Some h0"
    using assms(2,3) by (cases bs) (auto simp: rlp_storable_def)
  have mem: "hd_Number h0 \<in> numbers bs" using b0 by (auto simp: numbers_def block_number_def)
  then have ins: "insert (hd_Number h0) (numbers bs) = numbers bs" by auto
  let ?loop = "batchBlocks env (pb_NewBatch env (ps_db s)) (hd_Number h0) (hd_Number h0) (ps_gapTracker s) (map Some bs)"
  let ?n = "of_nat (length bs) :: u64"
  obtain b1 mn mx g b2 where loop: "?loop = (Ok (b1, mn, mx), g)"
    and meta: "updateMetadataBatch env (ps_db s) b1 mn mx ?n = Ok b2"
    using assms(1,4) b0
    by (auto simp: pebble_StoreBlocks_def simp del: batchBlocks.simps
        split: prod.splits outcome.splits simp: batchBlocks_errors)
  note L = batchBlocks_ok [OF loop assms(2)]
  obtain ws where ws: "wr b1 = ws" "writes_blocks env ws bs" using L(4) by auto
  obtain ce db where ce: "pb_Commit env (ps_db s) b2 = (ce, db)" by fastforce
  show thesis
  proof (rule that [OF ce ws(2)])
    show "wr b2 = ws @ meta_writes (meta_value (kv (ps_db s)) prefixMetaMin)
       (meta_value (kv (ps_db s)) prefixMetaMax) (meta_value (kv (ps_db s)) prefixMetaCount)
       (Min (numbers bs)) (Max (numbers bs)) ?n"
      using updateMetadataBatch_writes [OF meta] ws(1) L(2,3) ins by simp
  next
    assume "ce = None"
    with assms(1) b0 loop meta ce L(1)
    show "saveGapTracker env (s\<lparr>ps_db := db, ps_gapTracker := mark_blocks (ps_gapTracker s) bs\<rparr>) = (r, s')"
      by (simp add: pebble_StoreBlocks_def)
  next
    fix e assume "ce = Some e"
    with assms(1) b0 loop meta ce L(1)
    show "r = Err (CommitFailed e) \<and> s' = s\<lparr>ps_db := db, ps_gapTracker := mark_blocks (ps_gapTracker s) bs\<rparr>"
      by (simp add: pebble_StoreBlocks_def)
  qed
qed

lemma store_blocks_ok:
  assumes "ps_inv env kv s" and "list_all (rlp_storable env) bs"
    and "pebble_StoreBlocks env s (map Some bs) = (Ok u, s')"
  shows "ps_inv env kv s'"
    and "pebble_view env kv s' = view_after (pebble_view env kv s) bs"
    and "stored_numbers (kv (ps_db s')) = stored_numbers (kv (ps_db s)) \<union> numbers bs"
    and "available (ps_gapTracker s') = available (ps_gapTracker s) \<union> (numbers bs - {u64_max})"
proof -
  have "ps_inv env kv s' \<and> pebble_view env kv s' = view_after (pebble_view env kv s) bs \<and>
    stored_numbers (kv (ps_db s')) = stored_numbers (kv (ps_db s)) \<union> numbers bs \<and>
    available (ps_gapTracker s') = available (ps_gapTracker s) \<union> (numbers bs - {u64_max})"
  proof (cases "bs = []")
    case True
    with assms show ?thesis by (simp add: pebble_StoreBlocks_def)
  next
    case False
    let ?g = "mark_blocks (ps_gapTracker s) bs"
    obtain batch ws db x a b c d e f where
      commit: "pb_Commit env (ps_db s) batch = (None, db)" and ws: "writes_blocks env ws bs"
      and wr: "wr batch = ws @ meta_writes a b c d e f"
      and s': "kv (ps_db s') = (kv db)(prefixGapRanges \<mapsto> x)" "ps_gapTracker s' = ?g"
    proof (rule store_blocks_batch [OF assms(3,2) False])
      fix batch ws db ce
      assume A: "pb_Commit env (ps_db s) batch = (ce, db)" "writes_blocks env ws bs"
        "wr batch = ws @ meta_writes (meta_value (kv (ps_db s)) prefixMetaMin)
          (meta_value (kv (ps_db s)) prefixMetaMax) (meta_value (kv (ps_db s)) prefixMetaCount)
          (Min (numbers bs)) (Max (numbers bs)) (of_nat (length bs))"
        "ce = None \<Longrightarrow> saveGapTracker env (s\<lparr>ps_db := db, ps_gapTracker := ?g\<rparr>) = (Ok u, s')"
        "\<And>e. ce = Some e \<Longrightarrow> Ok u = Err (CommitFailed e) \<and> s' = s\<lparr>ps_db := db, ps_gapTracker := ?g\<rparr>"
      then have ce: "ce = None" by (cases ce) auto
      show thesis
        by (rule saveGapTracker_cases [OF A(4) [OF ce]]) (use A ce that in auto)
    qed simp
    have kvdb: "kv db = kv_apply (kv_apply (kv (ps_db s)) ws) (meta_writes a b c d e f)"
      using commit_ok [OF commit] wr by simp
    have w: "kv_wf env (kv_apply (kv (ps_db s)) ws)"
      "kv_view env (kv_apply (kv (ps_db s)) ws) = view_after (kv_view env (kv (ps_db s))) bs"
      "stored_numbers (kv_apply (kv (ps_db s)) ws) = stored_numbers (kv (ps_db s)) \<union> numbers bs"
      using ws assms(1) by (auto simp: writes_blocks_def ps_inv_def)
    have g: "gt_inv ?g" "available ?g = available (ps_gapTracker s) \<union> (numbers bs - {u64_max})"
      using mark_blocks_props [of "ps_gapTracker s" bs] storable_numbers [OF assms(2)] assms(1)
      by (simp_all add: ps_inv_def)
    show ?thesis
      using s' kvdb w g by (simp add: ps_inv_def pebble_view_def kv_wf_meta_writes)
  qed
  then show "ps_inv env kv s'" "pebble_view env kv s' = view_after (pebble_view env kv s) bs"
    "stored_numbers (kv (ps_db s')) = stored_numbers (kv (ps_db s)) \<union> numbers bs"
    "available (ps_gapTracker s') = available (ps_gapTracker s) \<union> (numbers bs - {u64_max})"
    by blast+
qed

lemma store_blocks_commit_failed:
  assumes "ps_inv env kv s" and "list_all (rlp_storable env) bs" and "bs \<noteq> []"
    and "pebble_StoreBlocks env s (map Some bs) = (Err (CommitFailed e), s')"
  shows "gt_inv (ps_gapTracker s')"
    and "available (ps_gapTracker s') = available (ps_gapTracker s) \<union> (numbers bs - {u64_max})"
proof -
  have "ps_gapTracker s' = mark_blocks (ps_gapTracker s) bs"
  proof (rule store_blocks_batch [OF assms(4,2,3)])
    fix batch ws db ce
    assume A: "ce = None \<Longrightarrow> saveGapTracker env (s\<lparr>ps_db := db, ps_gapTracker := mark_blocks (ps_gapTracker s) bs\<rparr>) =
        (Err (CommitFailed e), s')"
      "\<And>e'. ce = Some e' \<Longrightarrow> Err (CommitFailed e) = (Err (CommitFailed e') :: (storage_error, unit) outcome) \<and>
        s' = s\<lparr>ps_db := db, ps_gapTracker := mark_blocks (ps_gapTracker s) bs\<rparr>"
    show ?thesis
    proof (cases ce)
      case None
      from A(1) [OF None] show ?thesis by (rule saveGapTracker_cases) auto
    qed (use A(2) in auto)
  qed simp
  then show "gt_inv (ps_gapTracker s')"
    "available (ps_gapTracker s') = available (ps_gapTracker s) \<union> (numbers bs - {u64_max})"
    using mark_blocks_props [of "ps_gapTracker s" bs] storable_numbers [OF assms(2)] assms(1)
    by (simp_all add: ps_inv_def)
qed

lemma load_after_save:
  assumes "gt_inv (ps_gapTracker s)" and "rlp_ranges_ok env" and "saveGapTracker env s = (Ok u, s')"
    and "kv db = kv (ps_db s')"
  shows "loadGapTracker env \<lparr>ps_db = db, ps_gapTracker = NewGapTracker\<rparr> =
    Ok \<lparr>ps_db = db, ps_gapTracker = ps_gapTracker s\<rparr>"
proof -
  obtain x where "rlp_encRanges env (GetAvailableRanges (ps_gapTracker s)) = Some x"
    "kv (ps_db s') = (kv (ps_db s))(prefixGapRanges \<mapsto> x)"
    using assms(3) by (rule saveGapTracker_cases) auto
  with assms(1,2,4) show ?thesis
    by (auto simp: loadGapTracker_def get_eq rlp_ranges_ok_def gt.replay_ranges)
qed

end

section \<open>Crashes and restarts\<close>

text \<open>
  The life of a data directory under single-block writes: it starts empty, blocks are stored (the
  call may fail at any write), and the process may stop at any point and open the directory again,
  which loads the persisted ranges into a fresh tracker. A reopened database has the contents it
  had (\<open>kv db = kv (ps_db s)\<close>).
\<close>

inductive pebble_reach :: "('d, 'b) pebble_env \<Rightarrow> ('d \<Rightarrow> bytes \<rightharpoonup> bytes) \<Rightarrow> 'd PebbleStorage \<Rightarrow> bool"
  for env kv where
  reach_create: "kv db = Map.empty \<Longrightarrow> pebble_reach env kv \<lparr>ps_db = db, ps_gapTracker = NewGapTracker\<rparr>"
| reach_store: "pebble_reach env kv s \<Longrightarrow> rlp_storable env b \<Longrightarrow>
    pebble_StoreBlock env s (Some b) = (r, s') \<Longrightarrow> pebble_reach env kv s'"
| reach_restart: "pebble_reach env kv s \<Longrightarrow> kv db = kv (ps_db s) \<Longrightarrow>
    loadGapTracker env \<lparr>ps_db = db, ps_gapTracker = NewGapTracker\<rparr> = Ok s' \<Longrightarrow> pebble_reach env kv s'"

text \<open>Neither the tracker nor its persisted copy claims a block that is not in the database.\<close>

definition ps_sound :: "('d, 'b) pebble_env \<Rightarrow> ('d \<Rightarrow> bytes \<rightharpoonup> bytes) \<Rightarrow> 'd PebbleStorage \<Rightarrow> bool" where
  "ps_sound env kv s \<longleftrightarrow>
     ps_inv env kv s \<and> available (ps_gapTracker s) \<subseteq> stored_numbers (kv (ps_db s)) \<and>
     (\<forall>x rs. kv (ps_db s) prefixGapRanges = Some x \<longrightarrow> rlp_decRanges env x = Some rs \<longrightarrow>
        covered rs \<subseteq> stored_numbers (kv (ps_db s)))"

context pebble_engine
begin

lemma sound_store:
  assumes "rlp_ranges_ok env" and "ps_sound env kv s" and "rlp_storable env b"
    and "pebble_StoreBlock env s (Some b) = (r, s')"
  shows "ps_sound env kv s'"
proof -
  obtain h where h: "blk_Header b = Some h" using assms(3) by (auto simp: rlp_storable_def)
  let ?n = "hd_Number h" and ?m = "kv (ps_db s)" and ?g = "MarkAvailable (ps_gapTracker s) (hd_Number h) (hd_Number h + 1)"
  have wf: "kv_wf env ?m" and gi: "gt_inv (ps_gapTracker s)"
    and sub: "available (ps_gapTracker s) \<subseteq> stored_numbers ?m"
    and per: "\<And>x rs. ?m prefixGapRanges = Some x \<Longrightarrow> rlp_decRanges env x = Some rs \<Longrightarrow> covered rs \<subseteq> stored_numbers ?m"
    using assms(2) by (auto simp: ps_sound_def ps_inv_def)
  have dec: "rlp_encBlock env (Some b) = Some x \<Longrightarrow> rlp_decBlock env x = Some b" for x
    using assms(3) by (simp add: rlp_storable_def)
  have g: "gt_inv ?g" "available ?g \<subseteq> insert ?n (stored_numbers ?m)"
    using gi sub singleton_u64 [of ?n] by (cases "?n = u64_max"; auto simp: gt.inv_mark gt.avail_mark)+
  have saved: "covered rs \<subseteq> insert ?n (stored_numbers ?m)"
    if "rlp_encRanges env (GetAvailableRanges ?g) = Some y" "rlp_decRanges env y = Some rs" for y rs
    using that assms(1) g gt.ranges_cover [OF g(1)] by (simp add: rlp_ranges_ok_def)
  have cwf: "kv_wf env (committed ?m h x)" if "rlp_encBlock env (Some b) = Some x" for x
    using committed_props(1) [OF dec [OF that] h wf] .
  show ?thesis
  proof (rule storeBlock_cases [OF wf h assms(4) [unfolded pebble_StoreBlock_def]])
    fix x y assume "ps_gapTracker s' = ?g" "rlp_encBlock env (Some b) = Some x"
      "rlp_encRanges env (GetAvailableRanges (ps_gapTracker s')) = Some y"
      "kv (ps_db s') = (committed ?m h x)(prefixGapRanges \<mapsto> y)"
    with cwf g saved show ?thesis by (simp add: ps_sound_def ps_inv_def)
  next
    fix e x y assume "ps_gapTracker s' = ?g" "rlp_encBlock env (Some b) = Some x"
      "kv (ps_db s') = committed ?m h x \<or>
       rlp_encRanges env (GetAvailableRanges (ps_gapTracker s')) = Some y \<and>
       kv (ps_db s') = (committed ?m h x)(prefixGapRanges \<mapsto> y)"
    with cwf g show ?thesis
      by (auto simp: ps_sound_def ps_inv_def dest: per [THEN subsetD] saved [THEN subsetD])
  next
    fix e x assume "ps_gapTracker s' = ps_gapTracker s"
      "kv (ps_db s') = ?m \<or> rlp_encBlock env (Some b) = Some x \<and> kv (ps_db s') = committed ?m h x"
    with cwf wf gi sub show ?thesis
      by (auto simp: ps_sound_def ps_inv_def dest: per [THEN subsetD])
  qed
qed

lemma sound_restart:
  assumes "ps_sound env kv s" and "kv db = kv (ps_db s)"
    and "loadGapTracker env \<lparr>ps_db = db, ps_gapTracker = NewGapTracker\<rparr> = Ok s'"
  shows "ps_sound env kv s'"
proof (cases "kv db prefixGapRanges")
  case None
  with assms show ?thesis by (auto simp: loadGapTracker_def get_eq ps_sound_def ps_inv_def)
next
  case (Some x)
  with assms(3) obtain rs where "rlp_decRanges env x = Some rs"
    "s' = \<lparr>ps_db = db, ps_gapTracker = mark_ranges MarkAvailable NewGapTracker rs\<rparr>"
    by (auto simp: loadGapTracker_def get_eq split: option.splits)
  with assms(1,2) Some show ?thesis
    by (auto simp: ps_sound_def ps_inv_def gt.inv_mark_ranges gt.avail_mark_ranges gt.inv_new gt.avail_new)
qed

lemma reach_sound:
  assumes "rlp_ranges_ok env" and "pebble_reach env kv s"
  shows "ps_sound env kv s"
  using assms(2)
proof (induction rule: pebble_reach.induct)
  case (reach_create db)
  then show ?case by (simp add: ps_sound_def ps_inv_def)
qed (blast intro: sound_store [OF assms(1)] sound_restart)+

end

section \<open>A key-value store for the examples\<close>

text \<open>
  A store that keeps the contract, for the worked examples: a database is a finite map, a batch its
  list of writes, the codec knows the example blocks, and the contents of the data directory are
  the argument \<open>disk\<close>.
\<close>

definition ex_encBlock :: "Block option \<Rightarrow> bytes option" where
  "ex_encBlock block =
     (case block of
        None \<Rightarrow> None
      | Some b \<Rightarrow>
          (case block_number b of
             None \<Rightarrow> None
           | Some n \<Rightarrow> if b = example_block n then Some (put_uint64 n) else None))"

definition ex_decBlock :: "bytes \<Rightarrow> Block option" where
  "ex_decBlock x = (if length x = 8 then Some (example_block (of_nat (bytes_nat x))) else None)"

definition ex_encRange :: "BlockRange \<Rightarrow> bytes" where
  "ex_encRange r = put_uint64 (br_Start r) @ put_uint64 (br_End r)"

primrec ex_decRanges :: "nat \<Rightarrow> bytes \<Rightarrow> BlockRange list" where
  "ex_decRanges 0 x = []"
| "ex_decRanges (Suc n) x =
     \<lparr>br_Start = of_nat (bytes_nat (take 8 x)), br_End = of_nat (bytes_nat (take 8 (drop 8 x)))\<rparr>
     # ex_decRanges n (drop 16 x)"

definition map_env :: "(bytes \<rightharpoonup> bytes) \<Rightarrow> (bytes \<rightharpoonup> bytes, (bytes \<times> bytes) list) pebble_env" where
  "map_env disk = \<lparr>
     pb_Open = (\<lambda>_ _. Ok disk),
     pb_Close = (\<lambda>_. None),
     pb_Get = (\<lambda>d k. case d k of None \<Rightarrow> Err ErrNotFound | Some v \<Rightarrow> Ok v),
     pb_Set = (\<lambda>d k v. (None, d(k \<mapsto> v))),
     pb_NewBatch = (\<lambda>_. []),
     pb_BatchSet = (\<lambda>b k v. Ok (b @ [(k, v)])),
     pb_Commit = (\<lambda>d b. (None, kv_apply d b)),
     rlp_encBlock = ex_encBlock,
     rlp_decBlock = ex_decBlock,
     rlp_encRanges = (\<lambda>rs. Some (concat (map ex_encRange rs))),
     rlp_decRanges = (\<lambda>x. Some (ex_decRanges (length x div 16) x))\<rparr>"

text \<open>The same store on a disk that is full: every commit fails and writes nothing.\<close>

definition full_disk_env :: "(bytes \<rightharpoonup> bytes, (bytes \<times> bytes) list) pebble_env" where
  "full_disk_env = (map_env Map.empty)\<lparr>pb_Commit := \<lambda>d b. (Some (KvFailure ''no space left''), d)\<rparr>"

definition empty_store :: "(bytes \<rightharpoonup> bytes) PebbleStorage" where
  "empty_store = \<lparr>ps_db = Map.empty, ps_gapTracker = NewGapTracker\<rparr>"

lemma bytes_nat_put: "of_nat (bytes_nat (put_uint64 x)) = x"
  using be_uint64_put_uint64 [of x] by (simp add: be_uint64_def)

lemma ex_ranges_roundtrip: "ex_decRanges (length rs) (concat (map ex_encRange rs)) = rs"
  by (induction rs) (simp_all add: ex_encRange_def bytes_nat_put)

lemma ex_ranges_length: "length (concat (map ex_encRange rs)) = 16 * length rs"
  by (induction rs) (simp_all add: ex_encRange_def)

lemma map_env_ranges: "rlp_ranges_ok (map_env disk)"
  by (simp add: rlp_ranges_ok_def map_env_def ex_ranges_length ex_ranges_roundtrip)

lemma ex_storable: "rlp_storable (map_env disk) (example_block n)" "rlp_storable full_disk_env (example_block n)"
  by (simp_all add: rlp_storable_def full_disk_env_def map_env_def ex_encBlock_def ex_decBlock_def bytes_nat_put)

lemma map_env_contract: "pebble_contract (map_env disk) (\<lambda>d. d) (\<lambda>b. b)"
  by (auto simp: pebble_contract_def map_env_def split: option.splits)

lemma full_disk_contract: "pebble_contract full_disk_env (\<lambda>d. d) (\<lambda>b. b)"
  by (auto simp: pebble_contract_def full_disk_env_def map_env_def split: option.splits)

interpretation map_db: pebble_engine "map_env disk" "\<lambda>d. d" "\<lambda>b. b"
  by (rule pebble_engine.intro) (rule map_env_contract)

lemma empty_store_inv [simp]: "ps_inv env (\<lambda>d. d) empty_store"
  by (simp add: ps_inv_def empty_store_def)

lemma map_env_calls:
  "pb_Get (map_env disk) d k = (case d k of None \<Rightarrow> Err ErrNotFound | Some v \<Rightarrow> Ok v)"
  "pb_Set (map_env disk) d k v = (None, d(k \<mapsto> v))"
  "pb_NewBatch (map_env disk) d = []"
  "pb_BatchSet (map_env disk) b k v = Ok (b @ [(k, v)])"
  "pb_Commit (map_env disk) d b = (None, kv_apply d b)"
  "rlp_encBlock (map_env disk) = ex_encBlock"
  "rlp_encRanges (map_env disk) rs = Some (concat (map ex_encRange rs))"
  "pb_Close (map_env disk) d = None"
  by (simp_all add: map_env_def)

lemma ex_encBlock_example [simp]: "ex_encBlock (Some (example_block n)) = Some (put_uint64 n)"
  by (simp add: ex_encBlock_def)

lemma map_env_meta:
  assumes "kv_wf (map_env disk) d"
  shows "\<exists>b'. updateMetadataBatch (map_env disk) d b mn mx c = Ok b'"
proof -
  show ?thesis
    by (simp add: updateMetadataBatch_def map_env_calls map_db.readMeta_ok [OF assms])
qed

lemma map_env_store_ok:
  assumes "ps_inv (map_env disk) (\<lambda>d. d) s"
  shows "fst (pebble_StoreBlock (map_env disk) s (Some (example_block n))) = Ok ()"
proof -
  obtain b' where "updateMetadataBatch (map_env disk) (ps_db s)
      [(makeBlockNumberKey n, put_uint64 n), (makeBlockHashKey (ucast n), put_uint64 n)] n n 1 = Ok b'"
    using map_env_meta [of disk "ps_db s"] assms unfolding ps_inv_def by blast
  then show ?thesis
    by (simp add: pebble_StoreBlock_def storeBlockInternal_def prepareBlock_def map_env_calls
        batchBlock_def updateMetadata_eq saveGapTracker_def)
qed

section \<open>Properties of the engine\<close>

text \<open>The tracker holds exactly the stored blocks (block \<open>2^64 - 1\<close> is never tracked).\<close>

definition pebble_exact :: "('d \<Rightarrow> bytes \<rightharpoonup> bytes) \<Rightarrow> 'd PebbleStorage \<Rightarrow> bool" where
  "pebble_exact kv s \<longleftrightarrow>
     available (ps_gapTracker s) = stored_numbers (kv (ps_db s)) - {u64_max}"

context pebble_engine
begin

lemma store_outcomes:
  assumes "ps_inv env kv s" and "rlp_storable env b" and "blk_Header b = Some h"
    and "pebble_StoreBlock env s (Some b) = (r, s')"
  shows "ps_inv env kv s' \<and>
    (\<forall>n. n \<noteq> hd_Number h \<longrightarrow> pebble_GetBlock env s' n = pebble_GetBlock env s n) \<and>
    (case r of
       Ok _ \<Rightarrow> pebble_GetBlock env s' (hd_Number h) = Ok b \<and>
              pebble_GetBlockByHash env s' (hd_Hash h) = Ok b
     | Err _ \<Rightarrow> pebble_GetBlock env s' (hd_Number h) \<in> {Ok b, pebble_GetBlock env s (hd_Number h)}
     | Panic _ \<Rightarrow> False)"
proof -
  have wf: "kv_wf env (kv (ps_db s))" using assms(1) by (simp add: ps_inv_def)
  have n: "block_number b = Some (hd_Number h)" using assms(3) by (simp add: block_number_def)
  have op: "st_StoreBlock (pebble_ops env) s (Some b) = (r, s')" using assms(4) by (simp add: pebble_ops_def)
  show ?thesis
  proof (cases r)
    case (Ok u)
    have s': "ps_inv env kv s'" "pebble_view env kv s' = (pebble_view env kv s)(hd_Number h \<mapsto> b)"
      using store.store_ok [OF assms(1,2) op [unfolded Ok] n] by simp_all
    then have wf': "kv_wf env (kv (ps_db s'))" by (simp add: ps_inv_def)
    note eff = store_ok_effect [OF wf assms(2,3) assms(4) [unfolded Ok]]
    show ?thesis
      using s' Ok get_by_hash_view [OF wf' eff(3)] by (simp add: get_block_view [OF wf] get_block_view [OF wf'])
  next
    case (Err e)
    have s': "ps_inv env kv s'" "pebble_view env kv s' = pebble_view env kv s \<or>
        pebble_view env kv s' = (pebble_view env kv s)(hd_Number h \<mapsto> b)"
      using store.store_err [OF assms(1,2) op [unfolded Err] n] by simp_all
    then have wf': "kv_wf env (kv (ps_db s'))" by (simp add: ps_inv_def)
    show ?thesis using s' Err by (auto simp: get_block_view [OF wf] get_block_view [OF wf'])
  next
    case (Panic p)
    with store_no_panic [OF wf assms(3), of p] assms(4) show ?thesis by simp
  qed
qed

lemma store_batch:
  assumes "ps_inv env kv s" and "list_all (rlp_storable env) bs" and "distinct (map block_number bs)"
    and "pebble_StoreBlocks env s (map Some bs) = (Ok u, s')"
  shows "ps_inv env kv s' \<and>
    (\<forall>b \<in> set bs. \<forall>n. block_number b = Some n \<longrightarrow> pebble_GetBlock env s' n = Ok b) \<and>
    (\<forall>n. n \<notin> numbers bs \<longrightarrow> pebble_GetBlock env s' n = pebble_GetBlock env s n) \<and>
    (pebble_exact kv s \<longrightarrow> pebble_exact kv s')"
proof -
  note eff = store_blocks_ok [OF assms(1,2,4)]
  have wf: "kv_wf env (kv (ps_db s))" "kv_wf env (kv (ps_db s'))"
    using assms(1) eff(1) by (simp_all add: ps_inv_def)
  have "pebble_exact kv s \<longrightarrow> pebble_exact kv s'" using eff(3,4) by (auto simp: pebble_exact_def)
  with eff(1,2) show ?thesis
    by (simp add: get_block_view [OF wf(1)] get_block_view [OF wf(2)] view_after_other
        view_after_stored [OF assms(3)])
qed

lemma lost_commit:
  assumes "ps_inv env kv s" and "list_all (rlp_storable env) bs"
    and "pebble_StoreBlocks env s (map Some bs) = (Err (CommitFailed e), s')"
    and "kv (ps_db s') = kv (ps_db s)"
    and "n \<in> numbers bs" and "n \<noteq> u64_max" and "\<not> pebble_HasBlock env s n"
  shows "\<not> pebble_HasBlock env s' n \<and> HasBlock (ps_gapTracker s') n \<and> n \<notin> covered (pebble_GetGaps s')"
proof -
  have "bs \<noteq> []" using assms(5) by auto
  note g = store_blocks_commit_failed [OF assms(1,2) this assms(3)]
  have "HasBlock (ps_gapTracker s') n" "n \<in> available (ps_gapTracker s')"
    using g assms(5,6) by (simp_all add: gt.has_iff)
  moreover have "\<not> pebble_HasBlock env s' n"
    using assms(4,7) by (simp add: pebble_HasBlock_def get_eq)
  ultimately show ?thesis using GetGaps_props(2) [OF g(1)] by (simp add: pebble_GetGaps_def)
qed

lemma metadata_after_store:
  assumes "ps_inv env kv s" and "rlp_storable env b" and "blk_Header b = Some h"
    and "pebble_StoreBlock env s (Some b) = (Ok u, s')"
    and "pebble_GetMinBlock env s = Ok mn" and "pebble_GetMaxBlock env s = Ok mx"
    and "pebble_GetBlockCount env s = Ok c"
  shows "pebble_GetMinBlock env s' = Ok (if mn = 0 \<or> hd_Number h < mn then hd_Number h else mn)"
    and "pebble_GetMaxBlock env s' = Ok (max mx (hd_Number h))"
    and "pebble_GetBlockCount env s' = Ok (c + 1)"
proof -
  have wf: "kv_wf env (kv (ps_db s))" using assms(1) by (simp add: ps_inv_def)
  have wf': "kv_wf env (kv (ps_db s'))" by (rule store_ok_effect [OF wf assms(2,3,4)])
  have m: "mn = meta_value (kv (ps_db s)) prefixMetaMin" "mx = meta_value (kv (ps_db s)) prefixMetaMax"
    "c = meta_value (kv (ps_db s)) prefixMetaCount"
    using assms(5-7) wf
    by (simp_all add: pebble_GetMinBlock_def pebble_GetMaxBlock_def pebble_GetBlockCount_def readMeta_ok)
  obtain x y where s': "kv (ps_db s') = (committed (kv (ps_db s)) h x)(prefixGapRanges \<mapsto> y)"
    by (rule storeBlock_cases [OF wf assms(3) assms(4) [unfolded pebble_StoreBlock_def]]) auto
  show "pebble_GetMinBlock env s' = Ok (if mn = 0 \<or> hd_Number h < mn then hd_Number h else mn)"
    "pebble_GetMaxBlock env s' = Ok (max mx (hd_Number h))" "pebble_GetBlockCount env s' = Ok (c + 1)"
    using s' m
    by (auto simp: pebble_GetMinBlock_def pebble_GetMaxBlock_def pebble_GetBlockCount_def
        readMeta_ok [OF wf'] committed_def meta_value_meta_writes max_def not_less)
qed

lemma restart_after_close:
  assumes "ps_inv env kv s" and "rlp_ranges_ok env" and "pebble_Close env s = (Ok u, s')"
    and "pb_Open env dir (case opts of None \<Rightarrow> DefaultPebbleOptions | Some o1 \<Rightarrow> o1) = Ok db"
    and "kv db = kv (ps_db s')"
  shows "\<exists>s2. NewPebbleStorage env dir opts = Ok s2 \<and> ps_gapTracker s2 = ps_gapTracker s \<and>
    (\<forall>n. pebble_GetBlock env s2 n = pebble_GetBlock env s n)"
proof -
  obtain v where save: "saveGapTracker env s = (Ok v, s')"
    using assms(3) by (auto simp: pebble_Close_def split: prod.splits outcome.splits)
  have kv': "kv (ps_db s') (makeBlockNumberKey n) = kv (ps_db s) (makeBlockNumberKey n)" for n
    using save by (rule saveGapTracker_cases) auto
  have "loadGapTracker env \<lparr>ps_db = db, ps_gapTracker = NewGapTracker\<rparr> =
      Ok \<lparr>ps_db = db, ps_gapTracker = ps_gapTracker s\<rparr>"
    by (rule load_after_save [OF _ assms(2) save assms(5)]) (use assms(1) in \<open>simp add: ps_inv_def\<close>)
  with assms(4,5) kv' show ?thesis
    by (simp add: NewPebbleStorage_def Let_def pebble_GetBlock_def get_eq)
qed

lemma reach_tracker:
  assumes "rlp_ranges_ok env" and "pebble_reach env kv s" and "HasBlock (ps_gapTracker s) n"
  shows "\<exists>b. pebble_GetBlock env s n = Ok b \<and> block_number b = Some n"
proof -
  have s: "ps_inv env kv s" "available (ps_gapTracker s) \<subseteq> stored_numbers (kv (ps_db s))"
    using reach_sound [OF assms(1,2)] by (simp_all add: ps_sound_def)
  then have "n \<in> stored_numbers (kv (ps_db s))" using assms(3) gt.has_iff by (auto simp: ps_inv_def)
  with s(1) show ?thesis
    using kv_wf_number [of env "kv (ps_db s)" n]
    by (auto simp: stored_numbers_def ps_inv_def pebble_GetBlock_def get_eq)
qed

end



text \<open>
  A successful \<open>StoreBlocks\<close> of any batch with distinct numbers, in any order and with any
  holes, stores every block of the batch, leaves all other numbers alone, and keeps the tracker in
  agreement with the database.
\<close>

theorem pebble_store_batch:
  assumes "pebble_contract env kv wr" and "ps_inv env kv s"
    and "list_all (rlp_storable env) bs" and "distinct (map block_number bs)"
    and "pebble_StoreBlocks env s (map Some bs) = (Ok u, s')"
  shows "ps_inv env kv s' \<and>
    (\<forall>b \<in> set bs. \<forall>n. block_number b = Some n \<longrightarrow> pebble_GetBlock env s' n = Ok b) \<and>
    (\<forall>n. n \<notin> numbers bs \<longrightarrow> pebble_GetBlock env s' n = pebble_GetBlock env s n) \<and>
    (pebble_exact kv s \<longrightarrow> pebble_exact kv s')"
  using pebble_engine.store_batch [OF pebble_engine.intro [OF assms(1)] assms(2-5)] .

lemma map_env_batch_ok:
  "fst (pebble_StoreBlocks (map_env Map.empty) empty_store (map Some [example_block 9, example_block 4])) = Ok ()"
proof -
  have "\<exists>b'. updateMetadataBatch (map_env Map.empty) Map.empty b mn mx c = Ok b'" for b mn mx c
    by (rule map_env_meta) simp
  then show ?thesis
    by (auto simp: pebble_StoreBlocks_def empty_store_def map_env_calls batchBlock_def
        saveGapTracker_def split: outcome.splits) (metis outcome.distinct)+
qed

theorem pebble_store_batch_witness:
  "pebble_exact (\<lambda>d. d)
     (snd (pebble_StoreBlocks (map_env Map.empty) empty_store (map Some [example_block 9, example_block 4]))) \<and>
   pebble_GetBlock (map_env Map.empty)
     (snd (pebble_StoreBlocks (map_env Map.empty) empty_store (map Some [example_block 9, example_block 4]))) 4 =
       Ok (example_block 4)"
proof -
  let ?r = "pebble_StoreBlocks (map_env Map.empty) empty_store (map Some [example_block 9, example_block 4])"
  have call: "?r = (Ok (), snd ?r)" using map_env_batch_ok by (simp add: prod_eq_iff)
  have "pebble_exact (\<lambda>d. d) empty_store"
    by (simp add: pebble_exact_def empty_store_def stored_numbers_def)
  with pebble_store_batch [OF map_env_contract empty_store_inv _ _ call] show ?thesis
    by (simp add: ex_storable)
qed

text \<open>
  C10. A tracker survives a restart: after \<open>Close\<close> returned no error, opening the same data
  directory again gives a storage with the identical tracker and the same blocks.
\<close>

theorem pebble_restart_restores:
  assumes "pebble_contract env kv wr" and "rlp_ranges_ok env" and "ps_inv env kv s"
    and "pebble_Close env s = (Ok u, s')"
    and "pb_Open env dir (case opts of None \<Rightarrow> DefaultPebbleOptions | Some o1 \<Rightarrow> o1) = Ok db"
    and "kv db = kv (ps_db s')"
  shows "\<exists>s2. NewPebbleStorage env dir opts = Ok s2 \<and> ps_gapTracker s2 = ps_gapTracker s \<and>
    (\<forall>n. pebble_GetBlock env s2 n = pebble_GetBlock env s n)"
  using pebble_engine.restart_after_close [OF pebble_engine.intro [OF assms(1)] assms(3,2,4-6)] .

definition two_block_store :: "(bytes \<rightharpoonup> bytes) PebbleStorage" where
  "two_block_store = empty_store\<lparr>ps_gapTracker := MarkAvailable NewGapTracker 5 7\<rparr>"

theorem pebble_restart_restores_witness:
  "\<exists>disk s2. NewPebbleStorage (map_env disk) ''data'' None = Ok s2 \<and>
     ps_gapTracker s2 = MarkAvailable NewGapTracker 5 7"
proof -
  let ?x = "concat (map ex_encRange (GetAvailableRanges (MarkAvailable NewGapTracker 5 7)))"
  let ?disk = "[prefixGapRanges \<mapsto> ?x]"
  have inv: "ps_inv (map_env ?disk) (\<lambda>d. d) two_block_store"
    by (simp add: ps_inv_def two_block_store_def empty_store_def gt.inv_mark gt.inv_new)
  have close: "pebble_Close (map_env ?disk) two_block_store = (Ok (), two_block_store\<lparr>ps_db := ?disk\<rparr>)"
    by (simp add: pebble_Close_def saveGapTracker_def map_env_calls two_block_store_def empty_store_def)
  have open': "pb_Open (map_env ?disk) ''data'' (case None of None \<Rightarrow> DefaultPebbleOptions | Some o1 \<Rightarrow> o1) = Ok ?disk"
    by (simp add: map_env_def)
  from pebble_restart_restores [OF map_env_contract map_env_ranges inv close open'] show ?thesis
    by (auto simp: two_block_store_def)
qed

text \<open>
  C11. Under single-block writes, with failures, crashes and restarts at any point, a block that
  the tracker reports as available can be read, and is the block with that number.
\<close>

theorem pebble_crash_safe:
  assumes "pebble_contract env kv wr" and "rlp_ranges_ok env" and "pebble_reach env kv s"
    and "HasBlock (ps_gapTracker s) n"
  shows "\<exists>b. pebble_GetBlock env s n = Ok b \<and> block_number b = Some n"
  using pebble_engine.reach_tracker [OF pebble_engine.intro [OF assms(1)] assms(2-4)] .

theorem pebble_crash_safe_witness:
  "pebble_reach (map_env Map.empty) (\<lambda>d. d) (snd (pebble_StoreBlock (map_env Map.empty) empty_store (Some (example_block 5)))) \<and>
   (\<exists>b. pebble_GetBlock (map_env Map.empty)
     (snd (pebble_StoreBlock (map_env Map.empty) empty_store (Some (example_block 5)))) 5 = Ok b \<and> block_number b = Some 5)"
proof -
  let ?r = "pebble_StoreBlock (map_env Map.empty) empty_store (Some (example_block 5))"
  have "pebble_reach (map_env Map.empty) (\<lambda>d. d) empty_store"
    unfolding empty_store_def by (rule reach_create) simp
  then have reach: "pebble_reach (map_env Map.empty) (\<lambda>d. d) (snd ?r)"
    by (rule reach_store [OF _ ex_storable(1) prod.collapse [symmetric]])
  have call: "?r = (Ok (), snd ?r)"
    using map_env_store_ok [OF empty_store_inv] by (simp add: prod_eq_iff)
  have wf: "kv_wf (map_env Map.empty) (ps_db empty_store)" by (simp add: empty_store_def)
  have "ps_gapTracker (snd ?r) = MarkAvailable NewGapTracker 5 6"
    using map_db.store_ok_effect(4) [OF wf ex_storable(1) example_block_simps(1) call]
    by (simp add: empty_store_def)
  moreover have "HasBlock (MarkAvailable NewGapTracker 5 6) 5" by code_simp
  ultimately have has: "HasBlock (ps_gapTracker (snd ?r)) 5" by simp
  from reach pebble_crash_safe [OF map_env_contract map_env_ranges reach has] show ?thesis
    by (rule conjI)
qed

text \<open>
  C12. \<open>StoreBlocks\<close> marks the blocks of a batch in the tracker before it commits the batch. When
  the commit fails and nothing was written, the blocks stay marked: they are not stored, yet they
  are tracked as available and \<open>GetGaps\<close> will not report them again.
\<close>

theorem pebble_lost_commit_hides_blocks:
  assumes "pebble_contract env kv wr" and "ps_inv env kv s" and "list_all (rlp_storable env) bs"
    and "pebble_StoreBlocks env s (map Some bs) = (Err (CommitFailed e), s')"
    and "kv (ps_db s') = kv (ps_db s)"
    and "n \<in> numbers bs" and "n \<noteq> u64_max" and "\<not> pebble_HasBlock env s n"
  shows "\<not> pebble_HasBlock env s' n \<and> HasBlock (ps_gapTracker s') n \<and> n \<notin> covered (pebble_GetGaps s')"
  using pebble_engine.lost_commit [OF pebble_engine.intro [OF assms(1)] assms(2-8)] .

lemma full_disk_batch:
  "pebble_StoreBlocks full_disk_env empty_store [Some (example_block 4)] =
     (Err (CommitFailed (KvFailure ''no space left'')),
      empty_store\<lparr>ps_gapTracker := MarkAvailable NewGapTracker 4 5\<rparr>)"
  by (simp add: pebble_StoreBlocks_def full_disk_env_def map_env_def batchBlock_def
      updateMetadataBatch_def readMeta_def empty_store_def)

theorem pebble_lost_commit_hides_blocks_witness:
  "\<not> pebble_HasBlock full_disk_env (snd (pebble_StoreBlocks full_disk_env empty_store [Some (example_block 4)])) 4 \<and>
   HasBlock (ps_gapTracker (snd (pebble_StoreBlocks full_disk_env empty_store [Some (example_block 4)]))) 4"
proof -
  have "\<not> pebble_HasBlock full_disk_env empty_store 4"
    by (simp add: pebble_HasBlock_def full_disk_env_def map_env_def empty_store_def)
  with pebble_lost_commit_hides_blocks [OF full_disk_contract empty_store_inv, of "[example_block 4]" _ _ 4]
    full_disk_batch
  show ?thesis by (simp add: ex_storable empty_store_def)
qed

text \<open>
  The metadata after a successful \<open>StoreBlock\<close>: the maximum is the maximum of the old one
  and the block's number, the count goes up by one (also when the number was stored before), and
  the minimum is lowered to the block's number, except that a minimum of 0 counts as unset and is
  overwritten. So once block 0 is stored, the next block stored hides it from \<open>GetMinBlock\<close>.
\<close>

theorem pebble_metadata_after_store:
  assumes "pebble_contract env kv wr" and "ps_inv env kv s"
    and "rlp_storable env b" and "blk_Header b = Some h"
    and "pebble_StoreBlock env s (Some b) = (Ok u, s')"
    and "pebble_GetMinBlock env s = Ok mn" and "pebble_GetMaxBlock env s = Ok mx"
    and "pebble_GetBlockCount env s = Ok c"
  shows "pebble_GetMaxBlock env s' = Ok (max mx (hd_Number h)) \<and>
    pebble_GetBlockCount env s' = Ok (c + 1) \<and>
    pebble_GetMinBlock env s' = Ok (if mn = 0 \<or> hd_Number h < mn then hd_Number h else mn)"
  using pebble_engine.metadata_after_store [OF pebble_engine.intro [OF assms(1)] assms(2-8)] by blast

theorem pebble_metadata_after_store_witness:
  "let s = snd (pebble_StoreBlock (map_env Map.empty) empty_store (Some (example_block 5))) in
   pebble_GetMinBlock (map_env Map.empty) s = Ok 5 \<and> pebble_GetMaxBlock (map_env Map.empty) s = Ok 5 \<and>
   pebble_GetBlockCount (map_env Map.empty) s = Ok 1"
proof -
  let ?r = "pebble_StoreBlock (map_env Map.empty) empty_store (Some (example_block 5))"
  have call: "?r = (Ok (), snd ?r)"
    using map_env_store_ok [OF empty_store_inv] by (simp add: prod_eq_iff)
  have "pebble_GetMinBlock (map_env Map.empty) empty_store = Ok 0"
    "pebble_GetMaxBlock (map_env Map.empty) empty_store = Ok 0"
    "pebble_GetBlockCount (map_env Map.empty) empty_store = Ok 0"
    by (simp_all add: pebble_GetMinBlock_def pebble_GetMaxBlock_def pebble_GetBlockCount_def
        readMeta_def map_env_calls empty_store_def)
  from pebble_metadata_after_store [OF map_env_contract empty_store_inv ex_storable(1)
      example_block_simps(1) call this]
  show ?thesis by (simp add: max_def Let_def)
qed

end
