(* ===== verification/Checkpoint_Signatures.thy ===== *)
theory Checkpoint_Signatures
  imports Chain_Types
begin

text \<open>
  \<open>pkg/checkpoint/signature_verifier.go\<close>: the stake-weighted verification of checkpoint
  signatures. The secp256k1 functions of go-ethereum are arguments of the definitions
  (\<open>crypto_env\<close>); stakes are unbounded integers as \<open>big.Int\<close> is.
\<close>

section \<open>Model\<close>

record ('k, 'p) crypto_env = hash_env +
  cr_SigToPub :: "bytes \<Rightarrow> bytes \<Rightarrow> 'k option"
  cr_PubkeyToAddress :: "'k \<Rightarrow> address"
  cr_Sign :: "bytes \<Rightarrow> 'p \<Rightarrow> bytes option"

datatype signature_error =
    InvalidSignatureLength nat
  | RecoverFailed
  | AddressMismatch address address
  | NoSignatures
  | ZeroTotalStake
  | InsufficientStake int int int
  | InvalidRecoveryID byte
  | BLSNotImplemented
  | SignFailed

record SignatureVerifier =
  sv_chainID :: bigint

definition NewSignatureVerifier :: "bigint \<Rightarrow> SignatureVerifier" where
  "NewSignatureVerifier chainID = \<lparr>sv_chainID = chainID\<rparr>"

text \<open>\<open>crypto.Keccak256Hash(m).Bytes()\<close>.\<close>

definition message_hash :: "('k, 'p) crypto_env \<Rightarrow> bytes \<Rightarrow> bytes" where
  "message_hash C message = hash_bytes (keccak256 C message)"

text \<open>
  The normalised recovery byte \<open>v_byte\<close> is computed but not used: the signature goes to
  \<open>SigToPub\<close> as it came.
\<close>

definition VerifyECDSASignature :: "('k, 'p) crypto_env \<Rightarrow> 'k \<Rightarrow> bytes \<Rightarrow> bytes \<Rightarrow> bool" where
  "VerifyECDSASignature C publicKey message signature =
     (if length signature \<noteq> 65 then False
      else (case cr_SigToPub C (message_hash C message) signature of
              None \<Rightarrow> False
            | Some recoveredPub \<Rightarrow> cr_PubkeyToAddress C recoveredPub = cr_PubkeyToAddress C publicKey))"

text \<open>\<open>FillBytes\<close> writes the absolute value; \<open>int64\<close> of a block number may be negative.\<close>

definition createCheckpointMessage :: "Checkpoint \<Rightarrow> bytes" where
  "createCheckpointMessage cp =
     nat_bytes 32 (nat \<bar>to_int64 (uint (cp_BlockNumber cp))\<bar>)
     @ hash_bytes (cp_BlockHash cp) @ hash_bytes (cp_StateRoot cp)"

definition VerifyCheckpointSignature ::
  "('k, 'p) crypto_env \<Rightarrow> Checkpoint \<Rightarrow> Validator \<Rightarrow> bytes \<Rightarrow> (signature_error, unit) outcome" where
  "VerifyCheckpointSignature C cp validator signature =
     (let message = createCheckpointMessage cp in
      if length signature \<noteq> 65 then Err (InvalidSignatureLength (length signature))
      else
        (let sigCopy = (if signature ! 64 \<ge> 27 then signature[64 := signature ! 64 - 27] else signature) in
         case cr_SigToPub C (message_hash C message) sigCopy of
           None \<Rightarrow> Err RecoverFailed
         | Some recoveredPub \<Rightarrow>
             (let recoveredAddr = cr_PubkeyToAddress C recoveredPub in
              if recoveredAddr \<noteq> val_Address validator
              then Err (AddressMismatch recoveredAddr (val_Address validator)) else Ok ())))"

text \<open>The first loop: the map of active validators and their total stake.\<close>

definition addValidator ::
  "(string \<rightharpoonup> Validator) \<times> int \<Rightarrow> Validator option \<Rightarrow> (string \<rightharpoonup> Validator) \<times> int" where
  "addValidator acc val =
     (case val of
        None \<Rightarrow> acc
      | Some v \<Rightarrow>
          if val_Active v
          then ((fst acc)(val_ID v \<mapsto> v),
                case val_Stake v of None \<Rightarrow> snd acc | Some s \<Rightarrow> snd acc + s)
          else acc)"

definition validatorMapAndStake :: "Validator option list \<Rightarrow> (string \<rightharpoonup> Validator) \<times> int" where
  "validatorMapAndStake validators = foldl addValidator (Map.empty, 0) validators"

text \<open>The second loop: the stake behind valid signatures.\<close>

definition addSignature ::
  "('k, 'p) crypto_env \<Rightarrow> Checkpoint \<Rightarrow> (string \<rightharpoonup> Validator) \<Rightarrow> nat \<times> int \<Rightarrow> Signature \<Rightarrow> nat \<times> int" where
  "addSignature C cp vm acc sig =
     (case vm (sig_ValidatorID sig) of
        None \<Rightarrow> acc
      | Some v \<Rightarrow>
          (case VerifyCheckpointSignature C cp v (sig_Signature sig) of
             Ok _ \<Rightarrow> (fst acc + 1, case val_Stake v of None \<Rightarrow> snd acc | Some s \<Rightarrow> snd acc + s)
           | Err _ \<Rightarrow> acc
           | Panic _ \<Rightarrow> acc))"

definition VerifyCheckpointSignatures ::
  "('k, 'p) crypto_env \<Rightarrow> Checkpoint option \<Rightarrow> Validator option list \<Rightarrow> (signature_error, unit) outcome" where
  "VerifyCheckpointSignatures C checkpoint validators =
     deref checkpoint (\<lambda>cp.
     if length (cp_ValidatorSigs cp) = 0 then Err NoSignatures
     else
       (let (validatorMap, totalStake) = validatorMapAndStake validators in
        if totalStake = 0 then Err ZeroTotalStake
        else
          (let signedStake = snd (foldl (addSignature C cp validatorMap) (0, 0) (cp_ValidatorSigs cp));
               threshold = totalStake * 66 div 100
           in if signedStake < threshold then Err (InsufficientStake signedStake threshold totalStake)
              else Ok ())))"

definition RecoverSignerAddress ::
  "('k, 'p) crypto_env \<Rightarrow> bytes \<Rightarrow> bytes \<Rightarrow> (signature_error, address) outcome" where
  "RecoverSignerAddress C message signature =
     (if length signature \<noteq> 65 then Err (InvalidSignatureLength (length signature))
      else (case cr_SigToPub C (message_hash C message) signature of
              None \<Rightarrow> Err RecoverFailed
            | Some recoveredPub \<Rightarrow> Ok (cr_PubkeyToAddress C recoveredPub)))"

definition VerifyBLSSignature :: "bytes \<Rightarrow> bytes \<Rightarrow> bytes \<Rightarrow> (signature_error, bool) outcome" where
  "VerifyBLSSignature publicKey message signature = Err BLSNotImplemented"

definition AggregateBLSSignatures :: "bytes list \<Rightarrow> (signature_error, bytes) outcome" where
  "AggregateBLSSignatures signatures = Err BLSNotImplemented"

definition CreateSignature ::
  "('k, 'p) crypto_env \<Rightarrow> 'p \<Rightarrow> bytes \<Rightarrow> (signature_error, bytes) outcome" where
  "CreateSignature C privateKey message =
     (case cr_Sign C (message_hash C message) privateKey of None \<Rightarrow> Err SignFailed | Some s \<Rightarrow> Ok s)"

definition ValidateSignatureFormat :: "bytes \<Rightarrow> (signature_error, unit) outcome" where
  "ValidateSignatureFormat signature =
     (if length signature \<noteq> 65 then Err (InvalidSignatureLength (length signature))
      else
        (let recoveryID = signature ! 64 in
         if recoveryID \<noteq> 0 \<and> recoveryID \<noteq> 1 \<and> recoveryID \<noteq> 27 \<and> recoveryID \<noteq> 28
         then Err (InvalidRecoveryID recoveryID) else Ok ()))"

definition GetMessageHash :: "('k, 'p) crypto_env \<Rightarrow> bytes \<Rightarrow> hash" where
  "GetMessageHash C message = keccak256 C message"

section \<open>What the loops compute\<close>

definition stake :: "Validator \<Rightarrow> int" where
  "stake v = (case val_Stake v of None \<Rightarrow> 0 | Some s \<Rightarrow> s)"

definition active_validators :: "Validator option list \<Rightarrow> Validator list" where
  "active_validators vs = filter val_Active (List.map_filter id vs)"

definition total_stake :: "Validator option list \<Rightarrow> int" where
  "total_stake vs = sum_list (map stake (active_validators vs))"

definition validator_map :: "Validator option list \<Rightarrow> (string \<rightharpoonup> Validator)" where
  "validator_map vs = map_of (rev (map (\<lambda>v. (val_ID v, v)) (active_validators vs)))"

lemma active_validators_simps [simp]:
  "active_validators [] = []"
  "active_validators (None # vs) = active_validators vs"
  "active_validators (Some v # vs) = (if val_Active v then v # active_validators vs else active_validators vs)"
  by (simp_all add: active_validators_def List.map_filter_def)

lemma addValidator_Some:
  "addValidator acc (Some v) =
     (if val_Active v then ((fst acc)(val_ID v \<mapsto> v), snd acc + stake v) else acc)"
  by (simp add: addValidator_def stake_def split: option.split)

lemma foldl_addValidator:
  "foldl addValidator acc vs =
     (fst acc ++ map_of (rev (map (\<lambda>v. (val_ID v, v)) (active_validators vs))), snd acc + total_stake vs)"
proof (induction vs arbitrary: acc)
  case (Cons v vs)
  show ?case
  proof (cases v)
    case (Some w)
    then show ?thesis using Cons by (simp add: addValidator_Some total_stake_def)
  qed (use Cons in \<open>simp add: addValidator_def total_stake_def\<close>)
qed (simp add: total_stake_def)

lemma validatorMapAndStake_eq: "validatorMapAndStake vs = (validator_map vs, total_stake vs)"
  by (simp add: validatorMapAndStake_def foldl_addValidator validator_map_def)

lemma validator_map_Some:
  "validator_map vs i = Some v \<Longrightarrow> v \<in> set (active_validators vs) \<and> val_ID v = i"
  by (auto simp: validator_map_def dest!: map_of_SomeD)

lemma validator_map_unique:
  assumes "v \<in> set (active_validators vs)" and "distinct (map val_ID (active_validators vs))"
  shows "validator_map vs (val_ID v) = Some v"
proof -
  have "distinct (map fst (rev (map (\<lambda>v. (val_ID v, v)) (active_validators vs))))"
    using assms(2) by (simp add: rev_map [symmetric] comp_def)
  with assms(1) show ?thesis by (simp add: validator_map_def)
qed

definition signs :: "('k, 'p) crypto_env \<Rightarrow> Checkpoint \<Rightarrow> Validator option list \<Rightarrow> Signature \<Rightarrow> Validator option" where
  "signs C cp vs sig =
     (case validator_map vs (sig_ValidatorID sig) of
        None \<Rightarrow> None
      | Some v \<Rightarrow> if VerifyCheckpointSignature C cp v (sig_Signature sig) = Ok () then Some v else None)"

definition signed_stake :: "('k, 'p) crypto_env \<Rightarrow> Checkpoint \<Rightarrow> Validator option list \<Rightarrow> Signature list \<Rightarrow> int" where
  "signed_stake C cp vs sigs = sum_list (map stake (List.map_filter (signs C cp vs) sigs))"

lemma VerifyCheckpointSignature_no_panic: "VerifyCheckpointSignature C cp v sig \<noteq> Panic x"
  by (simp add: VerifyCheckpointSignature_def Let_def split: option.split)

lemma snd_addSignature:
  "snd (addSignature C cp (validator_map vs) acc sig) =
     snd acc + (case signs C cp vs sig of None \<Rightarrow> 0 | Some v \<Rightarrow> stake v)"
  by (auto simp: addSignature_def signs_def stake_def split: option.split outcome.split)

lemma snd_foldl_addSignature:
  "snd (foldl (addSignature C cp (validator_map vs)) acc sigs) = snd acc + signed_stake C cp vs sigs"
proof (induction sigs arbitrary: acc)
  case (Cons sig sigs)
  then show ?case
    by (cases "signs C cp vs sig") (simp_all add: snd_addSignature signed_stake_def List.map_filter_def)
qed (simp add: signed_stake_def)

lemma VerifyCheckpointSignatures_iff:
  "VerifyCheckpointSignatures C (Some cp) vs = Ok () \<longleftrightarrow>
     cp_ValidatorSigs cp \<noteq> [] \<and> total_stake vs \<noteq> 0 \<and>
     total_stake vs * 66 div 100 \<le> signed_stake C cp vs (cp_ValidatorSigs cp)"
  by (auto simp: VerifyCheckpointSignatures_def validatorMapAndStake_eq snd_foldl_addSignature Let_def)

text \<open>Distinct signers contribute their stake once each.\<close>

lemma signs_Some:
  assumes "signs C cp vs sig = Some v"
  shows "v \<in> set (active_validators vs)" and "val_ID v = sig_ValidatorID sig"
    and "VerifyCheckpointSignature C cp v (sig_Signature sig) = Ok ()"
  using assms validator_map_Some [of vs "sig_ValidatorID sig" v]
  by (auto simp: signs_def split: option.splits if_splits)

lemma distinct_signers:
  assumes "distinct (map sig_ValidatorID sigs)"
  shows "distinct (List.map_filter (signs C cp vs) sigs)"
  using assms
proof (induction sigs)
  case (Cons sig sigs)
  have "v \<notin> set (List.map_filter (signs C cp vs) sigs)" if "signs C cp vs sig = Some v" for v
  proof
    assume "v \<in> set (List.map_filter (signs C cp vs) sigs)"
    then obtain q where "q \<in> set sigs" "signs C cp vs q = Some v" by (auto simp: List.map_filter_def)
    with signs_Some(2) [OF that] signs_Some(2) [of C cp vs q v]
    have "sig_ValidatorID sig \<in> sig_ValidatorID ` set sigs" by (metis imageI)
    with Cons.prems show False by simp
  qed
  with Cons show ?case by (auto simp: List.map_filter_def)
qed (simp add: List.map_filter_def)

section \<open>Properties\<close>


text \<open>A toy signature scheme for the examples: the first byte of a signature names the key.\<close>

definition ex_crypto :: "(nat, nat) crypto_env" where
  "ex_crypto = \<lparr>keccak256 = (\<lambda>bs. of_nat (bytes_nat bs)), rlp_EncodeList = (\<lambda>_. None),
     cr_SigToPub = (\<lambda>h sig. if length sig = 65 \<and> sig ! 64 < 4 then Some (unat (sig ! 0)) else None),
     cr_PubkeyToAddress = (\<lambda>k. of_nat k),
     cr_Sign = (\<lambda>h k. Some (of_nat k # replicate 64 0))\<rparr>"

definition ex_sig :: "string \<Rightarrow> byte \<Rightarrow> Signature" where
  "ex_sig i k = \<lparr>sig_ValidatorID = i, sig_PubKey = [], sig_Signature = k # replicate 63 0 @ [27]\<rparr>"

definition ex_validator :: "string \<Rightarrow> address \<Rightarrow> int \<Rightarrow> Validator" where
  "ex_validator i a s = \<lparr>val_ID = i, val_Address = a, val_PubKey = [], val_Stake = Some s, val_Active = True\<rparr>"

definition ex_validators :: "Validator option list" where
  "ex_validators = map Some [ex_validator ''a'' 1 10, ex_validator ''b'' 2 10, ex_validator ''c'' 3 10]"

definition ex_checkpoint :: "Signature list \<Rightarrow> Checkpoint" where
  "ex_checkpoint sigs = \<lparr>cp_BlockNumber = 10000, cp_BlockHash = 7, cp_StateRoot = 8, cp_Timestamp = 0,
     cp_ValidatorSigs = sigs, cp_ChainID = Some 137\<rparr>"

lemma ex_quorum_accepted:
  "VerifyCheckpointSignatures ex_crypto (Some (ex_checkpoint [ex_sig ''a'' 1, ex_sig ''b'' 2])) ex_validators = Ok ()"
  by (simp add: VerifyCheckpointSignatures_def ex_checkpoint_def ex_validators_def validatorMapAndStake_def
      addValidator_def addSignature_def VerifyCheckpointSignature_def ex_crypto_def ex_sig_def ex_validator_def
      Let_def nth_append)


text \<open>
  C17. Signatures are counted as often as they are repeated. A single active validator with
  positive stake whose signature on a checkpoint is valid can reach any threshold: the checkpoint
  is accepted when that one signature is listed often enough.
\<close>

theorem repeated_signature_reaches_quorum:
  assumes "v \<in> set (active_validators vs)" and "distinct (map val_ID (active_validators vs))"
    and "0 < stake v" and "total_stake vs \<noteq> 0" and "sig_ValidatorID sig = val_ID v"
    and "VerifyCheckpointSignature C cp v (sig_Signature sig) = Ok ()"
  shows "\<exists>k. VerifyCheckpointSignatures C (Some (cp\<lparr>cp_ValidatorSigs := replicate k sig\<rparr>)) vs = Ok ()"
proof -
  let ?cp = "\<lambda>k. cp\<lparr>cp_ValidatorSigs := replicate k sig\<rparr>"
  let ?t = "total_stake vs * 66 div 100"
  have verify: "VerifyCheckpointSignature C (?cp k) v (sig_Signature sig) = Ok ()" for k
    using assms(6) by (simp add: VerifyCheckpointSignature_def createCheckpointMessage_def)
  have "signs C (?cp k) vs sig = Some v" for k
    using validator_map_unique [OF assms(1,2)] assms(5) verify by (simp add: signs_def)
  then have "List.map_filter (signs C (?cp k) vs) (replicate n sig) = replicate n v" for k n
    by (induction n) (simp_all add: List.map_filter_def)
  then have signed: "signed_stake C (?cp k) vs (replicate k sig) = int k * stake v" for k
    by (simp add: signed_stake_def sum_list_replicate)
  let ?k = "Suc (nat ?t)"
  have "?t \<le> int ?k * 1" by simp
  also have "\<dots> \<le> int ?k * stake v" using assms(3) by (intro mult_left_mono) simp_all
  finally have "VerifyCheckpointSignatures C (Some (?cp ?k)) vs = Ok ()"
    using assms(4) signed [of ?k] unfolding VerifyCheckpointSignatures_iff by simp
  then show ?thesis by blast
qed

theorem repeated_signature_reaches_quorum_witness:
  "\<exists>k. VerifyCheckpointSignatures ex_crypto
     (Some ((ex_checkpoint [])\<lparr>cp_ValidatorSigs := replicate k (ex_sig ''a'' 1)\<rparr>)) ex_validators = Ok ()"
proof (rule repeated_signature_reaches_quorum [of "ex_validator ''a'' 1 10"])
  show "VerifyCheckpointSignature ex_crypto (ex_checkpoint []) (ex_validator ''a'' 1 10)
      (sig_Signature (ex_sig ''a'' 1)) = Ok ()"
    by (simp add: VerifyCheckpointSignature_def ex_crypto_def ex_sig_def ex_validator_def Let_def nth_append)
qed (simp_all add: ex_validators_def ex_validator_def stake_def total_stake_def ex_sig_def)

lemma sint_bounds: "- (2 ^ 63) \<le> sint (x :: u64) \<and> sint x < 2 ^ 63"
  using sint_ge [of x] sint_lt [of x] by simp

lemma abs_to_int64_eq_iff: "\<bar>to_int64 (uint n)\<bar> = \<bar>to_int64 (uint m)\<bar> \<longleftrightarrow> n = m \<or> n = - (m :: u64)"
proof -
  have ofs: "word_of_int (sint x) = x" for x :: u64 by simp
  have of_int: "word_of_int (- sint m) = - m" by simp
  have "sint n = sint m \<longleftrightarrow> n = m" using ofs by metis
  moreover have "n = - m" if "sint n = - sint m"
    using that of_int ofs [of n] by metis
  moreover have "\<bar>sint n\<bar> = \<bar>sint m\<bar>" if n: "n = - m"
  proof (cases "sint m = - (2 ^ 63)")
    case True
    then have "m = word_of_int (- (2 ^ 63))" using ofs [of m] by metis
    then have "m = - m" by simp
    with n show ?thesis by simp
  next
    case False
    have "sint (- m) = to_int64 (- sint m)" by (simp add: to_int64_def)
    also have "\<dots> = - sint m" using False sint_bounds [of m] by (intro to_int64_id) auto
    finally show ?thesis using n by simp
  qed
  ultimately show ?thesis by (auto simp: to_int64_def abs_eq_iff)
qed

lemma block_number_bytes_eq_iff:
  "nat_bytes 32 (nat \<bar>to_int64 (uint n)\<bar>) = nat_bytes 32 (nat \<bar>to_int64 (uint m)\<bar>) \<longleftrightarrow>
     n = m \<or> n = - (m :: u64)"
proof -
  have small: "nat \<bar>to_int64 (uint k)\<bar> < 256 ^ 32" for k :: u64
  proof -
    have "\<bar>to_int64 (uint k)\<bar> \<le> 2 ^ 63" using sint_bounds [of k] by (auto simp: to_int64_def)
    then show ?thesis by (simp add: nat_less_iff)
  qed
  have "nat_bytes 32 (nat \<bar>to_int64 (uint n)\<bar>) = nat_bytes 32 (nat \<bar>to_int64 (uint m)\<bar>) \<longleftrightarrow>
      nat \<bar>to_int64 (uint n)\<bar> = nat \<bar>to_int64 (uint m)\<bar>"
    using nat_bytes_inj [of 32 "nat \<bar>to_int64 (uint n)\<bar>" "nat \<bar>to_int64 (uint m)\<bar>"] small [of n] small [of m]
    by auto
  then show ?thesis by (simp add: nat_eq_iff abs_to_int64_eq_iff)
qed

text \<open>
  What a signature commits to: two checkpoints have the same signed message exactly when they
  agree on block hash and state root and their block numbers are equal up to sign modulo \<open>2^64\<close>
  (above \<open>2^63\<close> the conversion to \<open>int64\<close> and the absolute value of \<open>FillBytes\<close> identify
  \<open>n\<close> and \<open>2^64 - n\<close>). Timestamp, chain and signatures are not covered.
\<close>

theorem checkpoint_message_eq_iff:
  "createCheckpointMessage cp = createCheckpointMessage cp' \<longleftrightarrow>
     cp_BlockHash cp = cp_BlockHash cp' \<and> cp_StateRoot cp = cp_StateRoot cp' \<and>
     (cp_BlockNumber cp = cp_BlockNumber cp' \<or> cp_BlockNumber cp = - cp_BlockNumber cp')"
  by (auto simp: createCheckpointMessage_def block_number_bytes_eq_iff)

text \<open>
  The two verification routines differ on signatures in Ethereum's 27/28 convention: when recovery
  rejects recovery bytes from 4 on, as secp256k1 does, \<open>VerifyECDSASignature\<close> accepts none of
  them, whereas \<open>VerifyCheckpointSignature\<close> normalises the byte first.
\<close>

lemma ECDSA_rejects_27_28:
  assumes "\<And>h sig. 4 \<le> sig ! 64 \<Longrightarrow> cr_SigToPub C h sig = None"
    and "sig ! 64 \<in> {27, 28}"
  shows "\<not> VerifyECDSASignature C k m sig"
  using assms by (auto simp: VerifyECDSASignature_def)

end
