(* ===== verification/L1_Checkpoints.thy ===== *)
theory L1_Checkpoints
  imports Chain_Types
begin

text \<open>
  \<open>pkg/checkpoint/l1_source.go\<close>: checkpoints read from the RootChain contract on Ethereum. The
  contract behind the RPC client is not part of the repository: \<open>call\<close>, an argument of the
  definitions, gives the decoded ABI values that a contract call returns, or an error. It is a
  function of the method and its arguments, that is, one request reads one contract state. The
  loops may not end for arbitrary answers, so they are partial functions; the theorems show when
  they return.
\<close>

section \<open>Model\<close>

datatype abi_value =
    AbiUint int
  | AbiBytes32 hash
  | AbiAddress address

datatype rootchain_call =
    CurrentHeaderBlock
  | HeaderBlocks int

type_synonym contract = "rootchain_call \<Rightarrow> (string, abi_value list) outcome"

datatype l1_error =
    L1CallFailed string
  | EmptyResult
  | UnexpectedResultType
  | UnexpectedResultLength nat
  | NilRange int
  | CurrentHeaderBlockFailed l1_error
  | HeaderBlocksFailed int l1_error
  | NoCheckpointCovers u64 int
  | InvalidRange u64 u64
  | RPCURLRequired
  | ContractAddressRequired
  | DialFailed string
  | ConnectionUnverified string

definition childBlockInterval :: int where
  "childBlockInterval = 10000"

record L1Source =
  l1_contractAddr :: address
  l1_rpcURL :: string
  l1_chainID :: u64
  l1_timeout :: int
  l1_cache :: "(u64, Checkpoint) fmap"

record headerBlock =
  hb_Root :: hash
  hb_Start :: int
  hb_End :: int
  hb_CreatedAt :: int
  hb_Proposer :: address

text \<open>\<open>big.Int.Uint64\<close>: the low 64 bits of the magnitude.\<close>

definition big_Uint64 :: "int \<Rightarrow> u64" where
  "big_Uint64 x = word_of_int \<bar>x\<bar>"

text \<open>Go's integer quotient truncates toward zero.\<close>

definition go_quot :: "int \<Rightarrow> int \<Rightarrow> int" where
  "go_quot a b = sgn a * sgn b * (\<bar>a\<bar> div \<bar>b\<bar>)"

text \<open>\<open>dial\<close> stands for \<open>ethclient.Dial\<close>; the embedded ABI always parses.\<close>

definition NewL1Source ::
  "(string \<Rightarrow> string option) \<Rightarrow> string \<Rightarrow> address \<Rightarrow> u64 \<Rightarrow> (l1_error, L1Source) outcome" where
  "NewL1Source dial rpcURL contractAddr chainID =
     (if rpcURL = '''' then Err RPCURLRequired
      else if contractAddr = 0 then Err ContractAddressRequired
      else
        (case dial rpcURL of
           Some e \<Rightarrow> Err (DialFailed e)
         | None \<Rightarrow>
             Ok \<lparr>l1_contractAddr = contractAddr, l1_rpcURL = rpcURL,
                 l1_chainID = (if chainID = 0 then 137 else chainID),
                 l1_timeout = 30 * 10 ^ 9, l1_cache = fmempty\<rparr>))"

text \<open>\<open>header\<close> is what \<open>HeaderByNumber\<close> answers for the latest header: an error or nil.\<close>

definition VerifyConnection :: "string option \<Rightarrow> (l1_error, unit) outcome" where
  "VerifyConnection header = (case header of Some e \<Rightarrow> Err (ConnectionUnverified e) | None \<Rightarrow> Ok ())"

definition currentHeaderBlockID :: "contract \<Rightarrow> (l1_error, int) outcome" where
  "currentHeaderBlockID call =
     bind_outcome (wrap_error L1CallFailed (call CurrentHeaderBlock)) (\<lambda>out.
     case out of
       [] \<Rightarrow> Err EmptyResult
     | v # _ \<Rightarrow> (case v of AbiUint x \<Rightarrow> Ok x | _ \<Rightarrow> Err UnexpectedResultType))"

text \<open>
  A failed type assertion leaves the zero value: the zero hash, a nil integer or the zero address.
\<close>

definition headerBlockByID :: "contract \<Rightarrow> int \<Rightarrow> (l1_error, headerBlock) outcome" where
  "headerBlockByID call hid =
     bind_outcome (wrap_error L1CallFailed (call (HeaderBlocks hid))) (\<lambda>out.
     if length out < 5 then Err (UnexpectedResultLength (length out))
     else
       (let root = (case out ! 0 of AbiBytes32 r \<Rightarrow> r | _ \<Rightarrow> 0);
            start = (case out ! 1 of AbiUint x \<Rightarrow> Some x | _ \<Rightarrow> None);
            end = (case out ! 2 of AbiUint x \<Rightarrow> Some x | _ \<Rightarrow> None);
            createdAt = (case out ! 3 of AbiUint x \<Rightarrow> x | _ \<Rightarrow> 0);
            proposer = (case out ! 4 of AbiAddress a \<Rightarrow> a | _ \<Rightarrow> 0)
        in case (start, end) of
             (Some s, Some e) \<Rightarrow>
               Ok \<lparr>hb_Root = root, hb_Start = s, hb_End = e, hb_CreatedAt = createdAt, hb_Proposer = proposer\<rparr>
           | _ \<Rightarrow> Err (NilRange hid)))"

text \<open>\<open>hex\<close> stands for \<open>common.Address.Hex\<close>.\<close>

definition toCheckpoint :: "(address \<Rightarrow> string) \<Rightarrow> L1Source \<Rightarrow> headerBlock \<Rightarrow> Checkpoint" where
  "toCheckpoint hex s hb =
     \<lparr>cp_BlockNumber = big_Uint64 (hb_End hb), cp_BlockHash = hb_Root hb, cp_StateRoot = hb_Root hb,
      cp_Timestamp = big_Uint64 (hb_CreatedAt hb),
      cp_ValidatorSigs = [\<lparr>sig_ValidatorID = hex (hb_Proposer hb),
        sig_PubKey = address_bytes (hb_Proposer hb), sig_Signature = []\<rparr>],
      cp_ChainID = Some (uint (l1_chainID s))\<rparr>"

definition l1_put :: "L1Source \<Rightarrow> Checkpoint \<Rightarrow> L1Source" where
  "l1_put s cp = s\<lparr>l1_cache := fmupd (cp_BlockNumber cp) cp (l1_cache s)\<rparr>"

definition l1_FetchLatest ::
  "(address \<Rightarrow> string) \<Rightarrow> contract \<Rightarrow> L1Source \<Rightarrow> (l1_error, Checkpoint) outcome \<times> L1Source" where
  "l1_FetchLatest hex call s =
     (case currentHeaderBlockID call of
        Err e \<Rightarrow> (Err (CurrentHeaderBlockFailed e), s)
      | Panic p \<Rightarrow> (Panic p, s)
      | Ok hid \<Rightarrow>
          (case headerBlockByID call hid of
             Err e \<Rightarrow> (Err (HeaderBlocksFailed hid e), s)
           | Panic p \<Rightarrow> (Panic p, s)
           | Ok hb \<Rightarrow> (let cp = toCheckpoint hex s hb in (Ok cp, l1_put s cp))))"

text \<open>
  The binary search of \<open>FetchByNumber\<close>, in \<open>int64\<close> arithmetic: \<open>Ok (Some hb)\<close> is the
  \<open>default\<close> case of the switch, \<open>Ok None\<close> the end of the loop. It does not return (\<open>None\<close>) when
  the loop runs forever.
\<close>

partial_function (option) searchHeader ::
  "contract \<Rightarrow> u64 \<Rightarrow> int \<Rightarrow> int \<Rightarrow> (l1_error, headerBlock option) outcome option" where
  "searchHeader call blockNum lo hi =
     (if lo \<le> hi then
        (let mid = go_quot (to_int64 (lo + hi)) 2; hid = to_int64 (mid * childBlockInterval) in
         case headerBlockByID call hid of
           Err e \<Rightarrow> Some (Err (HeaderBlocksFailed hid e))
         | Panic p \<Rightarrow> Some (Panic p)
         | Ok hb \<Rightarrow>
             if blockNum < big_Uint64 (hb_Start hb) then searchHeader call blockNum lo (to_int64 (mid - 1))
             else if blockNum > big_Uint64 (hb_End hb) then searchHeader call blockNum (to_int64 (mid + 1)) hi
             else Some (Ok (Some hb)))
      else Some (Ok None))"

definition l1_FetchByNumber ::
  "(address \<Rightarrow> string) \<Rightarrow> contract \<Rightarrow> L1Source \<Rightarrow> u64 \<Rightarrow>
   ((l1_error, Checkpoint) outcome \<times> L1Source) option" where
  "l1_FetchByNumber hex call s blockNum =
     (case currentHeaderBlockID call of
        Err e \<Rightarrow> Some (Err (CurrentHeaderBlockFailed e), s)
      | Panic p \<Rightarrow> Some (Panic p, s)
      | Ok current \<Rightarrow>
          (let n = to_int64 (current div childBlockInterval) in
           case searchHeader call blockNum 1 n of
             None \<Rightarrow> None
           | Some (Err e) \<Rightarrow> Some (Err e, s)
           | Some (Panic p) \<Rightarrow> Some (Panic p, s)
           | Some (Ok None) \<Rightarrow> Some (Err (NoCheckpointCovers blockNum current), s)
           | Some (Ok (Some hb)) \<Rightarrow>
               (let cp = toCheckpoint hex s hb in Some (Ok cp, l1_put s cp))))"

partial_function (option) rangeLoop ::
  "(address \<Rightarrow> string) \<Rightarrow> contract \<Rightarrow> L1Source \<Rightarrow> u64 \<Rightarrow> u64 \<Rightarrow> Checkpoint list \<Rightarrow> u64 list \<Rightarrow>
   ((l1_error, Checkpoint list) outcome \<times> L1Source) option" where
  "rangeLoop hex call s block end cps seen =
     (if block < end then
        (case l1_FetchByNumber hex call s block of
           None \<Rightarrow> None
         | Some (Err e, s') \<Rightarrow> Some (Err e, s')
         | Some (Panic p, s') \<Rightarrow> Some (Panic p, s')
         | Some (Ok cp, s') \<Rightarrow>
             if cp_BlockNumber cp \<in> set seen
             then rangeLoop hex call s' (cp_BlockNumber cp + 1) end cps seen
             else rangeLoop hex call s' (cp_BlockNumber cp + 1) end (cps @ [cp]) (cp_BlockNumber cp # seen))
      else Some (Ok cps, s))"

definition l1_FetchRange ::
  "(address \<Rightarrow> string) \<Rightarrow> contract \<Rightarrow> L1Source \<Rightarrow> u64 \<Rightarrow> u64 \<Rightarrow>
   ((l1_error, Checkpoint list) outcome \<times> L1Source) option" where
  "l1_FetchRange hex call s start end =
     (if start \<ge> end then Some (Err (InvalidRange start end), s)
      else rangeLoop hex call s start end [] [])"

definition GetContractAddress :: "L1Source \<Rightarrow> address" where
  "GetContractAddress s = l1_contractAddr s"

definition GetRPCURL :: "L1Source \<Rightarrow> string" where
  "GetRPCURL s = l1_rpcURL s"

section \<open>What the contract promises\<close>

text \<open>
  The documented shape of the RootChain contract: header block identifiers are the multiples of
  the interval up to \<open>current\<close>, every header block covers a range of \<open>uint64\<close> block numbers, and
  the ranges increase. \<open>hb k\<close> is the header block with identifier \<open>k * childBlockInterval\<close>.
\<close>

definition rootchain_ok :: "contract \<Rightarrow> int \<Rightarrow> (int \<Rightarrow> headerBlock) \<Rightarrow> bool" where
  "rootchain_ok call current hb \<longleftrightarrow>
     0 \<le> current \<and> current < 2 ^ 63 \<and> currentHeaderBlockID call = Ok current \<and>
     (\<forall>k. 1 \<le> k \<and> k \<le> current div childBlockInterval \<longrightarrow>
        headerBlockByID call (k * childBlockInterval) = Ok (hb k) \<and>
        0 \<le> hb_Start (hb k) \<and> hb_Start (hb k) \<le> hb_End (hb k) \<and> hb_End (hb k) < 2 ^ 64) \<and>
     (\<forall>k. 1 \<le> k \<and> k < current div childBlockInterval \<longrightarrow> hb_End (hb k) < hb_Start (hb (k + 1)))"

definition covers :: "headerBlock \<Rightarrow> u64 \<Rightarrow> bool" where
  "covers h n \<longleftrightarrow> hb_Start h \<le> uint n \<and> uint n \<le> hb_End h"

text \<open>
  The contract as an interface: the laws the search relies on, with \<open>last\<close> the number of
  checkpoints.
\<close>

locale rootchain =
  fixes call :: contract and current :: int and hb :: "int \<Rightarrow> headerBlock"
  assumes ok: "rootchain_ok call current hb"
begin

abbreviation last_index :: int where
  "last_index \<equiv> current div childBlockInterval"

lemma current: "currentHeaderBlockID call = Ok current"
  using ok by (simp add: rootchain_ok_def)

lemma last_bounds: "0 \<le> last_index" "last_index * childBlockInterval < 2 ^ 63"
  using ok by (auto simp: rootchain_ok_def childBlockInterval_def)

lemma header: "1 \<le> k \<Longrightarrow> k \<le> last_index \<Longrightarrow> headerBlockByID call (k * childBlockInterval) = Ok (hb k)"
  using ok by (simp add: rootchain_ok_def)

lemma range:
  "1 \<le> k \<Longrightarrow> k \<le> last_index \<Longrightarrow>
   0 \<le> hb_Start (hb k) \<and> hb_Start (hb k) \<le> hb_End (hb k) \<and> hb_End (hb k) < 2 ^ 64"
  using ok by (simp add: rootchain_ok_def)

lemma increasing: "1 \<le> i \<Longrightarrow> i < j \<Longrightarrow> j \<le> last_index \<Longrightarrow> hb_End (hb i) < hb_Start (hb j)"
proof (induction "nat (j - i)" arbitrary: j)
  case (Suc d)
  have step: "hb_End (hb k) < hb_Start (hb (k + 1))" if "1 \<le> k" "k < last_index" for k
    using ok that by (simp add: rootchain_ok_def)
  show ?case
  proof (cases "i = j - 1")
    case True
    with step [of i] Suc.prems show ?thesis by simp
  next
    case False
    then have "hb_End (hb i) < hb_Start (hb (j - 1))"
      using Suc.hyps(2) Suc.prems by (intro Suc.hyps(1)) auto
    also have "\<dots> \<le> hb_End (hb (j - 1))" using range [of "j - 1"] False Suc.prems by auto
    also have "\<dots> < hb_Start (hb j)" using step [of "j - 1"] False Suc.prems by auto
    finally show ?thesis .
  qed
qed simp

lemma start_less: "1 \<le> k \<Longrightarrow> k \<le> last_index \<Longrightarrow> n < big_Uint64 (hb_Start (hb k)) \<longleftrightarrow> uint n < hb_Start (hb k)"
  using range [of k] by (simp add: big_Uint64_def word_less_def uint_word_of_int)

lemma end_less: "1 \<le> k \<Longrightarrow> k \<le> last_index \<Longrightarrow> big_Uint64 (hb_End (hb k)) < n \<longleftrightarrow> hb_End (hb k) < uint n"
  using range [of k] by (simp add: big_Uint64_def word_less_def uint_word_of_int)

lemma covers_unique:
  "1 \<le> i \<Longrightarrow> i \<le> last_index \<Longrightarrow> 1 \<le> j \<Longrightarrow> j \<le> last_index \<Longrightarrow> covers (hb i) n \<Longrightarrow> covers (hb j) n \<Longrightarrow> i = j"
  using increasing [of i j] increasing [of j i] by (cases i j rule: linorder_cases) (auto simp: covers_def)

lemma none_above:
  assumes "1 \<le> m" and "m \<le> k" and "k \<le> last_index" and "uint n < hb_Start (hb m)"
  shows "\<not> covers (hb k) n"
proof (cases "k = m")
  case False
  then have "hb_End (hb m) < hb_Start (hb k)" using assms by (intro increasing) auto
  with assms range [of m] show ?thesis by (auto simp: covers_def)
qed (use assms in \<open>simp add: covers_def\<close>)

lemma none_below:
  assumes "1 \<le> k" and "k \<le> m" and "m \<le> last_index" and "hb_End (hb m) < uint n"
  shows "\<not> covers (hb k) n"
proof (cases "k = m")
  case False
  then have "hb_End (hb k) < hb_Start (hb m)" using assms by (intro increasing) auto
  with assms range [of m] show ?thesis by (auto simp: covers_def)
qed (use assms in \<open>simp add: covers_def\<close>)

text \<open>One iteration, without overflow: identifiers are below \<open>2^63\<close>.\<close>

lemma search_step:
  assumes "1 \<le> lo" and "lo \<le> hi" and "hi \<le> last_index" and mid: "mid = (lo + hi) div 2"
  shows "searchHeader call n lo hi =
    (if uint n < hb_Start (hb mid) then searchHeader call n lo (mid - 1)
     else if hb_End (hb mid) < uint n then searchHeader call n (mid + 1) hi
     else Some (Ok (Some (hb mid))))"
proof -
  have m: "lo \<le> mid" "mid \<le> hi" "1 \<le> mid" "mid \<le> last_index" using assms by auto
  have sm: "lo + hi < 2 ^ 63" "hi < 2 ^ 62"
    using last_bounds(2) assms by (auto simp: childBlockInterval_def)
  have "go_quot (to_int64 (lo + hi)) 2 = mid"
    using sm assms by (simp add: to_int64_id go_quot_def)
  moreover have "to_int64 (mid * childBlockInterval) = mid * childBlockInterval"
    using m last_bounds(2) by (intro to_int64_id) (auto simp: childBlockInterval_def)
  moreover have "to_int64 (mid - 1) = mid - 1" "to_int64 (mid + 1) = mid + 1"
    using m sm by (auto intro!: to_int64_id)
  ultimately show ?thesis
    using assms(2) header [OF m(3,4)] start_less [OF m(3,4)] end_less [OF m(3,4)]
    by (subst searchHeader.simps) (simp add: Let_def)
qed

definition search_result :: "u64 \<Rightarrow> int \<Rightarrow> int \<Rightarrow> headerBlock option \<Rightarrow> bool" where
  "search_result n lo hi r \<longleftrightarrow>
     (case r of
        Some h \<Rightarrow> \<exists>k. lo \<le> k \<and> k \<le> hi \<and> h = hb k \<and> covers h n
      | None \<Rightarrow> \<forall>k. lo \<le> k \<and> k \<le> hi \<longrightarrow> \<not> covers (hb k) n)"

lemma search_result_widen:
  assumes "search_result n lo' hi' r" and "lo \<le> lo'" and "hi' \<le> hi"
    and "\<And>k. lo \<le> k \<Longrightarrow> k \<le> hi \<Longrightarrow> \<not> (lo' \<le> k \<and> k \<le> hi') \<Longrightarrow> \<not> covers (hb k) n"
  shows "search_result n lo hi r"
proof (cases r)
  case None
  with assms(1,4) show ?thesis unfolding search_result_def by auto
next
  case (Some h)
  with assms(1) obtain k where "lo' \<le> k" "k \<le> hi'" "h = hb k" "covers h n"
    by (auto simp: search_result_def)
  with Some assms(2,3) show ?thesis by (auto simp: search_result_def intro!: exI [of _ k])
qed

text \<open>The search returns for every block number, and finds the covering header block if there is one.\<close>

lemma search_correct:
  "1 \<le> lo \<Longrightarrow> hi \<le> last_index \<Longrightarrow>
   \<exists>r. searchHeader call n lo hi = Some (Ok r) \<and> search_result n lo hi r"
proof (induction "nat (hi + 1 - lo)" arbitrary: lo hi rule: less_induct)
  case less
  show ?case
  proof (cases "lo \<le> hi")
    case False
    then show ?thesis by (subst searchHeader.simps) (auto simp: search_result_def)
  next
    case True
    define mid where "mid = (lo + hi) div 2"
    have mid: "lo \<le> mid" "mid \<le> hi" using True by (simp_all add: mid_def)
    note step = search_step [OF less.prems(1) True less.prems(2) mid_def, of n]
    consider (left) "uint n < hb_Start (hb mid)"
      | (right) "\<not> uint n < hb_Start (hb mid)" "hb_End (hb mid) < uint n"
      | (found) "covers (hb mid) n" unfolding covers_def by linarith
    then show ?thesis
    proof cases
      case left
      obtain r where r: "searchHeader call n lo (mid - 1) = Some (Ok r)" "search_result n lo (mid - 1) r"
        using less.hyps [of "mid - 1" lo] mid less.prems True by auto
      have "search_result n lo hi r"
        by (rule search_result_widen [OF r(2)]) (use mid less.prems left none_above [of mid _ n] in auto)
      with step left r(1) show ?thesis by simp
    next
      case right
      obtain r where r: "searchHeader call n (mid + 1) hi = Some (Ok r)" "search_result n (mid + 1) hi r"
        using less.hyps [of hi "mid + 1"] mid less.prems True by auto
      have "search_result n lo hi r"
        by (rule search_result_widen [OF r(2)]) (use mid less.prems right none_below [of _ mid n] in auto)
      with step right r(1) show ?thesis by simp
    next
      case found
      then show ?thesis using step mid by (auto simp: covers_def search_result_def)
    qed
  qed
qed

lemma fetch_by_number:
  "\<exists>r s'. l1_FetchByNumber hex call s n = Some (r, s') \<and>
     (case r of
        Ok cp \<Rightarrow> \<exists>k. 1 \<le> k \<and> k \<le> last_index \<and> covers (hb k) n \<and>
          cp = toCheckpoint hex s (hb k) \<and> s' = l1_put s cp
      | Err e \<Rightarrow> e = NoCheckpointCovers n current \<and> s' = s \<and>
          (\<forall>k. 1 \<le> k \<and> k \<le> last_index \<longrightarrow> \<not> covers (hb k) n)
      | Panic _ \<Rightarrow> False)"
proof -
  have "last_index < 2 ^ 63" using last_bounds by (simp add: childBlockInterval_def)
  then have "to_int64 last_index = last_index" using last_bounds(1) by (intro to_int64_id) auto
  moreover obtain r where "searchHeader call n 1 last_index = Some (Ok r)" "search_result n 1 last_index r"
    using search_correct [of 1 last_index n] by auto
  ultimately show ?thesis
    by (cases r) (auto simp: l1_FetchByNumber_def current Let_def search_result_def)
qed

lemma fetch_covered:
  assumes "1 \<le> k" and "k \<le> last_index" and "covers (hb k) n"
  shows "l1_FetchByNumber hex call s n =
    Some (Ok (toCheckpoint hex s (hb k)), l1_put s (toCheckpoint hex s (hb k)))"
proof -
  obtain r s' where r: "l1_FetchByNumber hex call s n = Some (r, s')"
    "case r of
        Ok cp \<Rightarrow> \<exists>k. 1 \<le> k \<and> k \<le> last_index \<and> covers (hb k) n \<and>
          cp = toCheckpoint hex s (hb k) \<and> s' = l1_put s cp
      | Err e \<Rightarrow> e = NoCheckpointCovers n current \<and> s' = s \<and>
          (\<forall>k. 1 \<le> k \<and> k \<le> last_index \<longrightarrow> \<not> covers (hb k) n)
      | Panic _ \<Rightarrow> False"
    using fetch_by_number by blast
  with assms show ?thesis by (cases r) (auto dest: covers_unique)
qed

end

lemma toCheckpoint_put [simp]: "toCheckpoint hex (l1_put s cp) = toCheckpoint hex s"
  by (simp add: fun_eq_iff toCheckpoint_def l1_put_def)

text \<open>Consecutive checkpoints without holes, none of them ending at the largest number.\<close>

locale contiguous_rootchain = rootchain +
  assumes adjacent: "1 \<le> k \<Longrightarrow> k < last_index \<Longrightarrow> hb_Start (hb (k + 1)) = hb_End (hb k) + 1"
    and below_max: "1 \<le> k \<Longrightarrow> k \<le> last_index \<Longrightarrow> hb_End (hb k) < 2 ^ 64 - 1"
begin

lemma uint_next:
  "1 \<le> k \<Longrightarrow> k \<le> last_index \<Longrightarrow> uint (big_Uint64 (hb_End (hb k)) + 1) = hb_End (hb k) + 1"
  using range [of k] below_max [of k] by (simp add: big_Uint64_def uint_word_ariths uint_word_of_int)

lemma cp_number: "cp_BlockNumber (toCheckpoint hex s (hb k)) = big_Uint64 (hb_End (hb k))"
  by (simp add: toCheckpoint_def)

lemma end_number: "1 \<le> k \<Longrightarrow> k \<le> last_index \<Longrightarrow> uint (big_Uint64 (hb_End (hb k))) = hb_End (hb k)"
  using range [of k] by (simp add: big_Uint64_def uint_word_of_int)

lemma not_seen:
  assumes "1 \<le> k" and "k \<le> last_index" and "\<And>m. m \<in> set seen \<Longrightarrow> uint m < hb_Start (hb k)"
  shows "cp_BlockNumber (toCheckpoint hex s (hb k)) \<notin> set seen"
proof
  assume "cp_BlockNumber (toCheckpoint hex s (hb k)) \<in> set seen"
  then have "uint (big_Uint64 (hb_End (hb k))) < hb_Start (hb k)" using assms(3) by (simp add: cp_number)
  with end_number [OF assms(1,2)] range [OF assms(1,2)] show False by simp
qed

text \<open>One iteration: the checkpoint of \<open>block\<close> is appended and the loop goes on behind it.\<close>

lemma range_loop_step:
  assumes "1 \<le> k" and "k \<le> last_index" and "covers (hb k) block" and "block < end"
    and "\<And>m. m \<in> set seen \<Longrightarrow> uint m < hb_Start (hb k)"
  shows "rangeLoop hex call s block end cps seen =
    rangeLoop hex call (l1_put s (toCheckpoint hex s (hb k))) (big_Uint64 (hb_End (hb k)) + 1) end
      (cps @ [toCheckpoint hex s (hb k)]) (big_Uint64 (hb_End (hb k)) # seen)"
  using assms(4) fetch_covered [OF assms(1-3)] not_seen [OF assms(1,2,5)]
  by (subst rangeLoop.simps) (simp add: cp_number)

lemma range_loop:
  assumes "1 \<le> k" and "k \<le> l" and "l \<le> last_index" and "covers (hb k) block" and "block < end"
    and "hb_Start (hb l) < uint end" and "uint end \<le> hb_End (hb l) + 1"
    and "\<And>m. m \<in> set seen \<Longrightarrow> uint m < hb_Start (hb k)"
  shows "\<exists>s'. rangeLoop hex call s block end cps seen =
    Some (Ok (cps @ map (\<lambda>i. toCheckpoint hex s (hb i)) [k..l]), s')"
  using assms
proof (induction "nat (l - k)" arbitrary: k s block cps seen)
  case 0
  then have kl: "k = l" by simp
  have "\<not> big_Uint64 (hb_End (hb k)) + 1 < end"
    using uint_next [of k] 0(2-4,8) kl by (simp add: word_less_def)
  then have stop: "rangeLoop hex call t (big_Uint64 (hb_End (hb k)) + 1) end c z = Some (Ok c, t)" for t c z
    by (subst rangeLoop.simps) simp
  have "rangeLoop hex call s block end cps seen =
      Some (Ok (cps @ [toCheckpoint hex s (hb k)]), l1_put s (toCheckpoint hex s (hb k)))"
    using range_loop_step [of k block "end" seen] 0(2-6,9) stop by simp
  then show ?case by (simp add: kl)
next
  case (Suc d)
  then have kl: "k < l" by simp
  let ?cp = "toCheckpoint hex s (hb k)" and ?n = "big_Uint64 (hb_End (hb k))"
  have k: "1 \<le> k" "k \<le> last_index" "1 \<le> k + 1" "k + 1 \<le> last_index" using Suc(3-5) kl by auto
  have d: "d = nat (l - (k + 1))" using Suc(2) by simp
  have nxt: "hb_Start (hb (k + 1)) = hb_End (hb k) + 1" using adjacent [of k] k kl Suc(5) by simp
  have "hb_Start (hb (k + 1)) \<le> hb_Start (hb l)"
    using increasing [of "k + 1" l] range [OF k(3,4)] Suc(3-5) kl by (cases "k + 1 = l") auto
  then have lt: "?n + 1 < end"
    using uint_next [OF k(1,2)] nxt Suc(8) by (simp add: word_less_def)
  have cov: "covers (hb (k + 1)) (?n + 1)"
    using uint_next [OF k(1,2)] nxt range [OF k(3,4)] by (simp add: covers_def)
  have seen': "uint m < hb_Start (hb (k + 1))" if "m \<in> set (?n # seen)" for m
    using that Suc(10) [of m] range [OF k(1,2)] nxt end_number [OF k(1,2)] by auto
  obtain s' where "rangeLoop hex call (l1_put s ?cp) (?n + 1) end (cps @ [?cp]) (?n # seen) =
    Some (Ok ((cps @ [?cp]) @ map (\<lambda>i. toCheckpoint hex (l1_put s ?cp) (hb i)) [k + 1..l]), s')"
    using Suc(1) [OF d k(3) _ Suc(5) cov lt Suc(8,9) seen'] kl by fastforce
  moreover have "[k..l] = k # [k + 1..l]" using kl by (simp add: upto_rec1)
  ultimately show ?case
    using range_loop_step [OF k(1,2) Suc(6,7,10)] by simp
qed

end

section \<open>A contract for the examples\<close>

text \<open>Three checkpoints of a hundred blocks each.\<close>

definition ex_contract :: contract where
  "ex_contract c =
     (case c of
        CurrentHeaderBlock \<Rightarrow> Ok [AbiUint 30000]
      | HeaderBlocks i \<Rightarrow>
          Ok [AbiBytes32 9, AbiUint ((i div 10000 - 1) * 100), AbiUint (i div 10000 * 100 - 1),
              AbiUint 5, AbiAddress 3])"

definition ex_header_block :: "int \<Rightarrow> headerBlock" where
  "ex_header_block k = \<lparr>hb_Root = 9, hb_Start = (k - 1) * 100, hb_End = k * 100 - 1, hb_CreatedAt = 5,
     hb_Proposer = 3\<rparr>"

definition ex_source :: L1Source where
  "ex_source = \<lparr>l1_contractAddr = 1, l1_rpcURL = ''l1'', l1_chainID = 137, l1_timeout = 30 * 10 ^ 9, l1_cache = fmempty\<rparr>"

lemma ex_rootchain_ok: "rootchain_ok ex_contract 30000 ex_header_block"
  by (auto simp: rootchain_ok_def childBlockInterval_def currentHeaderBlockID_def headerBlockByID_def
      ex_contract_def ex_header_block_def)

interpretation ex_chain: contiguous_rootchain ex_contract 30000 ex_header_block
proof (intro contiguous_rootchain.intro rootchain.intro contiguous_rootchain_axioms.intro)
  show "rootchain_ok ex_contract 30000 ex_header_block" by (rule ex_rootchain_ok)
qed (auto simp: ex_header_block_def childBlockInterval_def)

section \<open>Properties\<close>

text \<open>
  C18. \<open>FetchByNumber\<close> is total and correct on a well-formed contract: it always returns, with
  the checkpoint of the one header block that covers the block number, which it also caches, or
  with an error exactly when no header block covers it. No identifier overflows.
\<close>

theorem fetch_by_number_correct:
  assumes "rootchain_ok call current hb"
  shows "\<exists>r s'. l1_FetchByNumber hex call s n = Some (r, s') \<and>
     (case r of
        Ok cp \<Rightarrow> \<exists>k. 1 \<le> k \<and> k \<le> current div childBlockInterval \<and> covers (hb k) n \<and>
          cp = toCheckpoint hex s (hb k) \<and> s' = l1_put s cp
      | Err e \<Rightarrow> e = NoCheckpointCovers n current \<and> s' = s \<and>
          (\<forall>k. 1 \<le> k \<and> k \<le> current div childBlockInterval \<longrightarrow> \<not> covers (hb k) n)
      | Panic _ \<Rightarrow> False)"
  by (rule rootchain.fetch_by_number [OF rootchain.intro [OF assms]])

theorem fetch_by_number_correct_witness:
  "covers (ex_header_block 2) 150 \<and>
   (\<exists>s'. l1_FetchByNumber (\<lambda>_. ''hex'') ex_contract ex_source 150 =
     Some (Ok (toCheckpoint (\<lambda>_. ''hex'') ex_source (ex_header_block 2)), s'))"
proof -
  have c: "covers (ex_header_block 2) 150" by (simp add: covers_def ex_header_block_def)
  obtain r s' where r: "l1_FetchByNumber (\<lambda>_. ''hex'') ex_contract ex_source 150 = Some (r, s')"
    "case r of
        Ok cp \<Rightarrow> \<exists>k. 1 \<le> k \<and> k \<le> 30000 div childBlockInterval \<and> covers (ex_header_block k) 150 \<and>
          cp = toCheckpoint (\<lambda>_. ''hex'') ex_source (ex_header_block k) \<and> s' = l1_put ex_source cp
      | Err e \<Rightarrow> e = NoCheckpointCovers 150 30000 \<and> s' = ex_source \<and>
          (\<forall>k. 1 \<le> k \<and> k \<le> 30000 div childBlockInterval \<longrightarrow> \<not> covers (ex_header_block k) 150)
      | Panic _ \<Rightarrow> False"
    using fetch_by_number_correct [OF ex_rootchain_ok] by blast
  have "k = 2" if "1 \<le> k" "k \<le> 30000 div childBlockInterval" "covers (ex_header_block k) 150" for k
    by (rule ex_chain.covers_unique [OF that(1,2) _ _ that(3) c]) (simp_all add: childBlockInterval_def)
  moreover have "2 \<le> 30000 div childBlockInterval" by (simp add: childBlockInterval_def)
  ultimately show ?thesis using r c by (cases r) auto
qed

text \<open>
  \<open>FetchRange\<close> terminates and is exact on a contract whose checkpoints are contiguous and
  end below \<open>2^64 - 1\<close>: for a range whose first block lies in header block \<open>k\<close> and whose last
  block lies in header block \<open>l\<close> it returns the checkpoints \<open>k, ..., l\<close>, each once and in order.
\<close>

theorem fetch_range_exact:
  assumes "rootchain_ok call current hb"
    and "\<And>k. 1 \<le> k \<Longrightarrow> k < current div childBlockInterval \<Longrightarrow> hb_Start (hb (k + 1)) = hb_End (hb k) + 1"
    and "\<And>k. 1 \<le> k \<Longrightarrow> k \<le> current div childBlockInterval \<Longrightarrow> hb_End (hb k) < 2 ^ 64 - 1"
    and "1 \<le> k" and "k \<le> l" and "l \<le> current div childBlockInterval"
    and "start < end" and "covers (hb k) start" and "covers (hb l) (end - 1)"
  shows "\<exists>s'. l1_FetchRange hex call s start end =
    Some (Ok (map (\<lambda>i. toCheckpoint hex s (hb i)) [k..l]), s')"
proof -
  have chain: "contiguous_rootchain call current hb"
    using assms(1-3)
    by (intro contiguous_rootchain.intro rootchain.intro contiguous_rootchain_axioms.intro) auto
  have "1 \<le> end" using assms(7) by (cases "end = 0") (simp_all add: word_le_sub1)
  then have "uint (end - 1) = uint end - 1" by (simp add: uint_minus_simple_alt)
  then have "hb_Start (hb l) < uint end" "uint end \<le> hb_End (hb l) + 1"
    using assms(9) by (auto simp: covers_def)
  with contiguous_rootchain.range_loop [OF chain assms(4-6,8,7), of "[]" hex s "[]"] assms(7)
  show ?thesis by (auto simp: l1_FetchRange_def)
qed

theorem fetch_range_exact_witness:
  "\<exists>s'. l1_FetchRange (\<lambda>_. ''hex'') ex_contract ex_source 50 250 =
     Some (Ok (map (\<lambda>i. toCheckpoint (\<lambda>_. ''hex'') ex_source (ex_header_block i)) [1, 2, 3]), s')"
proof -
  have "\<exists>s'. l1_FetchRange (\<lambda>_. ''hex'') ex_contract ex_source 50 250 =
     Some (Ok (map (\<lambda>i. toCheckpoint (\<lambda>_. ''hex'') ex_source (ex_header_block i)) [1..3]), s')"
    by (rule fetch_range_exact [OF ex_rootchain_ok])
      (simp_all add: childBlockInterval_def covers_def ex_header_block_def)
  moreover have "[1..3 :: int] = [1, 2, 3]" by (simp add: upto_rec1)
  ultimately show ?thesis by simp
qed

end
