(* ===== verification/Checkpoint_Manager.thy ===== *)
theory Checkpoint_Manager
  imports Checkpoint_Signatures L1_Checkpoints Go_Strings "HOL-Library.Multiset"
begin

text \<open>
  \<open>pkg/checkpoint/manager.go\<close> and \<open>source.go\<close>: the checkpoint manager with its cache of
  verified checkpoints, the checkpoint validators (also \<open>devValidator\<close> of the main program) and
  the mock source. A value of interface type \<open>Source\<close> or \<open>Validator\<close> is a dictionary of methods;
  a source call that never returns is \<open>None\<close>. The periodic updater calls
  \<open>updateLatestCheckpoint\<close> at times the model leaves open: the runs of \<open>mgr_reach\<close> interleave it
  with client calls in any order.
\<close>

section \<open>Model\<close>

subsection \<open>Validators\<close>

datatype verify_error =
    CheckpointIsNil
  | InvalidBlockNumber
  | InvalidBlockHash
  | ZeroEndBlock
  | ZeroRoot
  | NoValidatorSignatures
  | GetValidatorSetFailed string
  | SignatureVerificationFailed signature_error

record validator_ops =
  vo_Verify :: "Checkpoint option \<Rightarrow> (verify_error, unit) outcome"
  vo_GetValidatorSet :: "u64 \<Rightarrow> (string, Validator list) outcome"

definition l1_Verify :: "Checkpoint option \<Rightarrow> (verify_error, unit) outcome" where
  "l1_Verify checkpoint =
     (case checkpoint of
        None \<Rightarrow> Err CheckpointIsNil
      | Some cp \<Rightarrow>
          if cp_BlockNumber cp = 0 then Err ZeroEndBlock
          else if cp_StateRoot cp = 0 then Err ZeroRoot
          else Ok ())"

definition l1_GetValidatorSet :: "u64 \<Rightarrow> (string, Validator list) outcome" where
  "l1_GetValidatorSet blockNum = Ok []"

definition NewL1Validator :: validator_ops where
  "NewL1Validator = \<lparr>vo_Verify = l1_Verify, vo_GetValidatorSet = l1_GetValidatorSet\<rparr>"

definition dev_Verify :: "Checkpoint option \<Rightarrow> (verify_error, unit) outcome" where
  "dev_Verify checkpoint =
     (case checkpoint of
        None \<Rightarrow> Err CheckpointIsNil
      | Some cp \<Rightarrow> if cp_BlockNumber cp = 0 then Err InvalidBlockNumber else Ok ())"

definition dev_GetValidatorSet :: "u64 \<Rightarrow> (string, Validator list) outcome" where
  "dev_GetValidatorSet blockNum =
     Ok [\<lparr>val_ID = ''dev'', val_Address = 0, val_PubKey = [], val_Stake = Some 1, val_Active = True\<rparr>]"

definition devValidator :: validator_ops where
  "devValidator = \<lparr>vo_Verify = dev_Verify, vo_GetValidatorSet = dev_GetValidatorSet\<rparr>"

definition default_GetValidatorSet :: "u64 \<Rightarrow> (string, Validator list) outcome" where
  "default_GetValidatorSet blockNum =
     Ok (map (\<lambda>i. \<lparr>val_ID = i, val_Address = 0, val_PubKey = [], val_Stake = Some 1000000, val_Active = True\<rparr>)
       [''validator1'', ''validator2'', ''validator3''])"

definition default_Verify ::
  "('k, 'p) crypto_env \<Rightarrow> Checkpoint option \<Rightarrow> (verify_error, unit) outcome" where
  "default_Verify C checkpoint =
     (case checkpoint of
        None \<Rightarrow> Err CheckpointIsNil
      | Some cp \<Rightarrow>
          if cp_BlockNumber cp = 0 then Err InvalidBlockNumber
          else if cp_BlockHash cp = 0 then Err InvalidBlockHash
          else if length (cp_ValidatorSigs cp) = 0 then Err NoValidatorSignatures
          else
            bind_outcome (wrap_error GetValidatorSetFailed (default_GetValidatorSet (cp_BlockNumber cp))) (\<lambda>validators.
            wrap_error SignatureVerificationFailed
              (VerifyCheckpointSignatures C checkpoint (map Some validators))))"

definition NewDefaultValidator :: "('k, 'p) crypto_env \<Rightarrow> validator_ops" where
  "NewDefaultValidator C = \<lparr>vo_Verify = default_Verify C, vo_GetValidatorSet = default_GetValidatorSet\<rparr>"

subsection \<open>Sources\<close>

datatype source_error =
    FromL1 l1_error
  | NoCheckpointsAvailable
  | CheckpointNotFound u64

record 's source_ops =
  so_FetchLatest :: "'s \<Rightarrow> ((source_error, Checkpoint option) outcome \<times> 's) option"
  so_FetchByNumber :: "'s \<Rightarrow> u64 \<Rightarrow> ((source_error, Checkpoint option) outcome \<times> 's) option"
  so_FetchRange :: "'s \<Rightarrow> u64 \<Rightarrow> u64 \<Rightarrow> ((source_error, Checkpoint list) outcome \<times> 's) option"

fun lift_result ::
  "('a \<Rightarrow> 'b) \<Rightarrow> (l1_error, 'a) outcome \<times> 's \<Rightarrow> (source_error, 'b) outcome \<times> 's" where
  "lift_result f (Ok a, s) = (Ok (f a), s)"
| "lift_result f (Err e, s) = (Err (FromL1 e), s)"
| "lift_result f (Panic p, s) = (Panic p, s)"

definition l1_ops :: "(address \<Rightarrow> string) \<Rightarrow> contract \<Rightarrow> L1Source source_ops" where
  "l1_ops hex call = \<lparr>
     so_FetchLatest = (\<lambda>s. Some (lift_result Some (l1_FetchLatest hex call s))),
     so_FetchByNumber = (\<lambda>s n. map_option (lift_result Some) (l1_FetchByNumber hex call s n)),
     so_FetchRange = (\<lambda>s a e. map_option (lift_result id) (l1_FetchRange hex call s a e))\<rparr>"

record MockSource =
  mk_checkpoints :: "(u64 \<times> Checkpoint) list"

text \<open>
  \<open>FetchLatest\<close> ranges over the map in an order the language leaves open; the model keeps the
  entries in a list, in any order.
\<close>

definition mock_latest :: "(u64 \<times> Checkpoint) list \<Rightarrow> u64 \<times> Checkpoint option" where
  "mock_latest entries =
     foldl (\<lambda>(maxBlock, latest) (n, cp). if n > maxBlock then (n, Some cp) else (maxBlock, latest)) (0, None) entries"

definition mock_FetchLatest :: "MockSource \<Rightarrow> (source_error, Checkpoint option) outcome" where
  "mock_FetchLatest s =
     (case snd (mock_latest (mk_checkpoints s)) of None \<Rightarrow> Err NoCheckpointsAvailable | Some cp \<Rightarrow> Ok (Some cp))"

definition mock_FetchByNumber :: "MockSource \<Rightarrow> u64 \<Rightarrow> (source_error, Checkpoint option) outcome" where
  "mock_FetchByNumber s blockNum =
     (case map_of (mk_checkpoints s) blockNum of
        None \<Rightarrow> Err (CheckpointNotFound blockNum) | Some cp \<Rightarrow> Ok (Some cp))"

text \<open>\<open>for blockNum := start; blockNum <= end; blockNum++\<close> never ends when \<open>end\<close> is \<open>2^64 - 1\<close>.\<close>

partial_function (option) mock_rangeLoop ::
  "MockSource \<Rightarrow> u64 \<Rightarrow> u64 \<Rightarrow> Checkpoint list \<Rightarrow> Checkpoint list option" where
  "mock_rangeLoop s blockNum end cps =
     (if blockNum \<le> end then
        (case map_of (mk_checkpoints s) blockNum of
           None \<Rightarrow> mock_rangeLoop s (blockNum + 1) end cps
         | Some cp \<Rightarrow> mock_rangeLoop s (blockNum + 1) end (cps @ [cp]))
      else Some cps)"

definition mock_FetchRange :: "MockSource \<Rightarrow> u64 \<Rightarrow> u64 \<Rightarrow> (source_error, Checkpoint list) outcome option" where
  "mock_FetchRange s start end = map_option Ok (mock_rangeLoop s start end [])"

definition mock_checkpoint :: "u64 \<Rightarrow> Checkpoint" where
  "mock_checkpoint i = \<lparr>cp_BlockNumber = i,
     cp_BlockHash = BytesToHash (string_bytes (''blockhash-'' @ decimal (unat i))),
     cp_StateRoot = BytesToHash (string_bytes (''stateroot-'' @ decimal (unat i))),
     cp_Timestamp = 1700000000 + i,
     cp_ValidatorSigs = map (\<lambda>(v, p, g). \<lparr>sig_ValidatorID = v, sig_PubKey = string_bytes p, sig_Signature = string_bytes g\<rparr>)
       [(''validator1'', ''pubkey1'', ''sig1''), (''validator2'', ''pubkey2'', ''sig2''),
        (''validator3'', ''pubkey3'', ''sig3'')],
     cp_ChainID = Some 137\<rparr>"

definition generateMockCheckpoints :: "(u64 \<times> Checkpoint) list" where
  "generateMockCheckpoints = map (\<lambda>k. (of_nat (10000 * k), mock_checkpoint (of_nat (10000 * k)))) [1..<11]"

definition NewMockSource :: MockSource where
  "NewMockSource = \<lparr>mk_checkpoints = generateMockCheckpoints\<rparr>"

definition mock_ops :: "MockSource source_ops" where
  "mock_ops = \<lparr>
     so_FetchLatest = (\<lambda>s. Some (mock_FetchLatest s, s)),
     so_FetchByNumber = (\<lambda>s n. Some (mock_FetchByNumber s n, s)),
     so_FetchRange = (\<lambda>s a e. map_option (\<lambda>r. (r, s)) (mock_FetchRange s a e))\<rparr>"

subsection \<open>Manager\<close>

record 's Manager =
  mg_source :: 's
  mg_checkpoints :: "(u64, Checkpoint option) fmap"
  mg_latest :: "Checkpoint option"

datatype manager_error =
    FetchLatestFailed source_error
  | FetchFailed source_error
  | VerificationFailed verify_error
  | InitialCheckpointFailed manager_error

definition NewManager :: "'s \<Rightarrow> 's Manager" where
  "NewManager source = \<lparr>mg_source = source, mg_checkpoints = fmempty, mg_latest = None\<rparr>"

definition updateLatestCheckpoint ::
  "'s source_ops \<Rightarrow> validator_ops \<Rightarrow> 's Manager \<Rightarrow> ((manager_error, unit) outcome \<times> 's Manager) option" where
  "updateLatestCheckpoint S V m =
     (case so_FetchLatest S (mg_source m) of
        None \<Rightarrow> None
      | Some (Err e, src) \<Rightarrow> Some (Err (FetchLatestFailed e), m\<lparr>mg_source := src\<rparr>)
      | Some (Panic p, src) \<Rightarrow> Some (Panic p, m\<lparr>mg_source := src\<rparr>)
      | Some (Ok checkpoint, src) \<Rightarrow>
          (case vo_Verify V checkpoint of
             Err e \<Rightarrow> Some (Err (VerificationFailed e), m\<lparr>mg_source := src\<rparr>)
           | Panic p \<Rightarrow> Some (Panic p, m\<lparr>mg_source := src\<rparr>)
           | Ok _ \<Rightarrow>
               (case checkpoint of
                  None \<Rightarrow> Some (Panic NilDereference, m\<lparr>mg_source := src, mg_latest := None\<rparr>)
                | Some cp \<Rightarrow>
                    Some (Ok (), m\<lparr>mg_source := src, mg_latest := Some cp,
                      mg_checkpoints := fmupd (cp_BlockNumber cp) (Some cp) (mg_checkpoints m)\<rparr>))))"

definition mgr_Start ::
  "'s source_ops \<Rightarrow> validator_ops \<Rightarrow> 's Manager \<Rightarrow> ((manager_error, unit) outcome \<times> 's Manager) option" where
  "mgr_Start S V m =
     map_option (\<lambda>(r, m'). (wrap_error InitialCheckpointFailed r, m')) (updateLatestCheckpoint S V m)"

definition GetLatest :: "'s Manager \<Rightarrow> Checkpoint option" where
  "GetLatest m = mg_latest m"

definition GetByNumber ::
  "'s source_ops \<Rightarrow> validator_ops \<Rightarrow> 's Manager \<Rightarrow> u64 \<Rightarrow>
   ((manager_error, Checkpoint option) outcome \<times> 's Manager) option" where
  "GetByNumber S V m blockNum =
     (case fmlookup (mg_checkpoints m) blockNum of
        Some checkpoint \<Rightarrow> Some (Ok checkpoint, m)
      | None \<Rightarrow>
          (case so_FetchByNumber S (mg_source m) blockNum of
             None \<Rightarrow> None
           | Some (Err e, src) \<Rightarrow> Some (Err (FetchFailed e), m\<lparr>mg_source := src\<rparr>)
           | Some (Panic p, src) \<Rightarrow> Some (Panic p, m\<lparr>mg_source := src\<rparr>)
           | Some (Ok checkpoint, src) \<Rightarrow>
               (case vo_Verify V checkpoint of
                  Err e \<Rightarrow> Some (Err (VerificationFailed e), m\<lparr>mg_source := src\<rparr>)
                | Panic p \<Rightarrow> Some (Panic p, m\<lparr>mg_source := src\<rparr>)
                | Ok _ \<Rightarrow>
                    Some (Ok checkpoint, m\<lparr>mg_source := src,
                      mg_checkpoints := fmupd blockNum checkpoint (mg_checkpoints m)\<rparr>))))"

text \<open>The cached checkpoints, one per key, in an order the language leaves open.\<close>

definition GetAll :: "'s Manager \<Rightarrow> Checkpoint option multiset" where
  "GetAll m = image_mset (\<lambda>n. the (fmlookup (mg_checkpoints m) n)) (mset_set (fset (fmdom (mg_checkpoints m))))"

section \<open>The interfaces of the manager\<close>

text \<open>
  A validator rejects nil and does not panic. A source never delivers nil, and what it delivers
  for a block number reaches at least up to that block.
\<close>

locale checkpoint_validator =
  fixes V :: validator_ops
  assumes rejects_nil: "vo_Verify V None \<noteq> Ok ()"
    and verify_no_panic: "vo_Verify V c \<noteq> Panic p"

locale covering_source =
  fixes S :: "'s source_ops"
    and si :: "'s \<Rightarrow> bool"
  assumes by_number: "si s \<Longrightarrow> so_FetchByNumber S s n = Some (Ok c, s') \<Longrightarrow>
      \<exists>cp. c = Some cp \<and> n \<le> cp_BlockNumber cp"
    and by_number_inv: "si s \<Longrightarrow> so_FetchByNumber S s n = Some (r, s') \<Longrightarrow> si s'"
    and latest_inv: "si s \<Longrightarrow> so_FetchLatest S s = Some (r, s') \<Longrightarrow> si s'"

interpretation l1_validator: checkpoint_validator NewL1Validator
  by unfold_locales (auto simp: NewL1Validator_def l1_Verify_def split: option.split)

interpretation dev_validator: checkpoint_validator devValidator
  by unfold_locales (auto simp: devValidator_def dev_Verify_def split: option.split)

lemma VerifyCheckpointSignatures_no_panic: "VerifyCheckpointSignatures C (Some cp) vs \<noteq> Panic p"
  by (simp add: VerifyCheckpointSignatures_def Let_def split: prod.split)

interpretation default_validator: checkpoint_validator "NewDefaultValidator C"
  by unfold_locales
    (auto simp: NewDefaultValidator_def default_Verify_def default_GetValidatorSet_def outcome_eq_Panic
      VerifyCheckpointSignatures_no_panic split: option.split)

text \<open>For every contract: what the search finds covers the block number.\<close>

lemma search_found:
  assumes ret: "searchHeader call n lo hi = Some (Ok (Some h))"
  shows "big_Uint64 (hb_Start h) \<le> n \<and> n \<le> big_Uint64 (hb_End h)"
proof -
  let ?P = "\<lambda>(call :: contract) n (lo :: int) (hi :: int) (y :: (l1_error, headerBlock option) outcome).
    \<forall>h. y = Ok (Some h) \<longrightarrow> big_Uint64 (hb_Start h) \<le> n \<and> n \<le> big_Uint64 (hb_End h)"
  have "?P call n lo hi (Ok (Some h))"
  proof (rule searchHeader.raw_induct [where P = ?P, OF _ ret])
    fix f and call :: contract and n :: u64 and lo hi :: int and y
    assume IH: "\<And>call n lo hi y. f call n lo hi = Some y \<Longrightarrow> ?P call n lo hi y"
      and eq: "(if lo \<le> hi then
        (let mid = go_quot (to_int64 (lo + hi)) 2; hid = to_int64 (mid * childBlockInterval) in
         case headerBlockByID call hid of
           Ok hb \<Rightarrow>
             if n < big_Uint64 (hb_Start hb) then f call n lo (to_int64 (mid - 1))
             else if big_Uint64 (hb_End hb) < n then f call n (to_int64 (mid + 1)) hi
             else Some (Ok (Some hb))
         | Err e \<Rightarrow> Some (Err (HeaderBlocksFailed hid e))
         | Panic p \<Rightarrow> Some (Panic p))
      else Some (Ok None)) = Some y"
    from eq show "?P call n lo hi y"
      by (auto simp: Let_def not_less split: if_splits outcome.splits dest!: IH)
  qed
  then show ?thesis by blast
qed

lemma l1_by_number_covers:
  "l1_FetchByNumber hex call s n = Some (Ok cp, s') \<Longrightarrow> n \<le> cp_BlockNumber cp"
  by (auto simp: l1_FetchByNumber_def Let_def toCheckpoint_def
      split: outcome.splits option.splits dest: search_found)

lemma lift_result_eq_Ok [simp]: "lift_result f x = (Ok b, s) \<longleftrightarrow> (\<exists>a. x = (Ok a, s) \<and> b = f a)"
  by (cases "(f, x)" rule: lift_result.cases) auto

interpretation l1: covering_source "l1_ops hex call" "\<lambda>_. True"
  by unfold_locales (auto simp: l1_ops_def dest: l1_by_number_covers)

definition mock_inv :: "MockSource \<Rightarrow> bool" where
  "mock_inv s \<longleftrightarrow> (\<forall>(n, cp) \<in> set (mk_checkpoints s). cp_BlockNumber cp = n)"

lemma mock_by_number: "mock_inv s \<Longrightarrow> mock_FetchByNumber s n = Ok c \<Longrightarrow> \<exists>cp. c = Some cp \<and> cp_BlockNumber cp = n"
  using map_of_SomeD [of "mk_checkpoints s" n]
  by (cases "map_of (mk_checkpoints s) n") (auto simp: mock_FetchByNumber_def mock_inv_def)

interpretation mock: covering_source mock_ops mock_inv
  by unfold_locales (auto simp: mock_ops_def dest: mock_by_number)

lemma mock_inv_New: "mock_inv NewMockSource"
  by (auto simp: mock_inv_def NewMockSource_def generateMockCheckpoints_def mock_checkpoint_def)

section \<open>Runs of the manager\<close>

inductive mgr_reach :: "'s source_ops \<Rightarrow> validator_ops \<Rightarrow> ('s \<Rightarrow> bool) \<Rightarrow> 's Manager \<Rightarrow> bool"
  for S V si where
  mgr_new: "si src \<Longrightarrow> mgr_reach S V si (NewManager src)"
| mgr_update: "mgr_reach S V si m \<Longrightarrow> updateLatestCheckpoint S V m = Some (r, m') \<Longrightarrow> mgr_reach S V si m'"
| mgr_get: "mgr_reach S V si m \<Longrightarrow> GetByNumber S V m n = Some (r, m') \<Longrightarrow> mgr_reach S V si m'"

definition mgr_ok :: "validator_ops \<Rightarrow> ('s \<Rightarrow> bool) \<Rightarrow> 's Manager \<Rightarrow> bool" where
  "mgr_ok V si m \<longleftrightarrow>
     si (mg_source m) \<and>
     (\<forall>n c. fmlookup (mg_checkpoints m) n = Some c \<longrightarrow>
        (\<exists>cp. c = Some cp \<and> n \<le> cp_BlockNumber cp \<and> vo_Verify V (Some cp) = Ok ())) \<and>
     (\<forall>cp. mg_latest m = Some cp \<longrightarrow>
        vo_Verify V (Some cp) = Ok () \<and> fmlookup (mg_checkpoints m) (cp_BlockNumber cp) \<noteq> None)"

locale checkpoint_manager = covering_source S si + checkpoint_validator V
  for S :: "'s source_ops" and si :: "'s \<Rightarrow> bool" and V :: validator_ops
begin

lemma latest_delivers:
  assumes "updateLatestCheckpoint S V m = Some (r, m')"
  obtains (stored) cp where "r = Ok ()" "vo_Verify V (Some cp) = Ok ()" "mg_latest m' = Some cp"
      "mg_checkpoints m' = fmupd (cp_BlockNumber cp) (Some cp) (mg_checkpoints m)"
  | (kept) "\<not> is_ok r" "mg_checkpoints m' = mg_checkpoints m" "mg_latest m' = mg_latest m"
proof -
  obtain fr src where f: "so_FetchLatest S (mg_source m) = Some (fr, src)"
    using assms by (auto simp: updateLatestCheckpoint_def split: option.splits)
  consider (ok) cp where "fr = Ok (Some cp)" "vo_Verify V (Some cp) = Ok ()"
    | (rejected) c e where "fr = Ok c" "vo_Verify V c = Err e" | (failed) "\<not> is_ok fr"
  proof (cases fr)
    case (Ok c)
    then show thesis
      using rejects_nil verify_no_panic [of c] ok rejected by (cases "vo_Verify V c"; cases c) auto
  qed (use failed in simp_all)
  then show thesis
  proof cases
    case (ok cp)
    with assms f show thesis by (intro stored) (auto simp: updateLatestCheckpoint_def)
  next
    case (rejected c e)
    with assms f show thesis by (intro kept) (auto simp: updateLatestCheckpoint_def)
  next
    case failed
    with assms f show thesis by (intro kept; cases fr) (auto simp: updateLatestCheckpoint_def)
  qed
qed

lemma get_delivers:
  assumes "GetByNumber S V m n = Some (r, m')" and "si (mg_source m)"
  obtains (hit) c where "fmlookup (mg_checkpoints m) n = Some c" "r = Ok c" "m' = m"
  | (fetched) cp where "r = Ok (Some cp)" "n \<le> cp_BlockNumber cp" "vo_Verify V (Some cp) = Ok ()"
      "mg_latest m' = mg_latest m" "mg_checkpoints m' = fmupd n (Some cp) (mg_checkpoints m)"
  | (kept) "\<not> is_ok r" "mg_checkpoints m' = mg_checkpoints m" "mg_latest m' = mg_latest m"
proof (cases "fmlookup (mg_checkpoints m) n")
  case (Some c)
  with assms(1) have "r = Ok c" "m' = m" by (simp_all add: GetByNumber_def)
  with Some show thesis by (rule hit)
next
  case None
  with assms(1) obtain fr src where f: "so_FetchByNumber S (mg_source m) n = Some (fr, src)"
    by (auto simp: GetByNumber_def split: option.splits)
  consider (ok) cp where "fr = Ok (Some cp)" "n \<le> cp_BlockNumber cp" "vo_Verify V (Some cp) = Ok ()"
    | (rejected) c e where "fr = Ok c" "vo_Verify V c = Err e" | (failed) "\<not> is_ok fr"
  proof (cases fr)
    case (Ok c)
    then show thesis
      using by_number [OF assms(2), of n c src] f verify_no_panic [of c] ok rejected
      by (cases "vo_Verify V c") auto
  qed (use failed in simp_all)
  then show thesis
  proof cases
    case (ok cp)
    with assms(1) None f show thesis by (intro fetched) (auto simp: GetByNumber_def)
  next
    case (rejected c e)
    with assms(1) None f show thesis by (intro kept) (auto simp: GetByNumber_def)
  next
    case failed
    with assms(1) None f show thesis by (intro kept; cases fr) (auto simp: GetByNumber_def)
  qed
qed

lemma update_source: "updateLatestCheckpoint S V m = Some (r, m') \<Longrightarrow> si (mg_source m) \<Longrightarrow> si (mg_source m')"
  using latest_inv [of "mg_source m"]
  by (auto simp: updateLatestCheckpoint_def split: option.splits prod.splits outcome.splits)

lemma get_source: "GetByNumber S V m n = Some (r, m') \<Longrightarrow> si (mg_source m) \<Longrightarrow> si (mg_source m')"
  using by_number_inv [of "mg_source m"]
  by (auto simp: GetByNumber_def split: option.splits prod.splits outcome.splits)

lemma reach_ok: "mgr_reach S V si m \<Longrightarrow> mgr_ok V si m"
proof (induction rule: mgr_reach.induct)
  case (mgr_new src)
  then show ?case by (simp add: mgr_ok_def NewManager_def)
next
  case (mgr_update m r m')
  then have "si (mg_source m')" using update_source by (simp add: mgr_ok_def)
  with mgr_update.IH show ?case
    by (rule_tac latest_delivers [OF mgr_update.hyps(2)]) (auto simp: mgr_ok_def)
next
  case (mgr_get m n r m')
  then have src: "si (mg_source m)" "si (mg_source m')" using get_source by (auto simp: mgr_ok_def)
  with mgr_get.IH show ?case
    by (rule_tac get_delivers [OF mgr_get.hyps(2) src(1)]) (auto simp: mgr_ok_def)
qed

text \<open>Asking again is answered from the cache, and failed calls leave the cache alone.\<close>

lemma get_again:
  assumes "mgr_ok V si m" and "GetByNumber S V m n = Some (r, m')"
  shows "case r of
     Ok c \<Rightarrow> c \<noteq> None \<and> GetByNumber S V m' n = Some (Ok c, m') \<and>
       (\<forall>k. k \<noteq> n \<longrightarrow> fmlookup (mg_checkpoints m') k = fmlookup (mg_checkpoints m) k)
   | _ \<Rightarrow> mg_checkpoints m' = mg_checkpoints m"
proof -
  have src: "si (mg_source m)" using assms(1) by (simp add: mgr_ok_def)
  show ?thesis
    by (rule get_delivers [OF assms(2) src])
      (use assms(1) in \<open>auto simp: mgr_ok_def GetByNumber_def split: outcome.splits\<close>)
qed

end

interpretation l1_manager: checkpoint_manager "l1_ops hex call" "\<lambda>_. True" NewL1Validator
  by unfold_locales

interpretation mock_manager: checkpoint_manager mock_ops mock_inv devValidator
  by unfold_locales

interpretation l1_default_manager: checkpoint_manager "l1_ops hex call" "\<lambda>_. True" "NewDefaultValidator C"
  by unfold_locales

section \<open>Properties\<close>


definition ex_manager :: "L1Source Manager" where
  "ex_manager = (let cp = toCheckpoint (\<lambda>_. ''hex'') ex_source (ex_header_block 3) in
     \<lparr>mg_source = l1_put ex_source cp, mg_checkpoints = fmupd 299 (Some cp) fmempty, mg_latest = Some cp\<rparr>)"

lemma ex_manager_update:
  "updateLatestCheckpoint (l1_ops (\<lambda>_. ''hex'') ex_contract) NewL1Validator (NewManager ex_source) =
     Some (Ok (), ex_manager)"
  by (simp add: updateLatestCheckpoint_def l1_ops_def l1_FetchLatest_def currentHeaderBlockID_def
      headerBlockByID_def ex_contract_def Let_def NewManager_def NewL1Validator_def l1_Verify_def
      ex_manager_def toCheckpoint_def ex_header_block_def big_Uint64_def)

lemma ex_manager_reach: "mgr_reach (l1_ops (\<lambda>_. ''hex'') ex_contract) NewL1Validator (\<lambda>_. True) ex_manager"
  by (rule mgr_update [OF mgr_new ex_manager_update]) simp


text \<open>
  \<open>GetByNumber\<close> is stable: after a successful call the same call is answered from the cache
  with the same checkpoint and without touching the source, other cached entries are unchanged, and
  a failed call leaves the cache as it was.
\<close>

theorem get_by_number_is_stable:
  assumes "mgr_reach (l1_ops hex call) NewL1Validator (\<lambda>_. True) m"
    and "GetByNumber (l1_ops hex call) NewL1Validator m n = Some (r, m')"
  shows "case r of
     Ok c \<Rightarrow> c \<noteq> None \<and> GetByNumber (l1_ops hex call) NewL1Validator m' n = Some (Ok c, m') \<and>
       (\<forall>k. k \<noteq> n \<longrightarrow> fmlookup (mg_checkpoints m') k = fmlookup (mg_checkpoints m) k)
   | _ \<Rightarrow> mg_checkpoints m' = mg_checkpoints m"
  by (rule l1_manager.get_again [OF l1_manager.reach_ok [OF assms(1)] assms(2)])

theorem get_by_number_is_stable_witness:
  "\<exists>c. GetByNumber (l1_ops (\<lambda>_. ''hex'') ex_contract) NewL1Validator ex_manager 299 = Some (Ok c, ex_manager) \<and> c \<noteq> None"
proof -
  obtain c where c: "GetByNumber (l1_ops (\<lambda>_. ''hex'') ex_contract) NewL1Validator ex_manager 299 = Some (Ok c, ex_manager)"
    by (auto simp: GetByNumber_def ex_manager_def Let_def)
  with get_by_number_is_stable [OF ex_manager_reach c] show ?thesis by auto
qed

section \<open>The mock source and the default validator\<close>

text \<open>The mock source's range loop returns the checkpoints of \<open>[start, end]\<close> in order \<dots>\<close>

lemma mock_range_step:
  "start \<le> end \<Longrightarrow> mock_rangeLoop s start end cps =
     mock_rangeLoop s (start + 1) end (cps @ (case map_of (mk_checkpoints s) start of None \<Rightarrow> [] | Some cp \<Rightarrow> [cp]))"
  by (subst mock_rangeLoop.simps) (simp split: option.split)

lemma mock_range_returns:
  assumes "end \<noteq> u64_max"
  shows "mock_rangeLoop s start end cps =
    Some (cps @ List.map_filter (map_of (mk_checkpoints s)) (u64_loop start (end + 1)))"
proof (induction start "end + 1" arbitrary: cps rule: u64_loop.induct)
  case (1 start)
  have lt: "start < end + 1 \<longleftrightarrow> start \<le> end"
    using assms less_succ_u64 [of "end" u64_max] by (auto simp: u64_less_max_iff; unat_arith)
  show ?case
  proof (cases "start \<le> end")
    case True
    then have "start < end + 1" using lt by simp
    from 1(1) [OF this] True lt show ?thesis
      by (simp add: mock_range_step u64_loop.simps [of start] List.map_filter_def split: option.split)
  next
    case False
    then show ?thesis
      using lt by (subst mock_rangeLoop.simps) (simp add: u64_loop.simps [of start] List.map_filter_def)
  qed
qed

text \<open>\<open>\<dots>\<close> and never returns when the end of the range is \<open>2^64 - 1\<close>.\<close>

lemma mock_range_diverges: "mock_rangeLoop s start u64_max cps = None"
proof -
  have False if ret: "mock_rangeLoop s start u64_max cps = Some r" for r
  proof -
    let ?P = "\<lambda>(s :: MockSource) (start :: u64) e (cps :: Checkpoint list) (r :: Checkpoint list). e \<noteq> u64_max"
    have "?P s start u64_max cps r"
    proof (rule mock_rangeLoop.raw_induct [where P = ?P, OF _ ret])
      fix f and s :: MockSource and start e :: u64 and cps r :: "Checkpoint list"
      assume IH: "\<And>s start e cps r. f s start e cps = Some r \<Longrightarrow> e \<noteq> u64_max"
        and eq: "(if start \<le> e then
            (case map_of (mk_checkpoints s) start of
               None \<Rightarrow> f s (start + 1) e cps
             | Some cp \<Rightarrow> f s (start + 1) e (cps @ [cp]))
          else Some cps) = Some r"
      from eq show "e \<noteq> u64_max"
        by (cases "e = u64_max") (auto split: if_splits option.splits dest: IH)
    qed
    then show False by simp
  qed
  then show ?thesis by (cases "mock_rangeLoop s start u64_max cps") auto
qed

text \<open>
  The validator set of \<open>DefaultValidator\<close> has no addresses. When recovery never yields the zero
  address, no checkpoint passes it.
\<close>

lemma default_validator_rejects_all:
  assumes "\<And>h sig k. cr_SigToPub C h sig = Some k \<Longrightarrow> cr_PubkeyToAddress C k \<noteq> 0"
  shows "default_Verify C c \<noteq> Ok ()"
proof (cases c)
  case (Some cp)
  let ?set = "map (\<lambda>i. \<lparr>val_ID = i, val_Address = 0, val_PubKey = [], val_Stake = Some 1000000, val_Active = True\<rparr>)
       [''validator1'', ''validator2'', ''validator3'']"
  have "signs C cp (map Some ?set) sig = None" for sig
  proof (cases "signs C cp (map Some ?set) sig")
    case (Some v)
    have "val_Address v = 0" using signs_Some(1) [OF Some] by auto
    with signs_Some(3) [OF Some] assms show ?thesis
      by (auto simp: VerifyCheckpointSignature_def Let_def split: if_splits option.splits)
  qed
  then have "signed_stake C cp (map Some ?set) sigs = 0" for sigs
    by (simp add: signed_stake_def List.map_filter_def)
  moreover have "total_stake (map Some ?set) = 3000000" by (simp add: total_stake_def stake_def)
  ultimately have "VerifyCheckpointSignatures C (Some cp) (map Some ?set) \<noteq> Ok ()"
    unfolding VerifyCheckpointSignatures_iff by simp
  then show ?thesis
    using Some by (auto simp: default_Verify_def default_GetValidatorSet_def)
qed (simp add: default_Verify_def)

end
