(* ===== verification/Forward_Sync.thy ===== *)
theory Forward_Sync
  imports Block_Fetcher Block_Validation Pebble_Storage Checkpoint_Manager
begin

text \<open>
  \<open>pkg/sync/forward.go\<close>: the forward syncer. Its workers run concurrently and share the storage and
  three atomic counters; one turn of a worker's loop is cut at every access to shared state
  (\<open>worker_pc\<close> is the place it has reached, \<open>workerStep\<close> the code up to the next one), and the
  relation \<open>fwd_step\<close> interleaves the workers and the target updater in any order. \<open>syncBlock\<close> is
  the same code run without interruption, and \<open>worker_runs_syncBlock\<close> relates the two.

  The storage is any engine given by its method dictionary, the fetcher any value of the
  \<open>BlockFetcher\<close> interface (its replies may differ from call to call), and the validator one of the
  three of \<open>Block_Validation\<close>.
\<close>

section \<open>Model\<close>

record ForwardSyncConfig =
  fc_Enabled :: bool
  fc_Workers :: int
  fc_LookAhead :: int
  fc_ValidationLevel :: string

record ForwardSyncStatus =
  fst_CurrentBlock :: u64
  fst_TargetBlock :: u64
  fst_Progress :: float64
  fst_Syncing :: bool
  fst_BlocksPerSec :: float64

text \<open>The interface \<open>BlockFetcher\<close>: the replies of one call of each method.\<close>

record block_fetcher =
  if_FetchBlock :: "u64 \<Rightarrow> (fetch_error, Block option) outcome"
  if_FetchBlocks :: "u64 \<Rightarrow> u64 \<Rightarrow> (fetch_error, Block option list) outcome"
  if_FetchLatestBlockNumber :: "(fetch_error, u64) outcome"

datatype sync_error =
    NoCheckpoint
  | FetcherNotInitialized
  | SyncFetchFailed u64 fetch_error
  | SyncValidationFailed u64 validation_error
  | SyncStoreFailed u64 storage_error
  | BatchFetchFailed u64 u64 fetch_error
  | BatchValidationFailed u64 validation_error
  | BatchStoreFailed u64 u64 storage_error
  | ForwardStartFailed sync_error
  | BackwardStartFailed sync_error

text \<open>The fields of \<open>ForwardSyncer\<close> other than the storage and the checkpoint manager it points to.\<close>

record ForwardSyncer =
  fs_config :: ForwardSyncConfig
  fs_hasFetcher :: bool
  fs_validator :: "BlockValidator option"
  fs_currentBlock :: u64
  fs_targetBlock :: u64
  fs_blocksPerSec :: u64

definition NewForwardSyncer :: "ForwardSyncConfig \<Rightarrow> bool \<Rightarrow> BlockValidator option \<Rightarrow> ForwardSyncer" where
  "NewForwardSyncer cfg hasFetcher validator =
     \<lparr>fs_config = cfg, fs_hasFetcher = hasFetcher, fs_validator = validator,
      fs_currentBlock = 0, fs_targetBlock = 0, fs_blocksPerSec = 0\<rparr>"

definition fwd_GetStatus :: "ForwardSyncer \<Rightarrow> ForwardSyncStatus" where
  "fwd_GetStatus f =
     (let current = fs_currentBlock f; target = fs_targetBlock f;
          progress = (if target > 0
                      then (let p = percentage (unat current) (unat target) in if p > 100 then 100 else p)
                      else 0) in
      \<lparr>fst_CurrentBlock = current, fst_TargetBlock = target, fst_Progress = progress,
       fst_Syncing = True, fst_BlocksPerSec = f64_of_u64 (fs_blocksPerSec f)\<rparr>)"

subsection \<open>One block\<close>

text \<open>\<open>parent, _ = f.storage.GetBlock(f.ctx, blockNum-1)\<close>: an error leaves the parent nil.\<close>

definition storedParent :: "'s storage_ops \<Rightarrow> 's \<Rightarrow> u64 \<Rightarrow> (sync_error, Block option) outcome" where
  "storedParent ops s blockNum =
     (if blockNum > 0 then
        (case st_GetBlock ops s (blockNum - 1) of
           Ok b \<Rightarrow> Ok (Some b) | Err _ \<Rightarrow> Ok None | Panic p \<Rightarrow> Panic p)
      else Ok None)"

definition fetchForSync :: "bool \<Rightarrow> block_fetcher \<Rightarrow> u64 \<Rightarrow> (sync_error, Block option) outcome" where
  "fetchForSync hasFetcher net blockNum =
     (if \<not> hasFetcher then Err FetcherNotInitialized
      else wrap_error (SyncFetchFailed blockNum) (if_FetchBlock net blockNum))"

definition validateForSync ::
  "hash_env \<Rightarrow> u64 \<Rightarrow> 's storage_ops \<Rightarrow> 's \<Rightarrow> BlockValidator option \<Rightarrow> u64 \<Rightarrow> Block option \<Rightarrow>
   (sync_error, unit) outcome" where
  "validateForSync H now ops s validator blockNum block =
     (case validator of
        None \<Rightarrow> Ok ()
      | Some V \<Rightarrow> bind_outcome (storedParent ops s blockNum) (\<lambda>parent.
          wrap_error (SyncValidationFailed blockNum) (ValidateBlock H now V block parent)))"

definition syncBlock ::
  "hash_env \<Rightarrow> u64 \<Rightarrow> block_fetcher \<Rightarrow> 's storage_ops \<Rightarrow> ForwardSyncer \<Rightarrow> 's \<Rightarrow> u64 \<Rightarrow>
   (sync_error, unit) outcome \<times> 's" where
  "syncBlock H now net ops f s blockNum =
     (if st_HasBlock ops s blockNum then (Ok (), s)
      else
        (case fetchForSync (fs_hasFetcher f) net blockNum of
           Err e \<Rightarrow> (Err e, s)
         | Panic p \<Rightarrow> (Panic p, s)
         | Ok block \<Rightarrow>
             (case validateForSync H now ops s (fs_validator f) blockNum block of
                Err e \<Rightarrow> (Err e, s)
              | Panic p \<Rightarrow> (Panic p, s)
              | Ok _ \<Rightarrow>
                  (case st_StoreBlock ops s block of
                     (r, s') \<Rightarrow> (wrap_error (SyncStoreFailed blockNum) r, s')))))"

subsection \<open>The workers\<close>

datatype worker_pc =
    Idle                              \<comment> \<open>at the top of the loop\<close>
  | Claimed u64                       \<comment> \<open>has taken a number from the counter\<close>
  | Checking u64                      \<comment> \<open>in \<open>syncBlock\<close>, before \<open>HasBlock\<close>\<close>
  | Fetching u64                      \<comment> \<open>before \<open>FetchBlock\<close>\<close>
  | Fetched u64 "Block option"        \<comment> \<open>before the parent is read and the block validated\<close>
  | Validated u64 "Block option"      \<comment> \<open>before \<open>StoreBlock\<close>\<close>
  | Failed u64                        \<comment> \<open>\<open>syncBlock\<close> returned an error; before the decrement\<close>
  | Synced u64                        \<comment> \<open>\<open>syncBlock\<close> returned nil; before the metrics\<close>
  | Stopped

text \<open>
  The worker's code between two accesses to shared state. \<open>currentBlock.Add(1) - 1\<close> is the old value
  of the counter, \<open>Add(^uint64(0))\<close> subtracts one. A panic in any worker ends the process (\<open>Inl\<close>).
\<close>

fun workerStep ::
  "hash_env \<Rightarrow> u64 \<Rightarrow> block_fetcher \<Rightarrow> bool \<Rightarrow> 's storage_ops \<Rightarrow> worker_pc \<Rightarrow> ForwardSyncer \<Rightarrow> 's \<Rightarrow>
   go_panic + (worker_pc \<times> ForwardSyncer \<times> 's)" where
  "workerStep H now net cancelled ops Idle f s =
     (if cancelled then Inr (Stopped, f, s)
      else Inr (Claimed (fs_currentBlock f), f\<lparr>fs_currentBlock := fs_currentBlock f + 1\<rparr>, s))"
| "workerStep H now net cancelled ops (Claimed n) f s =
     (if n \<ge> fs_targetBlock f then Inr (Idle, f, s) else Inr (Checking n, f, s))"
| "workerStep H now net cancelled ops (Checking n) f s =
     (if st_HasBlock ops s n then Inr (Synced n, f, s) else Inr (Fetching n, f, s))"
| "workerStep H now net cancelled ops (Fetching n) f s =
     (case fetchForSync (fs_hasFetcher f) net n of
        Ok b \<Rightarrow> Inr (Fetched n b, f, s) | Err e \<Rightarrow> Inr (Failed n, f, s) | Panic p \<Rightarrow> Inl p)"
| "workerStep H now net cancelled ops (Fetched n b) f s =
     (case validateForSync H now ops s (fs_validator f) n b of
        Ok _ \<Rightarrow> Inr (Validated n b, f, s) | Err e \<Rightarrow> Inr (Failed n, f, s) | Panic p \<Rightarrow> Inl p)"
| "workerStep H now net cancelled ops (Validated n b) f s =
     (case st_StoreBlock ops s b of
        (Ok _, s') \<Rightarrow> Inr (Synced n, f, s') | (Err e, s') \<Rightarrow> Inr (Failed n, f, s') | (Panic p, s') \<Rightarrow> Inl p)"
| "workerStep H now net cancelled ops (Failed n) f s =
     Inr (Idle, f\<lparr>fs_currentBlock := fs_currentBlock f + (- 1)\<rparr>, s)"
| "workerStep H now net cancelled ops (Synced n) f s =
     Inr (Idle, f\<lparr>fs_blocksPerSec := fs_blocksPerSec f + 1\<rparr>, s)"
| "workerStep H now net cancelled ops Stopped f s = Inr (Stopped, f, s)"

text \<open>One tick of the target updater: an error of the fetcher skips the reset of the counter.\<close>

definition targetUpdate :: "block_fetcher \<Rightarrow> ForwardSyncer \<Rightarrow> (go_panic, ForwardSyncer) sum" where
  "targetUpdate net f =
     (if fs_hasFetcher f then
        (case if_FetchLatestBlockNumber net of
           Ok latest \<Rightarrow> Inr (f\<lparr>fs_targetBlock := latest, fs_blocksPerSec := 0\<rparr>)
         | Err _ \<Rightarrow> Inr f
         | Panic p \<Rightarrow> Inl p)
      else Inr (f\<lparr>fs_blocksPerSec := 0\<rparr>))"

record 's fwd_state =
  fw_sync :: ForwardSyncer
  fw_store :: 's
  fw_workers :: "worker_pc list"
  fw_cancelled :: bool
  fw_crash :: "go_panic option"

definition fwd_Start ::
  "Checkpoint option \<Rightarrow> ForwardSyncer \<Rightarrow> 's \<Rightarrow> (sync_error, 's fwd_state) outcome" where
  "fwd_Start latest f s =
     (case latest of
        None \<Rightarrow> Err NoCheckpoint
      | Some cp \<Rightarrow> Ok
          \<lparr>fw_sync = f\<lparr>fs_currentBlock := cp_BlockNumber cp, fs_targetBlock := cp_BlockNumber cp + 1000\<rparr>,
           fw_store = s, fw_workers = replicate (nat (fc_Workers (fs_config f))) Idle,
           fw_cancelled = False, fw_crash = None\<rparr>)"

definition fwd_Stop :: "'s fwd_state \<Rightarrow> 's fwd_state" where
  "fwd_Stop st = st\<lparr>fw_cancelled := True\<rparr>"

text \<open>
  A step of the running syncer: one worker, the target updater, or the call of \<open>Stop\<close>. \<open>net\<close> ranges
  over the behaviours of the fetcher that \<open>nets\<close> allows, \<open>now\<close> over all times.
\<close>

inductive fwd_step ::
  "hash_env \<Rightarrow> (block_fetcher \<Rightarrow> bool) \<Rightarrow> 's storage_ops \<Rightarrow> 's fwd_state \<Rightarrow> 's fwd_state \<Rightarrow> bool"
  for H nets ops where
  fwd_worker: "fw_crash st = None \<Longrightarrow> i < length (fw_workers st) \<Longrightarrow> nets net \<Longrightarrow>
    workerStep H now net (fw_cancelled st) ops (fw_workers st ! i) (fw_sync st) (fw_store st) = Inr (pc, f, s) \<Longrightarrow>
    fwd_step H nets ops st (st\<lparr>fw_workers := (fw_workers st)[i := pc], fw_sync := f, fw_store := s\<rparr>)"
| fwd_panic: "fw_crash st = None \<Longrightarrow> i < length (fw_workers st) \<Longrightarrow> nets net \<Longrightarrow>
    workerStep H now net (fw_cancelled st) ops (fw_workers st ! i) (fw_sync st) (fw_store st) = Inl p \<Longrightarrow>
    fwd_step H nets ops st (st\<lparr>fw_crash := Some p\<rparr>)"
| fwd_target: "fw_crash st = None \<Longrightarrow> nets net \<Longrightarrow> targetUpdate net (fw_sync st) = Inr f \<Longrightarrow>
    fwd_step H nets ops st (st\<lparr>fw_sync := f\<rparr>)"
| fwd_target_panic: "fw_crash st = None \<Longrightarrow> nets net \<Longrightarrow> targetUpdate net (fw_sync st) = Inl p \<Longrightarrow>
    fwd_step H nets ops st (st\<lparr>fw_crash := Some p\<rparr>)"
| fwd_stop: "fwd_step H nets ops st (fwd_Stop st)"

abbreviation fwd_run ::
  "hash_env \<Rightarrow> (block_fetcher \<Rightarrow> bool) \<Rightarrow> 's storage_ops \<Rightarrow> 's fwd_state \<Rightarrow> 's fwd_state \<Rightarrow> bool" where
  "fwd_run H nets ops \<equiv> (fwd_step H nets ops)\<^sup>*\<^sup>*"

section \<open>A worker alone\<close>

text \<open>The worker's steps from \<open>HasBlock\<close> on, without interruption, are \<open>syncBlock\<close>.\<close>

fun run_worker ::
  "hash_env \<Rightarrow> u64 \<Rightarrow> block_fetcher \<Rightarrow> 's storage_ops \<Rightarrow> nat \<Rightarrow> worker_pc \<Rightarrow> ForwardSyncer \<Rightarrow> 's \<Rightarrow>
   go_panic + (worker_pc \<times> ForwardSyncer \<times> 's)" where
  "run_worker H now net ops 0 pc f s = Inr (pc, f, s)"
| "run_worker H now net ops (Suc k) pc f s =
     (case pc of
        Synced n \<Rightarrow> Inr (pc, f, s)
      | Failed n \<Rightarrow> Inr (pc, f, s)
      | _ \<Rightarrow>
         (case workerStep H now net False ops pc f s of
            Inl p \<Rightarrow> Inl p
          | Inr (pc', f', s') \<Rightarrow> run_worker H now net ops k pc' f' s'))"

lemma worker_runs_syncBlock:
  "run_worker H now net ops 4 (Checking n) f s =
     (case syncBlock H now net ops f s n of
        (Ok _, s') \<Rightarrow> Inr (Synced n, f, s')
      | (Err _, s') \<Rightarrow> Inr (Failed n, f, s')
      | (Panic p, s') \<Rightarrow> Inl p)"
proof -
  have four: "(4 :: nat) = Suc (Suc (Suc (Suc 0)))" by simp
  obtain r s' where store: "st_StoreBlock ops s b = (r b, s' b)" for b
    using that [of "\<lambda>b. fst (st_StoreBlock ops s b)" "\<lambda>b. snd (st_StoreBlock ops s b)"] by simp
  show ?thesis
    by (simp add: four syncBlock_def store split: outcome.split)
qed


section \<open>Where the stored blocks come from\<close>

text \<open>
  \<open>m0\<close> is what the storage held at the start and \<open>m\<close> what it holds now; \<open>reply n b\<close> says that the
  fetcher may deliver \<open>b\<close> for the number \<open>n\<close>. A block has its \<open>origin\<close> in the initial storage or,
  where that had none, in a reply for its number; it is \<open>checked\<close> when the validator accepted it
  against such a block of the number below, which is stored as well.
\<close>

definition origin :: "(u64 \<rightharpoonup> Block) \<Rightarrow> (u64 \<Rightarrow> Block \<Rightarrow> bool) \<Rightarrow> u64 \<Rightarrow> Block \<Rightarrow> bool" where
  "origin m0 reply n b \<longleftrightarrow> (case m0 n of Some b0 \<Rightarrow> b = b0 | None \<Rightarrow> reply n b)"

definition checked ::
  "hash_env \<Rightarrow> BlockValidator \<Rightarrow> (u64 \<rightharpoonup> Block) \<Rightarrow> (u64 \<Rightarrow> Block \<Rightarrow> bool) \<Rightarrow> (u64 \<rightharpoonup> Block) \<Rightarrow> u64 \<Rightarrow> Block \<Rightarrow> bool" where
  "checked H V m0 reply m n b \<longleftrightarrow> n \<noteq> 0 \<and> m (n - 1) \<noteq> None \<and>
     (\<exists>p now. origin m0 reply (n - 1) p \<and> ValidateBlock H now V (Some b) (Some p) = Ok ())"

fun pc_ok ::
  "hash_env \<Rightarrow> BlockValidator \<Rightarrow> (u64 \<rightharpoonup> Block) \<Rightarrow> (u64 \<Rightarrow> Block \<Rightarrow> bool) \<Rightarrow> (u64 \<rightharpoonup> Block) \<Rightarrow> worker_pc \<Rightarrow> bool" where
  "pc_ok H V m0 reply m (Fetching n) \<longleftrightarrow> m0 n = None"
| "pc_ok H V m0 reply m (Fetched n b) \<longleftrightarrow> m0 n = None \<and> (\<forall>x. b = Some x \<longrightarrow> reply n x)"
| "pc_ok H V m0 reply m (Validated n b) \<longleftrightarrow> m0 n = None \<and>
     (\<exists>x. b = Some x \<and> reply n x \<and> block_number x = Some n \<and> checked H V m0 reply m n x)"
| "pc_ok H V m0 reply m pc \<longleftrightarrow> True"

definition stored_ok ::
  "hash_env \<Rightarrow> BlockValidator \<Rightarrow> (u64 \<rightharpoonup> Block) \<Rightarrow> (u64 \<Rightarrow> Block \<Rightarrow> bool) \<Rightarrow> (u64 \<rightharpoonup> Block) \<Rightarrow> bool" where
  "stored_ok H V m0 reply m \<longleftrightarrow> dom m0 \<subseteq> dom m \<and>
     (\<forall>n b. m n = Some b \<longrightarrow> origin m0 reply n b \<and> (m0 n = None \<longrightarrow> checked H V m0 reply m n b))"

lemma checked_mono: "checked H V m0 reply m n b \<Longrightarrow> dom m \<subseteq> dom m' \<Longrightarrow> checked H V m0 reply m' n b"
  by (fastforce simp: checked_def)

lemma pc_ok_mono: "pc_ok H V m0 reply m pc \<Longrightarrow> dom m \<subseteq> dom m' \<Longrightarrow> pc_ok H V m0 reply m' pc"
  by (cases pc) (auto intro: checked_mono)

lemma stored_ok_update:
  assumes "stored_ok H V m0 reply m" and "m0 n = None" and "reply n x" and "checked H V m0 reply m n x"
  shows "stored_ok H V m0 reply (m(n \<mapsto> x))"
proof -
  have "dom m \<subseteq> dom (m(n \<mapsto> x))" by auto
  note mono = checked_mono [OF _ this]
  from assms mono [of H V m0 reply n x] mono show ?thesis
    by (auto simp: stored_ok_def origin_def)
qed

lemma stored_ok_checked:
  "stored_ok H V m0 reply m \<Longrightarrow> m n = Some b \<Longrightarrow> m0 n = None \<Longrightarrow> checked H V m0 reply m n b"
  by (simp add: stored_ok_def)

lemma stored_ok_start: "stored_ok H V m0 reply m0"
  by (auto simp: stored_ok_def origin_def)

definition delivers :: "(block_fetcher \<Rightarrow> bool) \<Rightarrow> u64 \<Rightarrow> Block \<Rightarrow> bool" where
  "delivers nets n b \<longleftrightarrow> (\<exists>net. nets net \<and> if_FetchBlock net n = Ok (Some b))"

text \<open>A real validator (not the no-op one) accepts a block only with a parent, and one above it.\<close>

lemma validateForSync_Ok:
  assumes "validateForSync H now ops s (Some V) n block = Ok ()" and "rules_of V = Some v"
  obtains b p where "block = Some b" "n \<noteq> 0" "st_GetBlock ops s (n - 1) = Ok p"
    "ValidateBlock H now V (Some b) (Some p) = Ok ()"
proof -
  obtain parent where parent: "storedParent ops s n = Ok parent" "ValidateBlock H now V block parent = Ok ()"
    using assms(1) by (auto simp: validateForSync_def)
  then obtain b p where "block = Some b" "parent = Some p"
    using assms(2) by (cases V) (auto simp: polygon_ValidateBlock_def light_ValidateBlock_def)
  with parent that show thesis
    by (auto simp: storedParent_def word_gt_0 split: if_splits outcome.splits)
qed

context block_store
begin

text \<open>The invariant of a run from a storage holding \<open>m0\<close>, with validator \<open>V\<close>.\<close>

lemma worker_keeps_inv:
  assumes real: "rules_of V = Some v" and deliv: "\<And>n x. delivers nets n x \<Longrightarrow> storable x" and net: "nets net"
    and f: "fs_validator f = Some V" and s: "inv s" and st: "stored_ok H V m0 (delivers nets) (view s)"
    and pc: "pc_ok H V m0 (delivers nets) (view s) pc"
    and step: "workerStep H now net c ops pc f s = Inr (pc', f', s')"
  shows "fs_validator f' = Some V \<and> inv s' \<and> stored_ok H V m0 (delivers nets) (view s') \<and>
    pc_ok H V m0 (delivers nets) (view s') pc' \<and> dom (view s) \<subseteq> dom (view s')"
proof (cases pc)
  case (Checking n)
  have "m0 n = None" if "view s n = None" using st that by (auto simp: stored_ok_def)
  with Checking f s st pc step show ?thesis by (auto simp: has_view split: if_splits)
next
  case (Fetching n)
  with f s st pc step net show ?thesis
    by (auto simp: fetchForSync_def delivers_def split: if_splits outcome.splits)
next
  case (Fetched n b)
  show ?thesis
  proof (cases "validateForSync H now ops s (Some V) n b = Ok ()")
    case True
    then obtain x p where x: "b = Some x" "n \<noteq> 0" "st_GetBlock ops s (n - 1) = Ok p"
      "ValidateBlock H now V (Some x) (Some p) = Ok ()" using real by (rule validateForSync_Ok)
    have p: "view s (n - 1) = Some p" using get_ok_view [OF s x(3)] .
    have num: "block_number p = Some (n - 1)" using view_number [OF s p] .
    then obtain ph where ph: "blk_Header p = Some ph" "hd_Number ph = n - 1" by (auto simp: block_number_def)
    obtain h where "blk_Header x = Some h" "child_ok now v ph h"
      using ValidateBlock_child [OF x(4) real ph(1)] .
    then have "block_number x = Some n" using ph(2) by (simp add: block_number_def child_ok_def)
    moreover have "origin m0 (delivers nets) (n - 1) p" using st p by (simp add: stored_ok_def)
    then have "checked H V m0 (delivers nets) (view s) n x"
      using x p unfolding checked_def by blast
    ultimately show ?thesis using Fetched True x f s st pc step by auto
  next
    case False
    with Fetched f s st pc step show ?thesis by (auto split: outcome.splits)
  qed
next
  case (Validated n b)
  then obtain x where x: "b = Some x" "m0 n = None" "delivers nets n x" "block_number x = Some n"
    "checked H V m0 (delivers nets) (view s) n x" using pc by auto
  have upd: "stored_ok H V m0 (delivers nets) ((view s)(n \<mapsto> x))" using stored_ok_update [OF st x(2,3,5)] .
  obtain r s1 where store: "st_StoreBlock ops s (Some x) = (r, s1)" by fastforce
  note cases = store_ok [OF s deliv [OF x(3)] _ x(4)] store_err [OF s deliv [OF x(3)] _ x(4)]
  have res: "inv s1 \<and> (view s1 = view s \<or> view s1 = (view s)(n \<mapsto> x))" if "r = Ok () \<or> (\<exists>e. r = Err e)"
    using that cases store by auto
  show ?thesis
  proof (cases r)
    case (Panic p)
    with Validated x(1) store step show ?thesis by simp
  qed (use Validated x(1) store step res st upd f in auto)
qed (use assms in \<open>auto split: if_splits\<close>)


lemma run_keeps_inv:
  assumes real: "rules_of V = Some v" and deliv: "\<And>n x. delivers nets n x \<Longrightarrow> storable x"
    and run: "fwd_run H nets ops st0 st" and f: "fs_validator (fw_sync st0) = Some V" and s: "inv (fw_store st0)"
    and idle: "set (fw_workers st0) \<subseteq> {Idle}"
  shows "inv (fw_store st) \<and> stored_ok H V (view (fw_store st0)) (delivers nets) (view (fw_store st))"
proof -
  let ?ok = "\<lambda>st. stored_ok H V (view (fw_store st0)) (delivers nets) (view (fw_store st))"
  let ?pc = "\<lambda>st. pc_ok H V (view (fw_store st0)) (delivers nets) (view (fw_store st))"
  from run have "fs_validator (fw_sync st) = Some V \<and> inv (fw_store st) \<and> ?ok st \<and> (\<forall>pc \<in> set (fw_workers st). ?pc st pc)"
  proof (induction rule: rtranclp_induct)
    case base
    have "\<forall>pc \<in> set (fw_workers st0). pc = Idle" using idle by blast
    with f s show ?case by (auto simp: stored_ok_start)
  next
    case (step st1 st2)
    from step(2,3) show ?case
    proof (cases rule: fwd_step.cases)
      case (fwd_worker i net now pc f1 s1)
      from fwd_worker(3) step(3) have "?pc st1 (fw_workers st1 ! i)" by simp
      with step(3) have K: "fs_validator f1 = Some V \<and> inv s1 \<and>
          stored_ok H V (view (fw_store st0)) (delivers nets) (view s1) \<and>
          pc_ok H V (view (fw_store st0)) (delivers nets) (view s1) pc \<and> dom (view (fw_store st1)) \<subseteq> dom (view s1)"
        by (intro worker_keeps_inv [where nets = nets and net = net, OF real _ fwd_worker(4) _ _ _ _ fwd_worker(5)])
          (simp_all add: deliv)
      have "pc_ok H V (view (fw_store st0)) (delivers nets) (view s1) q" if "q \<in> set ((fw_workers st1)[i := pc])" for q
        using that set_update_subset_insert [of "fw_workers st1" i pc] K step(3)
        by (blast intro: pc_ok_mono)
      with K fwd_worker(1) show ?thesis by simp
    next
      case (fwd_target net f1)
      with step(3) show ?thesis by (auto simp: targetUpdate_def split: if_splits outcome.splits)
    qed (auto simp: fwd_Stop_def)
  qed
  then show ?thesis by simp
qed

end

text \<open>From an empty storage nothing is ever stored: every block needs one below it.\<close>

lemma stored_ok_empty:
  assumes "stored_ok H V Map.empty reply m"
  shows "m = Map.empty"
proof -
  have "m n = None" for n
  proof (induction "unat n" arbitrary: n)
    case 0
    then have "n = 0" by (simp add: unat_eq_zero)
    then have "\<not> checked H V Map.empty reply m n b" for b by (simp add: checked_def)
    then show ?case using stored_ok_checked [OF assms] by (cases "m n") auto
  next
    case (Suc k)
    then have "n \<noteq> 0" by auto
    then have "k = unat (n - 1)" using Suc(2) by (simp add: unat_minus_one)
    from Suc(1) [OF this] have "\<not> checked H V Map.empty reply m n b" for b by (simp add: checked_def)
    then show ?case using stored_ok_checked [OF assms] by (cases "m n") auto
  qed
  then show ?thesis by blast
qed

text \<open>With a fetcher that never delivers two different blocks for a number, the new blocks are linked.\<close>

lemma stored_ok_linked:
  assumes "stored_ok H V m0 reply m" and "\<And>n b b'. reply n b \<Longrightarrow> reply n b' \<Longrightarrow> b = b'"
    and "m n = Some b" and "m0 n = None"
  shows "\<exists>p now. m (n - 1) = Some p \<and> n \<noteq> 0 \<and> ValidateBlock H now V (Some b) (Some p) = Ok ()"
proof -
  have "checked H V m0 reply m n b" using stored_ok_checked [OF assms(1,3,4)] .
  then obtain q p now where "m (n - 1) = Some q" "n \<noteq> 0" "origin m0 reply (n - 1) p"
    "ValidateBlock H now V (Some b) (Some p) = Ok ()" by (auto simp: checked_def)
  moreover from this(1) assms(1) have "origin m0 reply (n - 1) q" by (simp add: stored_ok_def)
  ultimately show ?thesis using assms(2) by (auto simp: origin_def split: option.splits)
qed


section \<open>Idle workers and stopping\<close>

text \<open>A worker that finds the target reached keeps the number it took: the counter moves on by one.\<close>

lemma poll_once:
  assumes "fw_crash st = None" and "\<not> fw_cancelled st" and "i < length (fw_workers st)" and "fw_workers st ! i = Idle"
    and "fs_targetBlock (fw_sync st) \<le> fs_currentBlock (fw_sync st)" and "nets net"
  shows "fwd_run H nets ops st (st\<lparr>fw_sync := (fw_sync st)\<lparr>fs_currentBlock := fs_currentBlock (fw_sync st) + 1\<rparr>\<rparr>)"
proof -
  let ?f = "(fw_sync st)\<lparr>fs_currentBlock := fs_currentBlock (fw_sync st) + 1\<rparr>"
  let ?c = "Claimed (fs_currentBlock (fw_sync st))"
  let ?st1 = "st\<lparr>fw_workers := (fw_workers st)[i := ?c], fw_sync := ?f, fw_store := fw_store st\<rparr>"
  have "fwd_step H nets ops st ?st1"
    by (rule fwd_worker [of st i nets net H 0]) (use assms in simp_all)
  moreover have "fwd_step H nets ops ?st1 (?st1\<lparr>fw_workers := (fw_workers ?st1)[i := Idle], fw_sync := ?f, fw_store := fw_store ?st1\<rparr>)"
    by (rule fwd_worker [of ?st1 i nets net H 0]) (use assms in simp_all)
  moreover have "(fw_workers st)[i := Idle] = fw_workers st" using assms(3,4) by (metis list_update_id)
  ultimately show ?thesis by (simp add: rtranclp.rtrancl_into_rtrancl)
qed

lemma poll_many:
  assumes "fw_crash st = None" and "\<not> fw_cancelled st" and "i < length (fw_workers st)" and "fw_workers st ! i = Idle"
    and "fs_targetBlock (fw_sync st) \<le> fs_currentBlock (fw_sync st)" and "nets net"
    and "unat (fs_currentBlock (fw_sync st)) + k < 2 ^ 64"
  shows "fwd_run H nets ops st (st\<lparr>fw_sync := (fw_sync st)\<lparr>fs_currentBlock := fs_currentBlock (fw_sync st) + of_nat k\<rparr>\<rparr>)"
  using assms(7)
proof (induction k)
  case (Suc k)
  let ?c = "fs_currentBlock (fw_sync st)"
  let ?st = "st\<lparr>fw_sync := (fw_sync st)\<lparr>fs_currentBlock := ?c + of_nat k\<rparr>\<rparr>"
  have "unat (?c + of_nat k) = unat ?c + k" using Suc(2) by (simp add: unat_word_ariths unat_of_nat)
  then have "?c \<le> ?c + of_nat k" by (simp add: word_le_nat_alt)
  with assms(5) have "fs_targetBlock (fw_sync ?st) \<le> fs_currentBlock (fw_sync ?st)" by simp
  from poll_once [of ?st i nets net H ops, OF _ _ _ _ this] assms(1-4,6)
  have "fwd_run H nets ops ?st (st\<lparr>fw_sync := (fw_sync st)\<lparr>fs_currentBlock := ?c + of_nat (Suc k)\<rparr>\<rparr>)"
    by (simp add: ac_simps)
  with Suc show ?case by (auto intro: rtranclp_trans)
qed simp

text \<open>After \<open>Stop\<close> each worker needs at most seven more of its own steps.\<close>

fun steps_left :: "worker_pc \<Rightarrow> nat" where
  "steps_left Stopped = 0"
| "steps_left Idle = 1"
| "steps_left (Failed n) = 2"
| "steps_left (Synced n) = 2"
| "steps_left (Validated n b) = 3"
| "steps_left (Fetched n b) = 4"
| "steps_left (Fetching n) = 5"
| "steps_left (Checking n) = 6"
| "steps_left (Claimed n) = 7"

lemma cancelled_worker_stops:
  "workerStep H now net True ops pc f s = Inr (pc', f', s') \<Longrightarrow> pc \<noteq> Stopped \<Longrightarrow> steps_left pc' < steps_left pc"
  by (cases pc) (auto split: if_splits outcome.splits prod.splits)

section \<open>Properties\<close>


text \<open>The example run: a storage that holds block 5, one worker, and a fetcher that knows every block.\<close>

definition ex_net :: block_fetcher where
  "ex_net = \<lparr>if_FetchBlock = (\<lambda>n. Ok (Some (example_block n))),
     if_FetchBlocks = (\<lambda>a b. Ok (map (\<lambda>n. Some (example_block n)) (u64_loop a b))),
     if_FetchLatestBlockNumber = Ok 100\<rparr>"

definition ex_syncer :: "u64 \<Rightarrow> u64 \<Rightarrow> ForwardSyncer" where
  "ex_syncer current target =
     (NewForwardSyncer \<lparr>fc_Enabled = True, fc_Workers = 1, fc_LookAhead = 0, fc_ValidationLevel = ''full''\<rparr> True
        (Some (Polygon polygon_mainnet)))\<lparr>fs_currentBlock := current, fs_targetBlock := target\<rparr>"

definition one_worker :: "worker_pc \<Rightarrow> ForwardSyncer \<Rightarrow> 's \<Rightarrow> 's fwd_state" where
  "one_worker pc f s = \<lparr>fw_sync = f, fw_store = s, fw_workers = [pc], fw_cancelled = False, fw_crash = None\<rparr>"

lemma one_worker_step:
  assumes "workerStep H now net False ops pc f s = Inr (pc', f', s')" and "nets net"
  shows "fwd_step H nets ops (one_worker pc f s) (one_worker pc' f' s')"
  using fwd_worker [of "one_worker pc f s" 0 nets net H now ops pc' f' s'] assms by (simp add: one_worker_def)

lemma run_worker_run:
  assumes "run_worker H now net ops k pc f s = Inr (pc', f', s')" and "nets net"
  shows "fwd_run H nets ops (one_worker pc f s) (one_worker pc' f' s')"
  using assms(1)
proof (induction k arbitrary: pc f s)
  case (Suc k)
  have "fwd_run H nets ops (one_worker pc f s) (one_worker pc' f' s')"
    if "workerStep H now net False ops pc f s = Inr (pc1, f1, s1)"
      "run_worker H now net ops k pc1 f1 s1 = Inr (pc', f', s')" for pc1 f1 s1
    using one_worker_step [OF that(1), of nets] assms(2) Suc.IH [OF that(2)]
    by (blast intro: converse_rtranclp_into_rtranclp)
  then show ?case using Suc.prems by (cases pc) (auto split: sum.splits)
qed simp

lemma ex_sync_6:
  "syncBlock ex_hash 0 ex_net mem_ops (ex_syncer c t) (mem_store_all [example_block 5]) 6 =
     (Ok (), mem_store_all [example_block 5, example_block 6])"
  using ex_valid_5_6(1) [of 0]
  by (simp add: syncBlock_def mem_ops_def mem_HasBlock_def mem_GetBlock_def fetchForSync_def validateForSync_def
      storedParent_def ex_net_def ex_syncer_def NewForwardSyncer_def mem_store_all_def mem_StoreBlock_def
      mem_putBlock_def NewMemoryStorage_def)


text \<open>
  Forward sync cannot start from an empty storage: with the full or the light validator no
  block is ever stored, in any state of any run, because the first block has no stored parent (and
  the validators dereference the missing parent).
\<close>

theorem forward_sync_cannot_bootstrap:
  assumes "block_store ops view storable good" and "rules_of V = Some v"
    and "fs_validator (fw_sync st0) = Some V" and "good (fw_store st0)" and "set (fw_workers st0) \<subseteq> {Idle}"
    and "\<forall>n b. delivers nets n b \<longrightarrow> storable b"
    and "fwd_run H nets ops st0 st" and "view (fw_store st0) = Map.empty"
  shows "view (fw_store st) = Map.empty \<and>
    (\<forall>now n. fst (syncBlock H now net ops (fw_sync st0) (fw_store st0) n) \<noteq> Ok ())"
proof -
  have run: "good (fw_store st) \<and> stored_ok H V (view (fw_store st0)) (delivers nets) (view (fw_store st))"
    using assms(6) by (intro block_store.run_keeps_inv [where nets = nets, OF assms(1,2) _ assms(7,3,4,5)]) simp
  then have "stored_ok H V Map.empty (delivers nets) (view (fw_store st))" using assms(8) by simp
  then have "view (fw_store st) = Map.empty" by (rule stored_ok_empty)
  moreover have "fst (syncBlock H now net ops (fw_sync st0) (fw_store st0) n) \<noteq> Ok ()" for now n
  proof -
    have "validateForSync H now ops (fw_store st0) (Some V) n b \<noteq> Ok ()" for b
      using block_store.get_ok_view [OF assms(1,4)] assms(8)
      by (metis option.distinct(1) validateForSync_Ok [OF _ assms(2)])
    then show ?thesis
      using block_store.has_view [OF assms(1,4)] assms(3,8)
      by (auto simp: syncBlock_def split: outcome.split prod.split)
  qed
  ultimately show ?thesis by blast
qed

theorem forward_sync_cannot_bootstrap_witness:
  "\<exists>st. fwd_run ex_hash (\<lambda>net. net = ex_net) mem_ops (one_worker Idle (ex_syncer 6 10) NewMemoryStorage) st \<and>
     fw_workers st = [Claimed 6] \<and> mem_view (fw_store st) = Map.empty"
proof -
  let ?nets = "\<lambda>net. net = ex_net"
  let ?init = "one_worker Idle (ex_syncer 6 10) NewMemoryStorage" and ?st = "one_worker (Claimed 6) (ex_syncer 7 10) NewMemoryStorage"
  have "fwd_step ex_hash ?nets mem_ops ?init ?st"
    by (rule one_worker_step [of _ 0 ex_net]) (simp_all add: ex_syncer_def NewForwardSyncer_def)
  then have run: "fwd_run ex_hash ?nets mem_ops ?init ?st" by blast
  have "mem_view (fw_store ?st) = Map.empty \<and>
      (\<forall>now n. fst (syncBlock ex_hash now ex_net mem_ops (fw_sync ?init) (fw_store ?init) n) \<noteq> Ok ())"
    by (rule forward_sync_cannot_bootstrap [where nets = ?nets and V = "Polygon polygon_mainnet" and v = polygon_mainnet,
          OF mem.block_store_axioms _ _ _ _ _ run])
      (auto simp: one_worker_def ex_syncer_def NewForwardSyncer_def delivers_def ex_net_def)
  with run show ?thesis by (auto simp: one_worker_def)
qed

text \<open>
  C21. A worker that finds the target reached has already taken a number and does not give it back.
  After \<open>k\<close> idle polls at the target the counter is \<open>k\<close> ahead; when the target then moves up, the
  worker goes on with the block \<open>k\<close> numbers further, and nothing was fetched or stored for the ones
  it passed over.
\<close>

theorem idle_polling_skips_blocks:
  assumes "fw_crash st = None" and "\<not> fw_cancelled st" and "i < length (fw_workers st)" and "fw_workers st ! i = Idle"
    and "fs_targetBlock (fw_sync st) \<le> fs_currentBlock (fw_sync st)"
    and "unat (fs_currentBlock (fw_sync st)) + k < 2 ^ 64"
    and "nets net" and "fs_hasFetcher (fw_sync st)" and "if_FetchLatestBlockNumber net = Ok target"
  shows "\<exists>st'. fwd_run H nets ops st st' \<and> fw_store st' = fw_store st \<and>
    fw_workers st' = (fw_workers st)[i := Claimed (fs_currentBlock (fw_sync st) + of_nat k)] \<and>
    fs_targetBlock (fw_sync st') = target \<and>
    fs_currentBlock (fw_sync st') = fs_currentBlock (fw_sync st) + of_nat k + 1"
proof -
  let ?c = "fs_currentBlock (fw_sync st) + of_nat k"
  let ?f1 = "(fw_sync st)\<lparr>fs_currentBlock := ?c\<rparr>" and ?f2 = "(fw_sync st)\<lparr>fs_currentBlock := ?c, fs_targetBlock := target, fs_blocksPerSec := 0\<rparr>"
  let ?st1 = "st\<lparr>fw_sync := ?f1\<rparr>" and ?st2 = "st\<lparr>fw_sync := ?f2\<rparr>"
  let ?st3 = "?st2\<lparr>fw_workers := (fw_workers ?st2)[i := Claimed ?c], fw_sync := ?f2\<lparr>fs_currentBlock := ?c + 1\<rparr>, fw_store := fw_store ?st2\<rparr>"
  have "fwd_run H nets ops st ?st1" using poll_many [where nets = nets and net = net, OF assms(1-5,7,6)] .
  moreover have "fwd_step H nets ops ?st1 (?st1\<lparr>fw_sync := ?f2\<rparr>)"
    by (rule fwd_target [of ?st1 nets net]) (use assms in \<open>simp_all add: targetUpdate_def\<close>)
  moreover have "fwd_step H nets ops ?st2 ?st3"
    by (rule fwd_worker [of ?st2 i nets net H 0]) (use assms in simp_all)
  ultimately have "fwd_run H nets ops st ?st3" by (simp add: rtranclp.rtrancl_into_rtrancl)
  moreover have "fw_store ?st3 = fw_store st" "fw_workers ?st3 = (fw_workers st)[i := Claimed ?c]"
    "fs_targetBlock (fw_sync ?st3) = target" "fs_currentBlock (fw_sync ?st3) = ?c + 1" by simp_all
  ultimately show ?thesis by blast
qed

theorem idle_polling_skips_blocks_witness:
  "\<exists>st'. fwd_run ex_hash (\<lambda>net. net = ex_net) mem_ops (one_worker Idle (ex_syncer 10 10) (mem_store_all [example_block 9])) st' \<and>
     fw_workers st' = [Claimed 30] \<and> fs_targetBlock (fw_sync st') = 100"
proof -
  let ?st = "one_worker Idle (ex_syncer 10 10) (mem_store_all [example_block 9])" and ?nets = "\<lambda>net. net = ex_net"
  have "\<exists>st'. fwd_run ex_hash ?nets mem_ops ?st st' \<and> fw_store st' = fw_store ?st \<and>
    fw_workers st' = (fw_workers ?st)[0 := Claimed (fs_currentBlock (fw_sync ?st) + of_nat 20)] \<and>
    fs_targetBlock (fw_sync st') = 100 \<and>
    fs_currentBlock (fw_sync st') = fs_currentBlock (fw_sync ?st) + of_nat 20 + 1"
    by (rule idle_polling_skips_blocks [of _ _ _ ?nets ex_net])
      (simp_all add: one_worker_def ex_syncer_def NewForwardSyncer_def ex_net_def)
  then show ?thesis by (auto simp: one_worker_def ex_syncer_def NewForwardSyncer_def)
qed

end
