(* ===== verification/Backward_Sync.thy ===== *)
theory Backward_Sync
  imports Forward_Sync
begin

text \<open>
  \<open>pkg/sync/backward.go\<close>: the backward syncer fills the gaps below the checkpoint. One turn of a
  worker takes the largest gap, fetches a batch from its upper end, validates the headers in the
  order they arrived and stores the batch. \<open>workerTurn\<close> is one turn without interruption; the
  pauses between turns are not modelled.
\<close>

section \<open>Model\<close>

record BackwardSyncConfig =
  bc_Enabled :: bool
  bc_Workers :: int
  bc_BatchSize :: int
  bc_Throttle :: string
  bc_ValidationLevel :: string

record BackwardSyncStatus =
  bst_DownloadedRanges :: "BlockRange list"
  bst_Progress :: float64
  bst_Syncing :: bool
  bst_BlocksPerSec :: float64
  bst_TotalBlocks :: u64
  bst_DownloadedBlocks :: u64

record BackwardSyncer =
  bs_config :: BackwardSyncConfig
  bs_hasFetcher :: bool
  bs_validator :: "BlockValidator option"
  bs_downloadedBlocks :: u64
  bs_totalBlocks :: u64
  bs_blocksPerSec :: u64
  bs_paused :: bool
  bs_workers :: nat

definition NewBackwardSyncer :: "BackwardSyncConfig \<Rightarrow> bool \<Rightarrow> BlockValidator option \<Rightarrow> BackwardSyncer" where
  "NewBackwardSyncer cfg hasFetcher validator =
     \<lparr>bs_config = cfg, bs_hasFetcher = hasFetcher, bs_validator = validator, bs_downloadedBlocks = 0,
      bs_totalBlocks = 0, bs_blocksPerSec = 0, bs_paused = False, bs_workers = 0\<rparr>"

text \<open>\<open>Start\<close> always succeeds; without a checkpoint the total stays as it is.\<close>

definition bwd_Start :: "Checkpoint option \<Rightarrow> BackwardSyncer \<Rightarrow> BackwardSyncer" where
  "bwd_Start latest b =
     b\<lparr>bs_totalBlocks := (case latest of None \<Rightarrow> bs_totalBlocks b | Some cp \<Rightarrow> cp_BlockNumber cp),
       bs_workers := nat (bc_Workers (bs_config b))\<rparr>"

text \<open>\<open>Stop\<close> cancels the context and waits until every worker has returned.\<close>

definition bwd_Stop :: "BackwardSyncer \<Rightarrow> BackwardSyncer" where
  "bwd_Stop b = b\<lparr>bs_workers := 0\<rparr>"

definition Pause :: "BackwardSyncer \<Rightarrow> BackwardSyncer" where
  "Pause b = b\<lparr>bs_paused := True\<rparr>"

definition Resume :: "BackwardSyncer \<Rightarrow> BackwardSyncer" where
  "Resume b = b\<lparr>bs_paused := False\<rparr>"

definition bwd_GetStatus :: "'s storage_ops \<Rightarrow> BackwardSyncer \<Rightarrow> 's \<Rightarrow> BackwardSyncStatus" where
  "bwd_GetStatus ops b s =
     (let downloaded = bs_downloadedBlocks b; total = bs_totalBlocks b in
      \<lparr>bst_DownloadedRanges = st_GetAvailableRanges ops s,
       bst_Progress = (if total > 0 then percentage (unat downloaded) (unat total) else 0),
       bst_Syncing = (\<not> bs_paused b), bst_BlocksPerSec = f64_of_u64 (bs_blocksPerSec b),
       bst_TotalBlocks = total, bst_DownloadedBlocks = downloaded\<rparr>)"

subsection \<open>A batch\<close>

text \<open>\<open>start := gap.End - batchSize\<close> wraps around when the batch is larger than \<open>gap.End\<close>.\<close>

definition batchRange :: "BackwardSyncConfig \<Rightarrow> BlockRange \<Rightarrow> u64 \<times> u64" where
  "batchRange cfg gap =
     (let batchSize = word_of_int (bc_BatchSize cfg) :: u64;
          start = br_End gap - batchSize;
          start = (if start < br_Start gap then br_Start gap else start) in
      (start, br_End gap))"

text \<open>
  The validation loop: \<open>prev\<close> is the previous block of the batch (\<open>None\<close> for the first one, whose
  parent comes from the storage). The call reads \<open>parent.Header\<close> whatever the validator, and the
  error message \<open>block.Header.Number\<close>. \<open>now i\<close> is the time at the \<open>i\<close>-th call.
\<close>

definition batchParent ::
  "'s storage_ops \<Rightarrow> 's \<Rightarrow> Block option option \<Rightarrow> Block \<Rightarrow> (sync_error, Block option) outcome" where
  "batchParent ops s prev block =
     (case prev of
        Some p \<Rightarrow> Ok p
      | None \<Rightarrow> deref (blk_Header block) (\<lambda>h. storedParent ops s (hd_Number h)))"

fun validateBatch ::
  "hash_env \<Rightarrow> (nat \<Rightarrow> u64) \<Rightarrow> 's storage_ops \<Rightarrow> 's \<Rightarrow> BlockValidator \<Rightarrow> nat \<Rightarrow> Block option option \<Rightarrow>
   Block option list \<Rightarrow> (sync_error, unit) outcome" where
  "validateBatch H now ops s V i prev [] = Ok ()"
| "validateBatch H now ops s V i prev (block # blocks) =
     deref block (\<lambda>b.
     bind_outcome (batchParent ops s prev b) (\<lambda>parent.
     deref parent (\<lambda>p.
     case validator_Header H (now i) V (blk_Header b) (blk_Header p) of
       Panic x \<Rightarrow> Panic x
     | Err e \<Rightarrow> deref (blk_Header b) (\<lambda>h. Err (BatchValidationFailed (hd_Number h) e))
     | Ok _ \<Rightarrow> validateBatch H now ops s V (i + 1) (Some block) blocks)))"

definition syncBatch ::
  "hash_env \<Rightarrow> (nat \<Rightarrow> u64) \<Rightarrow> block_fetcher \<Rightarrow> 's storage_ops \<Rightarrow> BackwardSyncer \<Rightarrow> 's \<Rightarrow> BlockRange \<Rightarrow>
   (sync_error, unit) outcome \<times> BackwardSyncer \<times> 's" where
  "syncBatch H now net ops b s gap =
     (let (start, end) = batchRange (bs_config b) gap in
      if \<not> bs_hasFetcher b then (Err FetcherNotInitialized, b, s)
      else
        (case if_FetchBlocks net start end of
           Err e \<Rightarrow> (Err (BatchFetchFailed start end e), b, s)
         | Panic p \<Rightarrow> (Panic p, b, s)
         | Ok blocks \<Rightarrow>
             (case (case bs_validator b of None \<Rightarrow> Ok () | Some V \<Rightarrow> validateBatch H now ops s V 0 None blocks) of
                Err e \<Rightarrow> (Err e, b, s)
              | Panic p \<Rightarrow> (Panic p, b, s)
              | Ok _ \<Rightarrow>
                  (case st_StoreBlocks ops s blocks of
                     (Err e, s') \<Rightarrow> (Err (BatchStoreFailed start end e), b, s')
                   | (Panic p, s') \<Rightarrow> (Panic p, b, s')
                   | (Ok _, s') \<Rightarrow>
                       (Ok (), b\<lparr>bs_downloadedBlocks := bs_downloadedBlocks b + of_nat (length blocks),
                                 bs_blocksPerSec := bs_blocksPerSec b + of_nat (length blocks)\<rparr>, s')))))"

text \<open>One turn of the worker loop; a panic of \<open>syncBatch\<close> ends the process.\<close>

definition workerTurn ::
  "hash_env \<Rightarrow> (nat \<Rightarrow> u64) \<Rightarrow> block_fetcher \<Rightarrow> 's storage_ops \<Rightarrow> BackwardSyncer \<Rightarrow> 's \<Rightarrow>
   go_panic + (BackwardSyncer \<times> 's)" where
  "workerTurn H now net ops b s =
     (if bs_paused b then Inr (b, s)
      else
        (case st_GetNextGap ops s of
           None \<Rightarrow> Inr (b, s)
         | Some gap \<Rightarrow>
             (case syncBatch H now net ops b s gap of
                (Panic p, b', s') \<Rightarrow> Inl p
              | (_, b', s') \<Rightarrow> Inr (b', s'))))"


section \<open>Validated batches\<close>

lemma validator_Header_child:
  assumes "validator_Header H now V (blk_Header b) (Some ph) = Ok ()" and "rules_of V = Some v"
  obtains h where "blk_Header b = Some h" "header_ok H v h" "child_ok now v ph h"
proof (cases "blk_Header b")
  case None
  with assms show thesis by (cases V) simp_all
next
  case (Some h)
  with assms that show thesis by (cases V) (simp_all add: ValidateBlockHeader_iff)
qed

lemma header_check_Ok:
  "(case c of Panic x \<Rightarrow> Panic x | Err e \<Rightarrow> deref q (\<lambda>h. Err (f h e)) | Ok (_ :: unit) \<Rightarrow> d) = Ok a \<longleftrightarrow>
   c = Ok () \<and> d = Ok a"
  by (cases c) auto

lemma validateBatch_Cons_Ok:
  "validateBatch H now ops s V i prev (block # blocks) = Ok () \<longleftrightarrow>
     (\<exists>b p. block = Some b \<and> batchParent ops s prev b = Ok (Some p) \<and>
        validator_Header H (now i) V (blk_Header b) (blk_Header p) = Ok () \<and>
        validateBatch H now ops s V (i + 1) (Some (Some b)) blocks = Ok ())"
  by (auto simp: header_check_Ok)

lemma validateBatch_chain:
  assumes "validateBatch H now ops s V i (Some (Some p)) blocks = Ok ()" and "rules_of V = Some v"
    and "blk_Header p = Some ph"
  shows "\<exists>bs hs. blocks = map Some bs \<and> map blk_Header bs = map Some hs \<and> header_chain H v ph hs"
  using assms(1,3)
proof (induction blocks arbitrary: i p ph)
  case (Cons block blocks)
  then obtain b where b: "block = Some b" "validator_Header H (now i) V (blk_Header b) (Some ph) = Ok ()"
    "validateBatch H now ops s V (i + 1) (Some (Some b)) blocks = Ok ()"
    unfolding validateBatch_Cons_Ok by (auto simp: batchParent_def)
  obtain h where h: "blk_Header b = Some h" "header_ok H v h" "child_ok (now i) v ph h"
    using validator_Header_child [OF b(2) assms(2)] .
  obtain bs hs where "blocks = map Some bs" "map blk_Header bs = map Some hs" "header_chain H v h hs"
    using Cons.IH [OF b(3) h(1)] by auto
  with b(1) h have "block # blocks = map Some (b # bs)" "map blk_Header (b # bs) = map Some (h # hs)"
    "header_chain H v ph (h # hs)" by auto
  then show ?case by (intro exI [of _ "b # bs"] exI [of _ "h # hs"]) simp
qed simp

text \<open>The first block stands on a stored one, the others on their predecessors.\<close>

lemma validateBatch_Ok:
  assumes "validateBatch H now ops s V i None blocks = Ok ()" and "rules_of V = Some v" and "blocks \<noteq> []"
    and "\<And>n b. st_GetBlock ops s n = Ok b \<Longrightarrow> block_number b = Some n"
  obtains p ph bs hs where "st_GetBlock ops s (hd_Number ph) = Ok p" "blk_Header p = Some ph"
    "blocks = map Some bs" "map blk_Header bs = map Some hs" "header_chain H v ph hs" "hs \<noteq> []"
proof -
  obtain block rest where cons: "blocks = block # rest" using assms(3) by (cases blocks) auto
  obtain b h0 p where b: "block = Some b" "blk_Header b = Some h0" "storedParent ops s (hd_Number h0) = Ok (Some p)"
    "validator_Header H (now i) V (blk_Header b) (blk_Header p) = Ok ()"
    "validateBatch H now ops s V (i + 1) (Some (Some b)) rest = Ok ()"
    using assms(1) unfolding cons validateBatch_Cons_Ok by (auto simp: batchParent_def)
  have get: "st_GetBlock ops s (hd_Number h0 - 1) = Ok p" "hd_Number h0 \<noteq> 0"
    using b(3) by (auto simp: storedParent_def word_gt_0 split: if_splits outcome.splits)
  then obtain ph where ph: "blk_Header p = Some ph" "hd_Number ph = hd_Number h0 - 1"
    using assms(4) by (fastforce simp: block_number_def)
  obtain h where h: "blk_Header b = Some h" "header_ok H v h" "child_ok (now i) v ph h"
    using validator_Header_child [of H "now i" V b ph v] b(4) ph(1) assms(2) by auto
  obtain bs hs where tl: "rest = map Some bs" "map blk_Header bs = map Some hs" "header_chain H v h hs"
    using validateBatch_chain [OF b(5) assms(2) h(1)] by auto
  show thesis
    by (rule that [of ph p "b # bs" "h # hs"]) (use get ph tl h b(1) cons in auto)
qed

lemma u64_loop_single: "x \<noteq> u64_max \<Longrightarrow> u64_loop x (x + 1) = [x]"
proof -
  assume "x \<noteq> u64_max"
  then have "x < x + 1" by (metis linorder_not_le succ_wraps_iff)
  then show ?thesis by (simp add: u64_loop.simps [of x] u64_loop.simps [of "x + 1"])
qed

lemma chain_numbers:
  assumes "header_chain H v ph hs" and "hs \<noteq> []" and "\<forall>h \<in> set hs. hd_Number h \<noteq> u64_max"
  shows "hd_Number ph + 1 < hd_Number (last hs) + 1 \<and>
    map hd_Number hs = u64_loop (hd_Number ph + 1) (hd_Number (last hs) + 1)"
  using assms
proof (induction hs arbitrary: ph)
  case (Cons h hs)
  have num: "hd_Number h = hd_Number ph + 1" and h: "hd_Number h \<noteq> u64_max"
    using Cons.prems by (auto simp: child_ok_def)
  have lt: "hd_Number h < hd_Number h + 1" using h by (metis linorder_not_le succ_wraps_iff)
  show ?case
  proof (cases "hs = []")
    case True
    with num lt u64_loop_single [OF h] show ?thesis by simp
  next
    case False
    with Cons have IH: "hd_Number h + 1 < hd_Number (last hs) + 1"
      "map hd_Number hs = u64_loop (hd_Number h + 1) (hd_Number (last hs) + 1)" by auto
    with lt have "hd_Number h < hd_Number (last hs) + 1" by (rule_tac less_trans)
    with IH False num show ?thesis by (simp add: u64_loop.simps [of "hd_Number ph + 1"])
  qed
qed simp

lemma chain_contiguous:
  assumes "header_chain H v ph hs" and "hs \<noteq> []" and "map blk_Header bs = map Some hs"
    and "\<forall>h \<in> set hs. hd_Number h \<noteq> u64_max"
  shows "contiguous bs (hd_Number ph + 1) (hd_Number (last hs) + 1)"
proof -
  have "map block_number bs = map (map_option hd_Number) (map blk_Header bs)"
    by (simp add: block_number_def comp_def)
  also have "\<dots> = map Some (map hd_Number hs)" by (simp add: assms(3))
  finally show ?thesis using chain_numbers [OF assms(1,2,4)] by (simp add: contiguous_def)
qed


section \<open>Properties\<close>


definition ex_backward :: "int \<Rightarrow> BackwardSyncer" where
  "ex_backward batch =
     NewBackwardSyncer \<lparr>bc_Enabled = True, bc_Workers = 1, bc_BatchSize = batch, bc_Throttle = ''50MB/s'',
       bc_ValidationLevel = ''light''\<rparr> True (Some (Light polygon_mainnet))"

lemma ex_header_5_6:
  "validator_Header ex_hash now (Light polygon_mainnet) (Some (example_header 6)) (Some (example_header 5)) = Ok ()"
  by (simp add: ValidateBlockHeader_def validateHeaderAgainstParent_def validateHeaderHash_def
      polygon_mainnet_def NewPolygonValidator_def DefaultPolygonConfig_def example_header_def
      gasLimitDelta_def maxGasDelta_def to_int64_def Let_def)



text \<open>A block inside a gap of an exact tracker is not stored.\<close>

lemma gap_block_missing:
  assumes "mem_inv s" and "tracker_exact s" and "mem_GetNextGap s = Some gap" and "n \<in> blocks_of gap"
  shows "mem_GetBlock s n = Err (BlockNotFound n)"
proof -
  have gt: "gt_inv (ms_gapTracker s)" using assms(1) by (simp add: mem_inv_def)
  have "n \<in> covered (GetGaps (ms_gapTracker s))"
    using GetNextGap_in assms(3,4) by (auto simp: mem_GetNextGap_def covered_iff)
  then have "n \<notin> available (ms_gapTracker s)" "n < gt_maxBlock (ms_gapTracker s)"
    using GetGaps_props(2) [OF gt] by auto
  moreover from this(2) have "n \<noteq> u64_max" by (metis linorder_not_le le_u64_max)
  ultimately have "n \<notin> map_keys (ms_blocks s)" using assms(2) by (auto simp: tracker_exact_def)
  then show ?thesis by (simp add: mem_GetBlock_def map_keys_def)
qed



text \<open>The batches of the real fetcher: what \<open>FetchBlocks\<close> makes of some arrivals.\<close>

definition real_batches :: "block_fetcher \<Rightarrow> bool" where
  "real_batches net \<longleftrightarrow> (\<forall>start end. \<exists>cancelled rs.
     if_FetchBlocks net start end = bind_outcome (FetchBlocks cancelled rs start end) (\<lambda>bs. Ok (map Some bs)))"

text \<open>
  A gap that ends below the batch size is never filled: the start of the batch wraps around to a
  number above its end, the fetcher rejects the range, and the worker's turn changes nothing. The
  lowest blocks of the chain are therefore never synchronised.
\<close>

theorem backward_low_gap_stuck:
  assumes "st_GetNextGap ops s = Some gap" and "br_Start gap \<le> br_End gap"
    and "br_End gap < word_of_int (bc_BatchSize (bs_config b))" and "real_batches net"
  shows "workerTurn H now net ops b s = Inr (b, s)"
proof -
  define size where "size = (word_of_int (bc_BatchSize (bs_config b)) :: u64)"
  have lt: "br_End gap < br_End gap - size" using assms(3) unfolding size_def [symmetric] by unat_arith
  then have "batchRange (bs_config b) gap = (br_End gap - size, br_End gap)"
    using assms(2) by (auto simp: batchRange_def size_def [symmetric] Let_def)
  moreover obtain cancelled rs where "if_FetchBlocks net (br_End gap - size) (br_End gap) =
      bind_outcome (FetchBlocks cancelled rs (br_End gap - size) (br_End gap)) (\<lambda>bs. Ok (map Some bs))"
    using assms(4) unfolding real_batches_def by blast
  then have "if_FetchBlocks net (br_End gap - size) (br_End gap) = Err (InvalidFetchRange (br_End gap - size) (br_End gap))"
    using FetchBlocks_invalid [OF less_imp_le [OF lt]] by simp
  ultimately show ?thesis using assms(1) by (simp add: workerTurn_def syncBatch_def)
qed

theorem backward_low_gap_stuck_witness:
  "\<exists>net. real_batches net \<and> mem_GetNextGap (mem_store_all [example_block 50]) = Some \<lparr>br_Start = 0, br_End = 50\<rparr> \<and>
     workerTurn ex_hash (\<lambda>_. 0) net mem_ops (ex_backward 100) (mem_store_all [example_block 50]) =
       Inr (ex_backward 100, mem_store_all [example_block 50])"
proof -
  let ?s = "mem_store_all [example_block 50]" and ?b = "ex_backward 100"
  let ?net = "ex_net\<lparr>if_FetchBlocks := \<lambda>a e. bind_outcome
      (FetchBlocks False (map (\<lambda>n. (n, Ok (example_block n))) (u64_loop a e)) a e) (\<lambda>bs. Ok (map Some bs))\<rparr>"
  have gap: "mem_GetNextGap ?s = Some \<lparr>br_Start = 0, br_End = 50\<rparr>"
    by (simp add: mem_store_all_def mem_StoreBlock_def mem_putBlock_def NewMemoryStorage_def mem_GetNextGap_def
        GetNextGap_def GetGaps_def MarkAvailable_def mergeRanges_def NewGapTracker_def)
  have real: "real_batches ?net" by (auto simp: real_batches_def)
  have "workerTurn ex_hash (\<lambda>_. 0) ?net mem_ops ?b ?s = Inr (?b, ?s)"
    by (rule backward_low_gap_stuck [OF _ _ _ real, of _ _ "\<lparr>br_Start = 0, br_End = 50\<rparr>"])
      (simp_all add: gap store_simps ex_backward_def NewBackwardSyncer_def)
  with real gap show ?thesis by blast
qed

end
