(* ===== verification/Sync_Coordinator.thy ===== *)
theory Sync_Coordinator
  imports Backward_Sync Chain_Rules
begin

text \<open>
  \<open>pkg/sync/coordinator.go\<close>: the coordinator builds the two syncers with the validators the
  configuration asks for, starts and stops them, and publishes a status. The state of the running
  forward workers is the \<open>fwd_state\<close> of \<open>Forward_Sync\<close>; \<open>now\<close> is the time of a call.
\<close>

section \<open>Model\<close>

record SyncConfig =
  sc_Forward :: ForwardSyncConfig
  sc_Backward :: BackwardSyncConfig

record SyncStatus =
  ss_ForwardSync :: ForwardSyncStatus
  ss_BackwardSync :: BackwardSyncStatus
  ss_ValidatorReady :: bool
  ss_StartTime :: int
  ss_Uptime :: int

text \<open>The remaining structs of \<open>internal/types\<close>, which no code uses.\<close>

record PeerCaps =
  pc_HistoricalData :: bool
  pc_FullNode :: bool
  pc_ArchiveNode :: bool
  pc_BlockRange :: BlockRange
  pc_ProtocolVersion :: string

record PeerInfo =
  pinf_ID :: string
  pinf_Address :: string
  pinf_Capabilities :: PeerCaps
  pinf_Reputation :: float64
  pinf_Connected :: bool
  pinf_LastSeen :: int

record TypesChainConfig =
  tcc_Name :: string
  tcc_ChainID :: bigint
  tcc_CheckpointSource :: string
  tcc_CheckpointContract :: address
  tcc_ValidatorSetSize :: int
  tcc_BlockTime :: u64

record GapInfo =
  gi_MissingRanges :: "BlockRange list"
  gi_TotalGap :: u64
  gi_LargestGap :: BlockRange

record Coordinator =
  co_config :: SyncConfig
  co_forwardSync :: "ForwardSyncer option"
  co_backwardSync :: "BackwardSyncer option"
  co_status :: SyncStatus
  co_cancelled :: bool

definition zeroStatus :: "int \<Rightarrow> SyncStatus" where
  "zeroStatus now =
     \<lparr>ss_ForwardSync = \<lparr>fst_CurrentBlock = 0, fst_TargetBlock = 0, fst_Progress = 0, fst_Syncing = False,
        fst_BlocksPerSec = 0\<rparr>,
      ss_BackwardSync = \<lparr>bst_DownloadedRanges = [], bst_Progress = 0, bst_Syncing = False,
        bst_BlocksPerSec = 0, bst_TotalBlocks = 0, bst_DownloadedBlocks = 0\<rparr>,
      ss_ValidatorReady = False, ss_StartTime = now, ss_Uptime = 0\<rparr>"

text \<open>The chain id of the latest checkpoint, 137 without one.\<close>

definition syncChainID :: "Checkpoint option \<Rightarrow> bigint" where
  "syncChainID latest =
     (case latest of
        None \<Rightarrow> Some 137
      | Some cp \<Rightarrow> (case cp_ChainID cp of None \<Rightarrow> Some 137 | Some i \<Rightarrow> Some i))"

definition syncValidatorConfig :: "bigint \<Rightarrow> ValidatorConfig" where
  "syncValidatorConfig chainID = \<lparr>vc_ChainID = chainID, vc_MinGasLimit = 5000, vc_MaxGasLimit = 30000000,
     vc_BlockPeriod = 2, vc_SprintSize = 16, vc_StrictTimestamp = False\<rparr>"

definition forwardValidatorFor :: "string \<Rightarrow> bigint \<Rightarrow> BlockValidator" where
  "forwardValidatorFor level chainID =
     (case ParseValidationLevel level of
        ValidationNone \<Rightarrow> NewNoOpValidator
      | ValidationHeader \<Rightarrow> NewLightValidator (Some (syncValidatorConfig chainID))
      | _ \<Rightarrow> Polygon (NewPolygonValidator (Some (syncValidatorConfig chainID))))"

definition backwardValidatorFor :: "string \<Rightarrow> bigint \<Rightarrow> BlockValidator" where
  "backwardValidatorFor level chainID =
     (case ParseValidationLevel level of
        ValidationNone \<Rightarrow> NewNoOpValidator
      | _ \<Rightarrow> NewLightValidator (Some (syncValidatorConfig chainID)))"

definition NewCoordinator :: "SyncConfig \<Rightarrow> Checkpoint option \<Rightarrow> bool \<Rightarrow> int \<Rightarrow> Coordinator" where
  "NewCoordinator cfg latest hasFetcher now =
     (let chainID = syncChainID latest in
      \<lparr>co_config = cfg,
       co_forwardSync = Some (NewForwardSyncer (sc_Forward cfg) hasFetcher
         (Some (forwardValidatorFor (fc_ValidationLevel (sc_Forward cfg)) chainID))),
       co_backwardSync = Some (NewBackwardSyncer (sc_Backward cfg) hasFetcher
         (Some (backwardValidatorFor (bc_ValidationLevel (sc_Backward cfg)) chainID))),
       co_status = zeroStatus now, co_cancelled = False\<rparr>)"

text \<open>
  \<open>Start\<close>: the forward syncer first, and its error stops the start. The result is the coordinator
  and the running forward sync, if it was started.
\<close>

definition coord_Start ::
  "Coordinator \<Rightarrow> Checkpoint option \<Rightarrow> 's \<Rightarrow> (sync_error, Coordinator \<times> 's fwd_state option) outcome" where
  "coord_Start c latest s =
     bind_outcome
       (if fc_Enabled (sc_Forward (co_config c)) then
          deref (co_forwardSync c) (\<lambda>f.
          bind_outcome (wrap_error ForwardStartFailed (fwd_Start latest f s)) (\<lambda>st.
          Ok (c\<lparr>co_forwardSync := Some (fw_sync st)\<rparr>, Some st)))
        else Ok (c, None)) (\<lambda>(c, run).
     if bc_Enabled (sc_Backward (co_config c)) then
       deref (co_backwardSync c) (\<lambda>b. Ok (c\<lparr>co_backwardSync := Some (bwd_Start latest b)\<rparr>, run))
     else Ok (c, run))"

definition coord_Stop :: "Coordinator \<Rightarrow> 's fwd_state option \<Rightarrow> Coordinator \<times> 's fwd_state option" where
  "coord_Stop c run =
     (c\<lparr>co_cancelled := True, co_backwardSync := map_option bwd_Stop (co_backwardSync c)\<rparr>, map_option fwd_Stop run)"

definition coord_GetStatus :: "Coordinator \<Rightarrow> int \<Rightarrow> SyncStatus" where
  "coord_GetStatus c now = (co_status c)\<lparr>ss_Uptime := now - ss_StartTime (co_status c)\<rparr>"

definition validatorReady :: "ForwardSyncStatus \<Rightarrow> bool" where
  "validatorReady fs \<longleftrightarrow>
     fst_Syncing fs \<and> fst_TargetBlock fs - fst_CurrentBlock fs < 10 \<and> fst_Progress fs > 99"

definition IsValidatorReady :: "Coordinator \<Rightarrow> int \<Rightarrow> bool" where
  "IsValidatorReady c now = validatorReady (ss_ForwardSync (coord_GetStatus c now))"

definition PauseBackwardSync :: "Coordinator \<Rightarrow> Coordinator" where
  "PauseBackwardSync c = c\<lparr>co_backwardSync := map_option Pause (co_backwardSync c)\<rparr>"

definition ResumeBackwardSync :: "Coordinator \<Rightarrow> Coordinator" where
  "ResumeBackwardSync c = c\<lparr>co_backwardSync := map_option Resume (co_backwardSync c)\<rparr>"

definition updateStatus :: "'s storage_ops \<Rightarrow> Coordinator \<Rightarrow> 's \<Rightarrow> Coordinator" where
  "updateStatus ops c s =
     (let st = co_status c;
          st = (case co_forwardSync c of None \<Rightarrow> st | Some f \<Rightarrow> st\<lparr>ss_ForwardSync := fwd_GetStatus f\<rparr>);
          st = (case co_backwardSync c of None \<Rightarrow> st | Some b \<Rightarrow> st\<lparr>ss_BackwardSync := bwd_GetStatus ops b s\<rparr>) in
      c\<lparr>co_status := st\<lparr>ss_ValidatorReady := validatorReady (ss_ForwardSync st)\<rparr>\<rparr>)"

section \<open>Readiness\<close>

lemma wrapped_distance:
  assumes "1000 \<le> (t :: u64)"
  shows "t - c < 10 \<longleftrightarrow> c \<le> t \<and> unat t - unat c < 10"
proof (cases "c \<le> t")
  case True
  then show ?thesis by (simp add: word_less_nat_alt unat_diff_u64)
next
  case False
  then have "unat (t - c) = unat t + 2 ^ 64 - unat c" 
    by (simp add: unat_sub_if_size word_le_nat_alt word_size)
  moreover have "1000 \<le> unat t" "unat c < 2 ^ 64"
    using assms unat_less_2p [of c] by (simp_all add: word_le_nat_alt)
  ultimately show ?thesis using False by (simp add: word_less_nat_alt)
qed

lemma status_progress:
  assumes "0 < fs_targetBlock f"
  shows "fst_Progress (fwd_GetStatus f) = min 100 (percentage (unat (fs_currentBlock f)) (unat (fs_targetBlock f)))"
  using assms by (simp add: fwd_GetStatus_def Let_def min_def)

text \<open>The published progress is a percentage.\<close>

lemma forward_progress_range: "0 \<le> fst_Progress (fwd_GetStatus f) \<and> fst_Progress (fwd_GetStatus f) \<le> 100"
  by (simp add: fwd_GetStatus_def Let_def)

text \<open>Pausing and resuming act on the backward syncer only, and undo each other.\<close>

lemma pause_resume:
  "ResumeBackwardSync (PauseBackwardSync c) = ResumeBackwardSync c"
  "co_forwardSync (PauseBackwardSync c) = co_forwardSync c"
  "co_backwardSync c = Some b \<Longrightarrow> workerTurn H now net ops (the (co_backwardSync (PauseBackwardSync c))) s =
     Inr (the (co_backwardSync (PauseBackwardSync c)), s)"
  by (simp_all add: PauseBackwardSync_def ResumeBackwardSync_def Pause_def Resume_def option.map_comp comp_def
      workerTurn_def cong: option.map_cong)

lemma ready_iff_near:
  assumes "co_forwardSync c = Some f" and "1000 \<le> fs_targetBlock f"
  shows "IsValidatorReady (updateStatus ops c s) now \<longleftrightarrow>
      fs_currentBlock f \<le> fs_targetBlock f \<and> unat (fs_targetBlock f) - unat (fs_currentBlock f) < 10"
proof -
  let ?c = "fs_currentBlock f" and ?t = "fs_targetBlock f"
  have t: "1000 \<le> unat ?t" using assms(2) by (simp add: word_le_nat_alt)
  then have pos: "0 < ?t" by (simp add: word_less_nat_alt)
  have prog: "99 < fst_Progress (fwd_GetStatus f)" if "?c \<le> ?t" "unat ?t - unat ?c < 10"
  proof -
    have "991 * unat ?t \<le> 1000 * unat ?c" using that t by (simp add: word_le_nat_alt)
    then show ?thesis using percentage_above_99 [of "unat ?t" "unat ?c"] t status_progress [OF pos] by simp
  qed
  have "IsValidatorReady (updateStatus ops c s) now \<longleftrightarrow> validatorReady (fwd_GetStatus f)"
    using assms(1) by (simp add: IsValidatorReady_def coord_GetStatus_def updateStatus_def Let_def split: option.split)
  also have "\<dots> \<longleftrightarrow> ?t - ?c < 10 \<and> 99 < fst_Progress (fwd_GetStatus f)"
    by (simp add: validatorReady_def fwd_GetStatus_def Let_def)
  also have "\<dots> \<longleftrightarrow> ?c \<le> ?t \<and> unat ?t - unat ?c < 10"
    using prog wrapped_distance [OF assms(2), of ?c] by blast
  finally show ?thesis .
qed


definition ex_coordinator :: "u64 \<Rightarrow> u64 \<Rightarrow> Coordinator" where
  "ex_coordinator current target =
     \<lparr>co_config = \<lparr>sc_Forward = fs_config (ex_syncer current target), sc_Backward = bs_config (ex_backward 100)\<rparr>,
      co_forwardSync = Some (ex_syncer current target), co_backwardSync = Some (ex_backward 100),
      co_status = zeroStatus 0, co_cancelled = False\<rparr>"


section \<open>A fresh node\<close>

lemma forward_validator_real:
  assumes "level \<noteq> ''none''"
  shows "\<exists>v. rules_of (forwardValidatorFor level chainID) = Some v"
  using assms by (simp add: forwardValidatorFor_def ParseValidationLevel_def NewLightValidator_def)

lemma coord_Start_run:
  assumes "coord_Start (NewCoordinator cfg latest hasFetcher now) latest s = Ok (c, Some st)"
    and "fc_Enabled (sc_Forward cfg)"
  shows "fw_store st = s \<and> set (fw_workers st) \<subseteq> {Idle} \<and>
    fs_validator (fw_sync st) = Some (forwardValidatorFor (fc_ValidationLevel (sc_Forward cfg)) (syncChainID latest))"
proof -
  have "fwd_Start latest (NewForwardSyncer (sc_Forward cfg) hasFetcher
      (Some (forwardValidatorFor (fc_ValidationLevel (sc_Forward cfg)) (syncChainID latest)))) s = Ok st"
    using assms by (auto simp: coord_Start_def NewCoordinator_def Let_def split: if_splits)
  then show ?thesis
    by (auto simp: fwd_Start_def NewForwardSyncer_def split: option.splits)
qed

text \<open>
  A node that starts with an empty memory engine, forward sync enabled and any validation
  level but \<open>none\<close> never stores a block by forward sync: the coordinator starts the workers at
  the checkpoint, and no run of them changes the storage.
\<close>

theorem fresh_node_never_syncs:
  assumes "coord_Start (NewCoordinator cfg latest True now) latest NewMemoryStorage = Ok (c, Some st0)"
    and "fc_Enabled (sc_Forward cfg)" and "fc_ValidationLevel (sc_Forward cfg) \<noteq> ''none''"
    and "\<forall>n b. delivers nets n b \<longrightarrow> blk_Header b \<noteq> None" and "fwd_run H nets mem_ops st0 st"
  shows "mem_view (fw_store st) = Map.empty \<and> (\<forall>n. mem_GetBlock (fw_store st) n = Err (BlockNotFound n))"
proof -
  let ?V = "forwardValidatorFor (fc_ValidationLevel (sc_Forward cfg)) (syncChainID latest)"
  obtain v where v: "rules_of ?V = Some v" using forward_validator_real [OF assms(3)] by blast
  have start: "fw_store st0 = NewMemoryStorage" "set (fw_workers st0) \<subseteq> {Idle}" "fs_validator (fw_sync st0) = Some ?V"
    using coord_Start_run [OF assms(1,2)] by simp_all
  have "mem_inv (fw_store st) \<and> stored_ok H ?V (mem_view (fw_store st0)) (delivers nets) (mem_view (fw_store st))"
    using start assms(4) by (intro mem.run_keeps_inv [where nets = nets, OF v _ assms(5)]) simp_all
  then have "stored_ok H ?V Map.empty (delivers nets) (mem_view (fw_store st))" by (simp add: start)
  then have "mem_view (fw_store st) = Map.empty" by (rule stored_ok_empty)
  moreover from this have "map_get (ms_blocks (fw_store st)) n = None" for n by (metis mem_view_def)
  ultimately show ?thesis by (simp add: mem_GetBlock_def)
qed


definition ex_checkpoint :: Checkpoint where
  "ex_checkpoint = \<lparr>cp_BlockNumber = 6, cp_BlockHash = 6, cp_StateRoot = 0, cp_Timestamp = 0,
     cp_ValidatorSigs = [], cp_ChainID = Some 137\<rparr>"

theorem fresh_node_never_syncs_witness:
  "\<exists>c st0. coord_Start (NewCoordinator (co_config (ex_coordinator 0 0)) (Some ex_checkpoint) True 0)
       (Some ex_checkpoint) NewMemoryStorage = Ok (c, Some st0) \<and>
     fs_currentBlock (fw_sync st0) = 6 \<and> mem_GetBlock (fw_store st0) 6 = Err (BlockNotFound 6)"
proof -
  let ?cfg = "co_config (ex_coordinator 0 0)"
  obtain c st0 where start: "coord_Start (NewCoordinator ?cfg (Some ex_checkpoint) True 0)
      (Some ex_checkpoint) NewMemoryStorage = Ok (c, Some st0)" and cur: "fs_currentBlock (fw_sync st0) = 6"
    by (simp add: coord_Start_def NewCoordinator_def Let_def fwd_Start_def NewForwardSyncer_def ex_checkpoint_def
        ex_coordinator_def ex_syncer_def ex_backward_def NewBackwardSyncer_def)
  have "mem_view (fw_store st0) = Map.empty \<and> (\<forall>n. mem_GetBlock (fw_store st0) n = Err (BlockNotFound n))"
    by (rule fresh_node_never_syncs [where nets = "\<lambda>net. net = ex_net" and H = ex_hash, OF start])
      (simp_all add: ex_coordinator_def ex_syncer_def NewForwardSyncer_def delivers_def ex_net_def)
  with start cur show ?thesis by blast
qed

end
