(* ===== verification/Node_Config.thy ===== *)
theory Node_Config
  imports Sync_Coordinator Go_Strings
begin

text \<open>
  \<open>pkg/config/config.go\<close>: the configuration as records with the fields of the source, its defaults and
  its validation; the parts of \<open>pkg/storage/storage.go\<close> and \<open>cmd/hypasis-sync/main.go\<close> that choose
  the storage engine, the checkpoint source and the checkpoint validator from it. Reading files, YAML
  and \<open>common.HexToAddress\<close> are arguments. Durations are integers (nanoseconds).
\<close>

section \<open>Configuration\<close>

record CloudConfig =
  cloud_InstanceID :: string
  cloud_Region :: string

record ClusterConfig =
  clc_Enabled :: bool
  clc_RedisURL :: string
  clc_RedisPassword :: string

record NodeChainConfig =
  ncc_Name :: string
  ncc_Network :: string
  ncc_ChainID :: int

record CheckpointConfig =
  ckc_Source :: string
  ckc_Contract :: string
  ckc_Interval :: u64
  ckc_Timeout :: int
  ckc_L1RPCURL :: string
  ckc_L1ChainID :: int
  ckc_ValidatorRPC :: string

record StorageConfig =
  stc_DataDir :: string
  stc_CacheSize :: string
  stc_WriteBufferSize :: string
  stc_MaxOpenFiles :: int
  stc_HistoricalDepth :: string
  stc_Engine :: string

record P2PConfig =
  p2c_Mode :: string
  p2c_Listen :: string
  p2c_RPCListen :: string
  p2c_UpstreamRPCs :: "string list"
  p2c_RPCTimeout :: int
  p2c_RPCMaxRetries :: int
  p2c_Bootnodes :: "string list"
  p2c_MaxPeers :: int
  p2c_StaticPeers :: "string list"
  p2c_NAT :: bool

record TLSSettings =
  tls_Enabled :: bool
  tls_CertFile :: string
  tls_KeyFile :: string

record AuthConfig =
  auc_Enabled :: bool
  auc_JWTSecret :: string
  auc_TokenTTL :: string

record RESTConfig =
  rst_Enabled :: bool
  rst_Listen :: string
  rst_CORS :: bool
  rst_CORSOrigins :: "string list"
  rst_RateLimit :: int
  rst_TLS :: TLSSettings
  rst_Auth :: AuthConfig

record MetricsConfig =
  met_Enabled :: bool
  met_Listen :: string
  met_Path :: string

record APIConfig =
  apc_REST :: RESTConfig
  apc_Metrics :: MetricsConfig

record LoggingConfig =
  log_Level :: string
  log_Format :: string
  log_Output :: string
  log_File :: string

record Config =
  cfg_Chain :: NodeChainConfig
  cfg_Checkpoint :: CheckpointConfig
  cfg_Sync :: SyncConfig
  cfg_Storage :: StorageConfig
  cfg_P2P :: P2PConfig
  cfg_API :: APIConfig
  cfg_Logging :: LoggingConfig
  cfg_Cloud :: CloudConfig
  cfg_Cluster :: ClusterConfig

definition DefaultConfig :: Config where
  "DefaultConfig =
     \<lparr>cfg_Chain = \<lparr>ncc_Name = ''polygon-pos'', ncc_Network = ''mainnet'', ncc_ChainID = 137\<rparr>,
      cfg_Checkpoint = \<lparr>ckc_Source = ''mock'', ckc_Contract = ''0x86E4Dc95c7FBdBf52e33D563BbDB00823894C287'',
        ckc_Interval = 256, ckc_Timeout = 30 * 1000000000, ckc_L1RPCURL = '''', ckc_L1ChainID = 1, ckc_ValidatorRPC = ''''\<rparr>,
      cfg_Sync = \<lparr>sc_Forward = \<lparr>fc_Enabled = True, fc_Workers = 8, fc_LookAhead = 10, fc_ValidationLevel = ''full''\<rparr>,
        sc_Backward = \<lparr>bc_Enabled = True, bc_Workers = 4, bc_BatchSize = 10000, bc_Throttle = ''50MB/s'',
          bc_ValidationLevel = ''header''\<rparr>\<rparr>,
      cfg_Storage = \<lparr>stc_DataDir = ''/data/hypasis'', stc_CacheSize = ''2GB'', stc_WriteBufferSize = ''256MB'',
        stc_MaxOpenFiles = 1024, stc_HistoricalDepth = ''full'', stc_Engine = ''pebble''\<rparr>,
      cfg_P2P = \<lparr>p2c_Mode = ''rpc-server'', p2c_Listen = ''0.0.0.0:30303'', p2c_RPCListen = ''0.0.0.0:8545'',
        p2c_UpstreamRPCs = [''https://polygon-rpc.com''], p2c_RPCTimeout = 30 * 1000000000, p2c_RPCMaxRetries = 3,
        p2c_Bootnodes = [], p2c_MaxPeers = 50, p2c_StaticPeers = [], p2c_NAT = True\<rparr>,
      cfg_API = \<lparr>apc_REST = \<lparr>rst_Enabled = True, rst_Listen = ''0.0.0.0:8080'', rst_CORS = True, rst_CORSOrigins = [''*''],
          rst_RateLimit = 100,
          rst_TLS = \<lparr>tls_Enabled = False, tls_CertFile = ''/etc/hypasis/tls/cert.pem'', tls_KeyFile = ''/etc/hypasis/tls/key.pem''\<rparr>,
          rst_Auth = \<lparr>auc_Enabled = False, auc_JWTSecret = ''change-this-secret-in-production'', auc_TokenTTL = ''24h''\<rparr>\<rparr>,
        apc_Metrics = \<lparr>met_Enabled = True, met_Listen = ''0.0.0.0:9090'', met_Path = ''/metrics''\<rparr>\<rparr>,
      cfg_Logging = \<lparr>log_Level = ''info'', log_Format = ''json'', log_Output = ''stdout'', log_File = ''''\<rparr>,
      cfg_Cloud = \<lparr>cloud_InstanceID = '''', cloud_Region = ''''\<rparr>,
      cfg_Cluster = \<lparr>clc_Enabled = False, clc_RedisURL = '''', clc_RedisPassword = ''''\<rparr>\<rparr>"

datatype config_error =
    ChainNameRequired
  | ForwardWorkersTooFew
  | BackwardWorkersTooFew
  | DataDirRequired
  | ReadConfigFailed string
  | ParseConfigFailed string
  | InvalidConfig config_error
  | MarshalConfigFailed string
  | WriteConfigFailed string

definition Validate :: "Config \<Rightarrow> (config_error, unit) outcome" where
  "Validate c =
     (if ncc_Name (cfg_Chain c) = '''' then Err ChainNameRequired
      else if fc_Workers (sc_Forward (cfg_Sync c)) < 1 then Err ForwardWorkersTooFew
      else if bc_Workers (sc_Backward (cfg_Sync c)) < 1 then Err BackwardWorkersTooFew
      else if stc_DataDir (cfg_Storage c) = '''' then Err DataDirRequired
      else Ok ())"

text \<open>\<open>unmarshal\<close> is \<open>yaml.Unmarshal\<close>, which overwrites the fields the file mentions.\<close>

definition LoadConfig ::
  "(string \<Rightarrow> (string, bytes) outcome) \<Rightarrow> (bytes \<Rightarrow> Config \<Rightarrow> (string, Config) outcome) \<Rightarrow> string \<Rightarrow>
   (config_error, Config) outcome" where
  "LoadConfig readFile unmarshal path =
     bind_outcome (wrap_error ReadConfigFailed (readFile path)) (\<lambda>data.
     bind_outcome (wrap_error ParseConfigFailed (unmarshal data DefaultConfig)) (\<lambda>config.
     bind_outcome (wrap_error InvalidConfig (Validate config)) (\<lambda>_. Ok config)))"

text \<open>\<open>Save\<close> writes the marshalled configuration; the second result is what is written, if anything.\<close>

definition SaveConfig ::
  "(Config \<Rightarrow> (string, bytes) outcome) \<Rightarrow> (string \<Rightarrow> bytes \<Rightarrow> (string, unit) outcome) \<Rightarrow> Config \<Rightarrow> string \<Rightarrow>
   (config_error, unit) outcome" where
  "SaveConfig marshal writeFile c path =
     bind_outcome (wrap_error MarshalConfigFailed (marshal c)) (\<lambda>data.
     wrap_error WriteConfigFailed (writeFile path data))"

section \<open>Choosing the components\<close>

definition parseSizeString :: "string \<Rightarrow> int \<Rightarrow> int" where
  "parseSizeString s defaultValue =
     (if s = '''' then defaultValue
      else
        (let s = TrimSpace (ToUpper s);
             (value, unit) = (case scanInt s of
                None \<Rightarrow> (0, '''')
              | Some (v, rest) \<Rightarrow> (v, case scanWord rest of None \<Rightarrow> '''' | Some w \<Rightarrow> w)) in
         if unit = ''GB'' \<or> unit = ''G'' then to_int64 (value * 1024 * 1024 * 1024)
         else if unit = ''MB'' \<or> unit = ''M'' then to_int64 (value * 1024 * 1024)
         else if unit = ''KB'' \<or> unit = ''K'' then to_int64 (value * 1024)
         else if unit = ''B'' \<or> unit = '''' then value
         else defaultValue))"

datatype 'd storage_engine = PebbleEngine "'d PebbleStorage" | MemoryEngine MemoryStorage

datatype new_storage_error = StorageConfigIsNil | UnsupportedEngine string | EngineFailed storage_error

definition NewStorage ::
  "('d, 'b) pebble_env \<Rightarrow> StorageConfig option \<Rightarrow> (new_storage_error, 'd storage_engine) outcome" where
  "NewStorage env cfg =
     (case cfg of
        None \<Rightarrow> Err StorageConfigIsNil
      | Some c \<Rightarrow>
          (let engine = ToLower (stc_Engine c) in
           if engine = ''pebble'' \<or> engine = ''pebbledb'' then
             (let opts = \<lparr>opt_CacheSize = parseSizeString (stc_CacheSize c) (2 * 1024 * 1024 * 1024),
                    opt_WriteBufferSize = parseSizeString (stc_WriteBufferSize c) (256 * 1024 * 1024),
                    opt_MaxOpenFiles = stc_MaxOpenFiles c\<rparr>;
                  opts = (if opt_MaxOpenFiles opts = 0 then opts\<lparr>opt_MaxOpenFiles := 1024\<rparr> else opts) in
              bind_outcome (wrap_error EngineFailed (NewPebbleStorage env (stc_DataDir c) (Some opts))) (\<lambda>s.
              Ok (PebbleEngine s)))
           else if engine = ''memory'' then Ok (MemoryEngine NewMemoryStorage)
           else Err (UnsupportedEngine engine)))"

datatype checkpoint_source = L1CheckpointSource L1Source | MockCheckpointSource MockSource

definition newCheckpointSource ::
  "(string \<Rightarrow> string option) \<Rightarrow> (string \<Rightarrow> address) \<Rightarrow> CheckpointConfig \<Rightarrow> int \<Rightarrow> (l1_error, checkpoint_source) outcome" where
  "newCheckpointSource dial hexToAddress cfg chainID =
     (if ckc_Source cfg = ''ethereum-l1'' \<and> ckc_L1RPCURL cfg \<noteq> '''' then
        bind_outcome (NewL1Source dial (ckc_L1RPCURL cfg) (hexToAddress (ckc_Contract cfg)) (of_int chainID))
          (\<lambda>s. Ok (L1CheckpointSource s))
      else Ok (MockCheckpointSource NewMockSource))"

definition newCheckpointValidator :: "CheckpointConfig \<Rightarrow> validator_ops" where
  "newCheckpointValidator cfg =
     (if ckc_Source cfg = ''ethereum-l1'' \<and> ckc_L1RPCURL cfg \<noteq> '''' then NewL1Validator else devValidator)"

text \<open>The configuration the program runs with: \<open>configPath\<close> and \<open>dataDir\<close> are its flags.\<close>

definition nodeConfig ::
  "(string \<Rightarrow> (config_error, Config) outcome) \<Rightarrow> string \<Rightarrow> string \<Rightarrow> (config_error, Config) outcome" where
  "nodeConfig load configPath dataDir =
     bind_outcome
       (if configPath \<noteq> '''' then load configPath
        else Ok (DefaultConfig\<lparr>cfg_Storage := (cfg_Storage DefaultConfig)\<lparr>stc_DataDir := ''./data''\<rparr>\<rparr>)) (\<lambda>cfg.
     Ok (if dataDir \<noteq> '''' then cfg\<lparr>cfg_Storage := (cfg_Storage cfg)\<lparr>stc_DataDir := dataDir\<rparr>\<rparr> else cfg))"

section \<open>Sizes\<close>

lemma TrimSpace_no_space: "\<forall>c \<in> set s. \<not> is_space c \<Longrightarrow> TrimSpace s = s"
proof -
  have drop: "\<forall>c \<in> set t. \<not> is_space c \<Longrightarrow> dropWhile is_space t = t" for t by (cases t) auto
  assume "\<forall>c \<in> set s. \<not> is_space c"
  then show ?thesis using drop [of s] drop [of "rev s"] by (simp add: TrimSpace_def)
qed

lemma ToUpper_decimal [simp]: "ToUpper (decimal n @ u) = decimal n @ ToUpper u"
proof -
  have "map upper_char (decimal n) = decimal n" using decimal_digits [of n] by (auto simp: list_all_iff intro: map_idI)
  then show ?thesis by (simp add: ToUpper_def)
qed

text \<open>A number followed by a unit, with no space between.\<close>

lemma parse_number_unit:
  assumes "int n < 2 ^ 63" and "ToUpper u \<in> {'''', ''B'', ''K'', ''KB'', ''M'', ''MB'', ''G'', ''GB''}"
  shows "scanInt (TrimSpace (ToUpper (decimal n @ u))) = Some (int n, ToUpper u)"
    and "scanWord (ToUpper u) = (if u = '''' then None else Some (ToUpper u))"
proof -
  have "\<not> is_space x" if "x \<in> set (decimal n)" for x
    using that decimal_digits [of n] by (auto simp: list_all_iff is_digit_not_space)
  moreover have "\<not> is_space x" if "x \<in> set (ToUpper u)" for x
    using that assms(2) by (auto simp: is_space_def)
  ultimately have "TrimSpace (decimal n @ ToUpper u) = decimal n @ ToUpper u"
    by (intro TrimSpace_no_space) auto
  moreover have "ToUpper u = [] \<or> \<not> is_digit (hd (ToUpper u))" using assms(2) by (auto simp: is_digit_def)
  ultimately show "scanInt (TrimSpace (ToUpper (decimal n @ u))) = Some (int n, ToUpper u)"
    using scanInt_decimal [OF assms(1)] by simp
  have "u = '''' \<longleftrightarrow> ToUpper u = ''''" by (simp add: ToUpper_def)
  moreover have "scanWord (ToUpper u) = (if ToUpper u = [] then None else Some (ToUpper u))"
  proof -
    have d: "dropWhile is_space (ToUpper u) = ToUpper u" and t: "takeWhile (\<lambda>c. \<not> is_space c) (ToUpper u) = ToUpper u"
      using assms(2) by (auto simp: is_space_def)
    show ?thesis unfolding scanWord_def d t Let_def by (rule refl)
  qed
  ultimately show "scanWord (ToUpper u) = (if u = '''' then None else Some (ToUpper u))" by simp
qed

section \<open>Properties\<close>

text \<open>The units \<open>parseSizeString\<close> knows, as powers of two.\<close>

definition unit_bits :: "string \<Rightarrow> nat option" where
  "unit_bits u = map_of [('''', 0), (''B'', 0), (''K'', 10), (''KB'', 10), (''M'', 20), (''MB'', 20), (''G'', 30), (''GB'', 30)] u"

lemma unit_bits_dom: "unit_bits u = Some k \<Longrightarrow> u \<in> {'''', ''B'', ''K'', ''KB'', ''M'', ''MB'', ''G'', ''GB''}"
  by (auto simp: unit_bits_def split: if_splits)

text \<open>
  A size written as a decimal number and a unit, in either case, is read as the number times the
  unit; the product wraps around at 64 bits, and is exact when it fits.
\<close>

theorem parse_size_exact:
  assumes "int n < 2 ^ 63" and "unit_bits (ToUpper u) = Some k"
  shows "parseSizeString (decimal n @ u) d = to_int64 (int n * 2 ^ k) \<and>
    (int n * 2 ^ k < 2 ^ 63 \<longrightarrow> parseSizeString (decimal n @ u) d = int n * 2 ^ k)"
proof -
  note parts = parse_number_unit [OF assms(1) unit_bits_dom [OF assms(2)]]
  have "u = '''' \<longleftrightarrow> ToUpper u = ''''" by (simp add: ToUpper_def)
  moreover have "to_int64 (int n) = int n" using assms(1) by (intro to_int64_id) simp_all
  ultimately have eq: "parseSizeString (decimal n @ u) d = to_int64 (int n * 2 ^ k)"
    using assms(2) unit_bits_dom [OF assms(2)] parts
    by (auto simp: parseSizeString_def unit_bits_def Let_def mult.commute)
  moreover have "to_int64 (int n * 2 ^ k) = int n * 2 ^ k" if "int n * 2 ^ k < 2 ^ 63"
  proof (rule to_int64_id [OF _ that])
    show "- (2 ^ 63) \<le> int n * 2 ^ k" by (rule order_trans [of _ 0]) simp_all
  qed
  ultimately show ?thesis by simp
qed

theorem parse_size_exact_witness:
  "parseSizeString (decimal 256 @ ''mb'') 0 = 268435456 \<and>
   parseSizeString (decimal 8589934592 @ ''GB'') 7 = - 9223372036854775808"
proof -
  have "unit_bits (ToUpper ''mb'') = Some 20" "unit_bits (ToUpper ''GB'') = Some 30"
    by code_simp+
  then show ?thesis
    using parse_size_exact [of 256 "''mb''" 20 0] parse_size_exact [of 8589934592 "''GB''" 30 7]
    by (simp add: to_int64_def)
qed

text \<open>What cannot be scanned as a number counts as size 0, not as the default.\<close>

lemma unreadable_size_is_zero:
  "s \<noteq> '''' \<Longrightarrow> scanInt (TrimSpace (ToUpper s)) = None \<Longrightarrow> parseSizeString s d = 0"
  by (simp add: parseSizeString_def Let_def)

lemma mock_manager_starts:
  "mgr_Start mock_ops devValidator (NewManager NewMockSource) =
     Some (Ok (), \<lparr>mg_source = NewMockSource, mg_checkpoints = fmupd 100000 (Some (mock_checkpoint 100000)) fmempty,
       mg_latest = Some (mock_checkpoint 100000)\<rparr>)"
  by (simp add: mgr_Start_def updateLatestCheckpoint_def NewManager_def mock_ops_def mock_FetchLatest_def mock_latest_def
      NewMockSource_def generateMockCheckpoints_def devValidator_def dev_Verify_def upt_rec mock_checkpoint_def)

text \<open>
  The checkpoint source and the checkpoint validator belong together: the Ethereum source comes
  with its own validator, everything else is the mock source with the permissive validator. So a
  configuration that asks for \<open>ethereum-l1\<close> without an RPC URL silently gets the mock source, and the
  manager then starts and serves a made-up checkpoint as verified.
\<close>

theorem l1_without_url_trusts_mock:
  "(newCheckpointValidator cfg = NewL1Validator \<or> newCheckpointValidator cfg = devValidator) \<and>
   (ckc_L1RPCURL cfg = '''' \<longrightarrow>
     newCheckpointSource dial hexToAddress cfg chainID = Ok (MockCheckpointSource NewMockSource) \<and>
     (\<exists>m. mgr_Start mock_ops (newCheckpointValidator cfg) (NewManager NewMockSource) = Some (Ok (), m) \<and>
       GetLatest m = Some (mock_checkpoint 100000)))"
  using mock_manager_starts by (simp add: newCheckpointValidator_def newCheckpointSource_def GetLatest_def)

theorem l1_without_url_trusts_mock_witness:
  "\<exists>m. mgr_Start mock_ops (newCheckpointValidator ((cfg_Checkpoint DefaultConfig)\<lparr>ckc_Source := ''ethereum-l1''\<rparr>))
      (NewManager NewMockSource) = Some (Ok (), m) \<and> GetLatest m = Some (mock_checkpoint 100000)"
  using l1_without_url_trusts_mock [of "(cfg_Checkpoint DefaultConfig)\<lparr>ckc_Source := ''ethereum-l1''\<rparr>"]
  by (simp add: DefaultConfig_def)

text \<open>The built-in configuration is valid.\<close>

lemma default_config_valid: "Validate DefaultConfig = Ok ()"
  by (simp add: Validate_def DefaultConfig_def)

end
