(* ===== verification/API_Server.thy ===== *)
theory API_Server
  imports Http_Auth TLS_Setup Node_Config
begin

text \<open>
  \<open>pkg/api/server.go\<close>: the REST server with its middleware, its routes and its handlers. The server
  is one state: the coordinator, the storage and the checkpoint manager it was given, its rate
  limiter, the request log and the two \<open>http.Server\<close>s. The router is \<open>gorilla/mux\<close>, a parameter with
  the contract \<open>mux_contract\<close>; listening on a socket and the Prometheus handler are not modelled.
\<close>

section \<open>Durations\<close>

text \<open>
  \<open>time.ParseDuration\<close> of the standard library, in nanoseconds, on ASCII strings. \<open>leadingFraction\<close>
  stops to accumulate when the fraction no longer fits 63 bits.
\<close>

definition unitNanos :: "string \<rightharpoonup> nat" where
  "unitNanos = [''ns'' \<mapsto> 1, ''us'' \<mapsto> 1000, ''ms'' \<mapsto> 1000000, ''s'' \<mapsto> 1000000000, ''m'' \<mapsto> 60000000000,
     ''h'' \<mapsto> 3600000000000]"

fun leadingFraction :: "nat \<Rightarrow> nat \<Rightarrow> bool \<Rightarrow> string \<Rightarrow> nat \<times> nat" where
  "leadingFraction x scale overflow [] = (x, scale)"
| "leadingFraction x scale overflow (c # cs) =
     (let y = x * 10 + (char_code c - 48) in
      if overflow then leadingFraction x scale True cs
      else if x > (2 ^ 63 - 1) div 10 \<or> y > 2 ^ 63 then leadingFraction x scale True cs
      else leadingFraction y (scale * 10) False cs)"

definition fractionPart :: "string \<Rightarrow> string \<times> string" where
  "fractionPart s = (if s \<noteq> [] \<and> hd s = CHR ''.'' then (takeWhile is_digit (tl s), dropWhile is_digit (tl s)) else ([], s))"

definition durationPart :: "string \<Rightarrow> (nat \<times> string) option" where
  "durationPart s =
     (let ds = takeWhile is_digit s; v = digits_value ds;
          (fs, s) = fractionPart (dropWhile is_digit s);
          (f, scale) = leadingFraction 0 1 False fs;
          u = takeWhile (\<lambda>c. c \<noteq> CHR ''.'' \<and> \<not> is_digit c) s;
          s = dropWhile (\<lambda>c. c \<noteq> CHR ''.'' \<and> \<not> is_digit c) s in
      if v > 2 ^ 63 \<or> ds = [] \<and> fs = [] \<or> u = [] then None
      else (case unitNanos u of
          None \<Rightarrow> None
        | Some unit \<Rightarrow>
            if v > 2 ^ 63 div unit then None
            else
              (let v = v * unit;
                   v = (if f > 0 then v + nat \<lfloor>f64_mult (f64_of_nat f) (f64_div (f64_of_nat unit) (f64_of_nat scale))\<rfloor> else v) in
               if v > 2 ^ 63 then None else Some (v, s))))"

lemma takeWhile_shortens: "takeWhile p xs \<noteq> [] \<Longrightarrow> length (dropWhile p xs) < length xs"
  by (cases xs) (auto simp: less_Suc_eq_le length_dropWhile_le split: if_splits)

lemma durationPart_shorter: "durationPart s = Some (v, t) \<Longrightarrow> length t < length s"
proof -
  assume *: "durationPart s = Some (v, t)"
  let ?p = "\<lambda>c. c \<noteq> CHR ''.'' \<and> \<not> is_digit c"
  obtain fs r where fr: "fractionPart (dropWhile is_digit s) = (fs, r)" by fastforce
  have "length (dropWhile is_digit (tl u)) \<le> length u" for u
    using length_dropWhile_le [of is_digit "tl u"] by simp
  then have "length r \<le> length (dropWhile is_digit s)" using fr by (auto simp: fractionPart_def split: if_splits)
  then have r: "length r \<le> length s" using length_dropWhile_le [of is_digit s] by simp
  have u: "takeWhile ?p r \<noteq> []" "t = dropWhile ?p r"
    using * by (auto simp: durationPart_def fr Let_def split: prod.splits if_splits option.splits)
  show ?thesis using r takeWhile_shortens [OF u(1)] unfolding u(2) by (rule less_le_trans [rotated])
qed

function durationSum :: "nat \<Rightarrow> string \<Rightarrow> nat option" where
  "durationSum d s =
     (if s = [] then Some d
      else (case durationPart s of
          None \<Rightarrow> None
        | Some (v, t) \<Rightarrow>
            (let d = (d + v) mod 2 ^ 64 in if d > 2 ^ 63 then None else durationSum d t)))"
  by pat_completeness auto
termination by (relation "measure (\<lambda>(d, s). length s)") (auto dest: durationPart_shorter)

declare durationSum.simps [simp del]

definition ParseDuration :: "string \<Rightarrow> int option" where
  "ParseDuration s =
     (let (neg, s) = (case s of CHR ''-'' # t \<Rightarrow> (True, t) | CHR ''+'' # t \<Rightarrow> (False, t) | _ \<Rightarrow> (False, s)) in
      if s = ''0'' then Some 0
      else if s = '''' then None
      else (case durationSum 0 s of
          None \<Rightarrow> None
        | Some d \<Rightarrow> if neg then Some (- int d) else if d > 2 ^ 63 - 1 then None else Some (int d)))"

lemma ParseDuration_day: "ParseDuration ''24h'' = Some 86400000000000"
  by (simp add: ParseDuration_def durationSum.simps durationPart_def fractionPart_def unitNanos_def is_digit_def digits_value_def)

lemma ParseDuration_fraction: "ParseDuration ''1.h30m'' = Some 5400000000000"
  by (simp add: ParseDuration_def durationSum.simps durationPart_def fractionPart_def unitNanos_def is_digit_def digits_value_def)

section \<open>The server\<close>

text \<open>
  An \<open>http.Server\<close>: its address, its TLS configuration and whether it listens (in the background; an
  error of \<open>ListenAndServe\<close> is only printed).
\<close>

record 'x http_server =
  hs_Addr :: string
  hs_TLSConfig :: "'x tls_config option"
  hs_listening :: bool

record ('s, 'c, 'b, 'x) Server =
  sv_config :: APIConfig
  sv_coordinator :: Coordinator
  sv_storage :: 's
  sv_checkpoint :: "'c Manager"
  sv_jwtManager :: "JWTManager option"
  sv_rateLimiter :: "'b PerIPRateLimiter option"
  sv_restServer :: "'x http_server option"
  sv_metricsServer :: "'x http_server option"
  sv_log :: "log_entry list"

datatype api_error = InsecureSecret | RESTServerFailed tls_error | MetricsServerFailed string

record tokenRequest =
  tr_UserID :: string
  tr_Roles :: "string list"

text \<open>The bodies of the responses: the values the handlers pass to the JSON encoder.\<close>

datatype api_json =
    StatusJSON SyncStatus
  | GapsJSON "BlockRange list" nat
  | CheckpointsJSON "Checkpoint option multiset" nat "Checkpoint option"
  | TokenJSON string "string list"
  | MessageJSON string
  | ErrorJSON string

text \<open>The body of a request is what the JSON decoder reads from it as a \<open>tokenRequest\<close>, if it can.\<close>

type_synonym api_request = "tokenRequest option http_request"
type_synonym api_response = "api_json http_response"
type_synonym ('s, 'c, 'b, 'x) api_handler = "(('s, 'c, 'b, 'x) Server, tokenRequest option, api_json) handler"

definition insecureJWTSecrets :: "string list" where
  "insecureJWTSecrets = ['''', ''change-this-secret'', ''change-this-secret-in-production'']"

definition tokenLifetime :: "string \<Rightarrow> int" where
  "tokenLifetime s = (case ParseDuration s of None \<Rightarrow> 24 * 3600000000000 | Some ttl \<Rightarrow> if ttl \<le> 0 then 24 * 3600000000000 else ttl)"

definition NewServer :: "APIConfig \<Rightarrow> Coordinator \<Rightarrow> 's \<Rightarrow> 'c Manager \<Rightarrow> ('s, 'c, 'b, 'x) Server" where
  "NewServer cfg coordinator storage checkpointMgr =
     (let rest = apc_REST cfg in
      \<lparr>sv_config = cfg, sv_coordinator = coordinator, sv_storage = storage, sv_checkpoint = checkpointMgr,
       sv_jwtManager =
         (if auc_Enabled (rst_Auth rest) then
            Some (NewJWTManager (auc_JWTSecret (rst_Auth rest)) (tokenLifetime (auc_TokenTTL (rst_Auth rest))) ''hypasis-sync'')
          else None),
       sv_rateLimiter =
         (if rst_RateLimit rest > 0 then Some (NewPerIPRateLimiter (rst_RateLimit rest) (rst_RateLimit rest * 2) (10 * 60000000000))
          else None),
       sv_restServer = None, sv_metricsServer = None, sv_log = []\<rparr>)"

definition respondJSON :: "nat \<Rightarrow> api_json \<Rightarrow> api_response" where
  "respondJSON status data =
     \<lparr>rs_Status = status, rs_Header = [''Content-Type'' \<mapsto> ''application/json''], rs_Body = JSONBody data\<rparr>"

definition respondError :: "nat \<Rightarrow> string \<Rightarrow> api_response" where
  "respondError status message = respondJSON status (ErrorJSON message)"

section \<open>Handlers\<close>

text \<open>
  The nil dereference of \<open>s.jwtManager\<close> in \<open>handleToken\<close> cannot happen: the route exists only with a
  manager, and the handler takes it as an argument. Pausing and resuming the coordinator never return
  an error.
\<close>

definition handleToken :: "jwt_env \<Rightarrow> int \<Rightarrow> JWTManager \<Rightarrow> ('s, 'c, 'b, 'x) api_handler" where
  "handleToken J now m s r =
     ((case rq_Body r of
         None \<Rightarrow> respondError 400 ''invalid request body''
       | Some req \<Rightarrow>
           if tr_UserID req = '''' then respondError 400 ''user_id is required''
           else
             (let roles = (if length (tr_Roles req) = 0 then [RoleReader] else tr_Roles req) in
              (case GenerateToken J now m (tr_UserID req) roles of
                 Ok token \<Rightarrow> respondJSON StatusOK (TokenJSON token roles)
               | _ \<Rightarrow> respondError 500 ''failed to generate token''))), s)"

definition handleStatus :: "int \<Rightarrow> ('s, 'c, 'b, 'x) api_handler" where
  "handleStatus now s r = (respondJSON StatusOK (StatusJSON (coord_GetStatus (sv_coordinator s) now)), s)"

definition handleGaps :: "'s storage_ops \<Rightarrow> ('s, 'c, 'b, 'x) api_handler" where
  "handleGaps ops s r =
     (let gaps = st_GetGaps ops (sv_storage s) in (respondJSON StatusOK (GapsJSON gaps (length gaps)), s))"

definition handleCheckpoints :: "('s, 'c, 'b, 'x) api_handler" where
  "handleCheckpoints s r =
     (let checkpoints = GetAll (sv_checkpoint s) in
      (respondJSON StatusOK (CheckpointsJSON checkpoints (size checkpoints) (GetLatest (sv_checkpoint s))), s))"

definition handlePauseBackwardSync :: "('s, 'c, 'b, 'x) api_handler" where
  "handlePauseBackwardSync s r =
     (respondJSON StatusOK (MessageJSON ''backward sync paused''), s\<lparr>sv_coordinator := PauseBackwardSync (sv_coordinator s)\<rparr>)"

definition handleResumeBackwardSync :: "('s, 'c, 'b, 'x) api_handler" where
  "handleResumeBackwardSync s r =
     (respondJSON StatusOK (MessageJSON ''backward sync resumed''), s\<lparr>sv_coordinator := ResumeBackwardSync (sv_coordinator s)\<rparr>)"

definition handleHealth :: "('s, 'c, 'b, 'x) api_handler" where
  "handleHealth s r = (respondJSON StatusOK (MessageJSON ''healthy''), s)"

section \<open>Routes\<close>

text \<open>A route has a method, a path and a handler with the middleware of its subrouter.\<close>

type_synonym ('s, 'c, 'b, 'x) route = "string \<times> string \<times> ('s, 'c, 'b, 'x) api_handler"

definition routes :: "jwt_env \<Rightarrow> 's storage_ops \<Rightarrow> int \<Rightarrow> JWTManager option \<Rightarrow> ('s, 'c, 'b, 'x) route list" where
  "routes J ops now jwt =
     (let auth = (case jwt of None \<Rightarrow> (\<lambda>h. h) | Some m \<Rightarrow> AuthMiddleware J now m);
          requireWriter = (case jwt of None \<Rightarrow> (\<lambda>h. h) | Some _ \<Rightarrow> RequireRoleMiddleware [RoleAdmin, RoleWriter]) in
      [(''GET'', ''/health'', handleHealth)] @
      (case jwt of None \<Rightarrow> [] | Some m \<Rightarrow> [(''POST'', ''/api/v1/auth/token'', handleToken J now m)]) @
      [(''GET'', ''/api/v1/status'', auth (handleStatus now)),
       (''GET'', ''/api/v1/gaps'', auth (handleGaps ops)),
       (''GET'', ''/api/v1/checkpoints'', auth handleCheckpoints),
       (''POST'', ''/api/v1/sync/pause'', auth (requireWriter handlePauseBackwardSync)),
       (''POST'', ''/api/v1/sync/resume'', auth (requireWriter handleResumeBackwardSync))])"

text \<open>
  The global middleware, outermost first. \<open>setLimiter\<close> and \<open>addLog\<close> are the places of the limiter and
  of the log in the server.
\<close>

definition setLimiter :: "'b PerIPRateLimiter \<Rightarrow> ('s, 'c, 'b, 'x) Server \<Rightarrow> ('s, 'c, 'b, 'x) Server" where
  "setLimiter l s = s\<lparr>sv_rateLimiter := Some l\<rparr>"

definition addLog :: "log_entry \<Rightarrow> ('s, 'c, 'b, 'x) Server \<Rightarrow> ('s, 'c, 'b, 'x) Server" where
  "addLog e s = s\<lparr>sv_log := sv_log s @ [e]\<rparr>"

definition globalMiddleware ::
  "('b, 'e, 'r) rate_ops \<Rightarrow> int \<Rightarrow> RESTConfig \<Rightarrow> bool \<Rightarrow> ('s, 'c, 'b, 'x) api_handler \<Rightarrow> ('s, 'c, 'b, 'x) api_handler" where
  "globalMiddleware R now rest hasLimiter h =
     LoggingMiddleware addLog
       ((if rst_CORS rest then CORSMiddleware (rst_CORSOrigins rest) False else (\<lambda>h. h))
         ((if hasLimiter then PerIPMiddleware R now (\<lambda>s. the (sv_rateLimiter s)) setLimiter else (\<lambda>h. h)) h))"

text \<open>
  The router: a match names a route, anything else is answered with a status of its own (not found,
  method not allowed, redirect). As documented, routes without variables match their exact path and
  method, and middleware runs for a match only.
\<close>

datatype mux_match = Matched nat | Unmatched nat

type_synonym mux = "(string \<times> string) list \<Rightarrow> string \<Rightarrow> string \<Rightarrow> mux_match"

definition serveREST ::
  "mux \<Rightarrow> jwt_env \<Rightarrow> ('b, 'e, 'r) rate_ops \<Rightarrow> 's storage_ops \<Rightarrow> int \<Rightarrow> ('s, 'c, 'b, 'x) api_handler" where
  "serveREST M J R ops now s r =
     (let rs = routes J ops now (sv_jwtManager s) in
      (case M (map (\<lambda>(method, path, h). (method, path)) rs) (rq_Method r) (rq_Path r) of
         Matched i \<Rightarrow>
           globalMiddleware R now (apc_REST (sv_config s)) (sv_rateLimiter s \<noteq> None) (snd (snd (rs ! i))) s r
       | Unmatched status \<Rightarrow> (\<lparr>rs_Status = status, rs_Header = Map.empty, rs_Body = NoBody\<rparr>, s)))"

section \<open>Start and stop\<close>

definition startRESTServer ::
  "('k, 'x) tls_env \<Rightarrow> files \<Rightarrow> ('s, 'c, 'b, 'x) Server \<Rightarrow> (tls_error, unit) outcome \<times> ('s, 'c, 'b, 'x) Server" where
  "startRESTServer E fs s =
     (let rest = apc_REST (sv_config s); srv = \<lparr>hs_Addr = rst_Listen rest, hs_TLSConfig = None, hs_listening = False\<rparr> in
      if tls_Enabled (rst_TLS rest) then
        (case LoadTLSConfig E fs (tls_CertFile (rst_TLS rest)) (tls_KeyFile (rst_TLS rest)) of
           Ok tlsCfg \<Rightarrow> (Ok (), s\<lparr>sv_restServer := Some (srv\<lparr>hs_TLSConfig := Some tlsCfg, hs_listening := True\<rparr>)\<rparr>)
         | Err e \<Rightarrow> (Err e, s\<lparr>sv_restServer := Some srv\<rparr>)
         | Panic p \<Rightarrow> (Panic p, s\<lparr>sv_restServer := Some srv\<rparr>))
      else (Ok (), s\<lparr>sv_restServer := Some (srv\<lparr>hs_listening := True\<rparr>)\<rparr>))"

definition startMetricsServer :: "('s, 'c, 'b, 'x) Server \<Rightarrow> ('s, 'c, 'b, 'x) Server" where
  "startMetricsServer s =
     s\<lparr>sv_metricsServer := Some \<lparr>hs_Addr = met_Listen (apc_Metrics (sv_config s)), hs_TLSConfig = None, hs_listening = True\<rparr>\<rparr>"

definition api_Start ::
  "('k, 'x) tls_env \<Rightarrow> files \<Rightarrow> ('s, 'c, 'b, 'x) Server \<Rightarrow> (api_error, unit) outcome \<times> ('s, 'c, 'b, 'x) Server" where
  "api_Start E fs s =
     (let rest = apc_REST (sv_config s) in
      if auc_Enabled (rst_Auth rest) \<and> list_ex (\<lambda>x. x = auc_JWTSecret (rst_Auth rest)) insecureJWTSecrets then (Err InsecureSecret, s)
      else
        (case (if rst_Enabled rest then startRESTServer E fs s else (Ok (), s)) of
           (Err e, s) \<Rightarrow> (Err (RESTServerFailed e), s)
         | (Panic p, s) \<Rightarrow> (Panic p, s)
         | (Ok _, s) \<Rightarrow> (Ok (), if met_Enabled (apc_Metrics (sv_config s)) then startMetricsServer s else s)))"

definition api_Stop :: "('s, 'c, 'b, 'x) Server \<Rightarrow> ('s, 'c, 'b, 'x) Server" where
  "api_Stop s =
     s\<lparr>sv_restServer := map_option (\<lambda>h. h\<lparr>hs_listening := False\<rparr>) (sv_restServer s),
       sv_metricsServer := map_option (\<lambda>h. h\<lparr>hs_listening := False\<rparr>) (sv_metricsServer s)\<rparr>"

section \<open>Who can change what\<close>

definition mux_contract :: "mux \<Rightarrow> bool" where
  "mux_contract M \<longleftrightarrow>
     (\<forall>rs method path. (case M rs method path of
        Matched i \<Rightarrow> i < length rs \<and> rs ! i = (method, path)
      | Unmatched status \<Rightarrow> (method, path) \<notin> set rs \<and> 300 \<le> status))"

text \<open>The shared components a request could change.\<close>

definition api_core :: "('s, 'c, 'b, 'x) Server \<Rightarrow> Coordinator \<times> 's \<times> 'c Manager" where
  "api_core s = (sv_coordinator s, sv_storage s, sv_checkpoint s)"

lemma api_core_simps [simp]:
  "api_core (setLimiter l s) = api_core s" "api_core (addLog e s) = api_core s"
  by (simp_all add: api_core_def setLimiter_def addLog_def)

lemma limiter_core: "(\<exists>s1. api_core s1 = api_core s \<and> PerIPMiddleware R now g setLimiter h s r = h s1 r) \<or>
    api_core (snd (PerIPMiddleware R now g setLimiter h s r)) = api_core s"
  by (auto simp: PerIPMiddleware_def Let_def split: prod.split intro: api_core_simps)

lemma cors_core: "api_core (snd (CORSMiddleware origins cred h s r)) = api_core (snd (h s r)) \<or>
    api_core (snd (CORSMiddleware origins cred h s r)) = api_core s"
  by (auto simp: CORSMiddleware_def Let_def split: prod.split)

text \<open>The global middleware either stops a request or hands it, unchanged, to the handler.\<close>

lemma middleware_core:
  assumes "api_core (snd (globalMiddleware R now rest b h s r)) \<noteq> api_core s"
  obtains s1 where "api_core s1 = api_core s" and "api_core (snd (globalMiddleware R now rest b h s r)) = api_core (snd (h s1 r))"
proof -
  let ?l = "if b then PerIPMiddleware R now (\<lambda>s. the (sv_rateLimiter s)) setLimiter h else h"
  have "api_core (snd (globalMiddleware R now rest b h s r)) = api_core (snd (?l s r))"
    using assms cors_core [of "rst_CORSOrigins rest" False ?l s r]
    by (auto simp: globalMiddleware_def LoggingMiddleware_def split: prod.splits if_splits)
  moreover have "(\<exists>s1. api_core s1 = api_core s \<and> ?l s r = h s1 r) \<or> api_core (snd (?l s r)) = api_core s"
    using limiter_core [of s R now "\<lambda>s. the (sv_rateLimiter s)" h r] by auto
  ultimately show ?thesis using assms that by metis
qed

lemma mux_match:
  assumes "mux_contract M"
  shows "M rs method path = Matched i \<Longrightarrow> i < length rs \<and> rs ! i = (method, path)"
    and "(method, path) \<notin> set rs \<Longrightarrow> \<exists>st. M rs method path = Unmatched st \<and> 300 \<le> st"
    and "(method, path) \<in> set rs \<Longrightarrow> \<exists>i. M rs method path = Matched i"
proof -
  have c: "case M rs method path of Matched i \<Rightarrow> i < length rs \<and> rs ! i = (method, path)
      | Unmatched status \<Rightarrow> (method, path) \<notin> set rs \<and> 300 \<le> status"
    using assms unfolding mux_contract_def by blast
  then show "M rs method path = Matched i \<Longrightarrow> i < length rs \<and> rs ! i = (method, path)" by simp
  show "(method, path) \<notin> set rs \<Longrightarrow> \<exists>st. M rs method path = Unmatched st \<and> 300 \<le> st"
    using c nth_mem by (cases "M rs method path") fastforce+
  show "(method, path) \<in> set rs \<Longrightarrow> \<exists>i. M rs method path = Matched i"
    using c by (cases "M rs method path") simp_all
qed

lemma routes_handler:
  assumes "mux_contract M" and "M (map (\<lambda>(method, path, h). (method, path)) rs) method path = Matched i"
  shows "(method, path, snd (snd (rs ! i))) \<in> set rs"
proof -
  have i: "i < length rs" "fst (rs ! i) = method" "fst (snd (rs ! i)) = path"
    using mux_match(1) [OF assms] by (auto split: prod.splits)
  then have "rs ! i = (method, path, snd (snd (rs ! i)))" by (simp add: prod_eq_iff)
  then show ?thesis using i(1) nth_mem by metis
qed

text \<open>The handlers that only answer.\<close>

lemma readonly_handlers [simp]:
  "snd (handleToken J now m s r) = s" "snd (handleStatus now s r) = s" "snd (handleGaps ops s r) = s"
  "snd (handleCheckpoints s r) = s" "snd (handleHealth s r) = s"
  by (simp_all add: handleToken_def handleStatus_def handleGaps_def handleCheckpoints_def handleHealth_def Let_def)

lemma write_handlers:
  assumes "api_core s1 = api_core s"
  shows "api_core (snd (handlePauseBackwardSync s1 r)) = (PauseBackwardSync (sv_coordinator s), sv_storage s, sv_checkpoint s)"
    and "api_core (snd (handleResumeBackwardSync s1 r)) = (ResumeBackwardSync (sv_coordinator s), sv_storage s, sv_checkpoint s)"
  using assms by (simp_all add: handlePauseBackwardSync_def handleResumeBackwardSync_def api_core_def)

lemma auth_readonly:
  assumes "\<And>s r. snd (h s r) = s"
  shows "snd (AuthMiddleware J now m h s r) = s"
  using assms by (simp add: AuthMiddleware_def Let_def split: option.split outcome.split)

text \<open>A request that passes the two checks in front of a state-changing handler.\<close>

definition authorized :: "(bytes \<Rightarrow> Claims \<Rightarrow> string \<Rightarrow> bool) \<Rightarrow> int \<Rightarrow> JWTManager \<Rightarrow> 'i http_request \<Rightarrow> bool" where
  "authorized carries now m r \<longleftrightarrow>
     (\<exists>tok c. rq_Header r ''Authorization'' = ''Bearer '' @ tok \<and> carries (jm_secret m) c tok \<and> in_force now c \<and>
        (RoleAdmin \<in> set (ct_Roles c) \<or> RoleWriter \<in> set (ct_Roles c)))"

lemma HasAnyRole_iff: "HasAnyRole c roles \<longleftrightarrow> (\<exists>role \<in> set roles. role \<in> set (ct_Roles c))"
  by (auto simp: list_ex_iff)

lemma write_guard:
  assumes "jwt_contract J carries"
    and "api_core (snd (AuthMiddleware J now m (RequireRoleMiddleware [RoleAdmin, RoleWriter] h) s r)) \<noteq> api_core s"
  shows "authorized carries now m r \<and>
    (\<exists>r'. AuthMiddleware J now m (RequireRoleMiddleware [RoleAdmin, RoleWriter] h) s r = h s r')"
proof -
  let ?h = "RequireRoleMiddleware [RoleAdmin, RoleWriter] h"
  have "snd (AuthMiddleware J now m ?h s r) \<noteq> s" using assms(2) by metis
  then obtain tok c where t: "rq_Header r ''Authorization'' = ''Bearer '' @ tok" "carries (jm_secret m) c tok" "in_force now c"
    "AuthMiddleware J now m ?h s r = ?h s (r\<lparr>rq_Claims := Some c\<rparr>)"
    using AuthMiddleware_cases [OF assms(1), of r m now ?h s] by blast
  have role: "HasAnyRole c [RoleAdmin, RoleWriter]"
    using assms(2) t(4) by (auto simp: RequireRoleMiddleware_def GetClaims_def split: if_splits)
  then have "?h s (r\<lparr>rq_Claims := Some c\<rparr>) = h s (r\<lparr>rq_Claims := Some c\<rparr>)" by (simp add: RequireRoleMiddleware_def GetClaims_def)
  then show ?thesis using t role unfolding authorized_def HasAnyRole_iff by auto
qed

text \<open>
  C28. With authentication on, a request changes the coordinator, the storage or the checkpoint manager
  only if it is a POST to the pause or the resume endpoint with a bearer token that is signed with the
  server's secret, in force, and names the role admin or writer; and what it changes is then exactly
  the pause flag of the backward sync. All other requests, with whatever method, path, headers and
  body, leave the three components as they are.
\<close>

theorem api_changes_are_authorized:
  fixes s :: "('s, 'c, 'b, 'x) Server"
  assumes "mux_contract M" and "jwt_contract J carries" and "sv_jwtManager s = Some m"
    and "api_core (snd (serveREST M J R ops now s r)) \<noteq> api_core s"
  shows "rq_Method r = ''POST'' \<and> authorized carries now m r \<and>
    ((rq_Path r = ''/api/v1/sync/pause'' \<and>
      api_core (snd (serveREST M J R ops now s r)) = (PauseBackwardSync (sv_coordinator s), sv_storage s, sv_checkpoint s)) \<or>
     (rq_Path r = ''/api/v1/sync/resume'' \<and>
      api_core (snd (serveREST M J R ops now s r)) = (ResumeBackwardSync (sv_coordinator s), sv_storage s, sv_checkpoint s)))"
proof -
  define rs where "rs = (routes J ops now (Some m) :: ('s, 'c, 'b, 'x) route list)"
  obtain i where i: "M (map (\<lambda>(method, path, h). (method, path)) rs) (rq_Method r) (rq_Path r) = Matched i"
    using assms(3,4) by (auto simp: serveREST_def rs_def Let_def split: mux_match.splits)
  define h where "h = snd (snd (rs ! i))"
  have rt: "(rq_Method r, rq_Path r, h) \<in> set rs" using routes_handler [OF assms(1) i] by (simp add: h_def)
  have e: "serveREST M J R ops now s r = globalMiddleware R now (apc_REST (sv_config s)) (sv_rateLimiter s \<noteq> None) h s r"
    using assms(3) i by (simp add: serveREST_def rs_def [symmetric] h_def Let_def)
  obtain s1 where s1: "api_core s1 = api_core s" "api_core (snd (serveREST M J R ops now s r)) = api_core (snd (h s1 r))"
    using middleware_core assms(4) unfolding e by metis
  have ch: "api_core (snd (h s1 r)) \<noteq> api_core s1" using s1 assms(4) by simp
  let ?pause = "AuthMiddleware J now m (RequireRoleMiddleware [RoleAdmin, RoleWriter] handlePauseBackwardSync)"
  let ?resume = "AuthMiddleware J now m (RequireRoleMiddleware [RoleAdmin, RoleWriter] handleResumeBackwardSync)"
  have "(rq_Method r, rq_Path r, h) = (''POST'', ''/api/v1/sync/pause'', ?pause) \<or>
      (rq_Method r, rq_Path r, h) = (''POST'', ''/api/v1/sync/resume'', ?resume)"
    using rt ch by (auto simp: rs_def routes_def Let_def auth_readonly)
  then consider (pause) "rq_Method r = ''POST''" "rq_Path r = ''/api/v1/sync/pause''" "h = ?pause"
    | (resume) "rq_Method r = ''POST''" "rq_Path r = ''/api/v1/sync/resume''" "h = ?resume" by blast
  then show ?thesis
  proof cases
    case pause
    obtain r' where "authorized carries now m r" "?pause s1 r = handlePauseBackwardSync s1 r'"
      using write_guard [OF assms(2) ch [unfolded pause(3)]] by blast
    then show ?thesis using pause s1 write_handlers(1) [of s1 s r'] by simp
  next
    case resume
    obtain r' where "authorized carries now m r" "?resume s1 r = handleResumeBackwardSync s1 r'"
      using write_guard [OF assms(2) ch [unfolded resume(3)]] by blast
    then show ?thesis using resume s1 write_handlers(2) [of s1 s r'] by simp
  qed
qed

text \<open>
  No request with the method \<open>OPTIONS\<close> reaches the CORS middleware: every route is registered for
  GET or POST, so a preflight request is answered by the router, without a CORS header, and a browser
  refuses the cross-origin POST it asks about, whatever origins are configured.
\<close>

theorem preflight_never_answered:
  fixes s :: "('s, 'c, 'b, 'x) Server"
  assumes "mux_contract M" and "rq_Method r = ''OPTIONS''"
  shows "300 \<le> rs_Status (fst (serveREST M J R ops now s r)) \<and> rs_Header (fst (serveREST M J R ops now s r)) = Map.empty \<and>
    snd (serveREST M J R ops now s r) = s"
proof -
  let ?rs = "routes J ops now (sv_jwtManager s) :: ('s, 'c, 'b, 'x) route list"
  have no: "(''OPTIONS'', p) \<notin> set (map (\<lambda>(method, path, h). (method, path)) ?rs)" for p
    by (auto simp: routes_def Let_def split: option.splits)
  obtain st where "M (map (\<lambda>(method, path, h). (method, path)) ?rs) ''OPTIONS'' (rq_Path r) = Unmatched st" "300 \<le> st"
    using mux_match(2) [OF assms(1) no] by blast
  then show ?thesis using assms(2) by (simp add: serveREST_def Let_def)
qed

section \<open>The token endpoint\<close>

text \<open>Without a rate limiter a request other than a preflight reaches the handler of its route.\<close>

lemma serveREST_reaches:
  fixes s :: "('s, 'c, 'b, 'x) Server"
  assumes "mux_contract M" and "sv_rateLimiter s = None" and "rq_Method r \<noteq> ''OPTIONS''"
    and "(rq_Method r, rq_Path r, h) \<in> set (routes J ops now (sv_jwtManager s) :: ('s, 'c, 'b, 'x) route list)"
  shows "rs_Body (fst (serveREST M J R ops now s r)) = rs_Body (fst (h s r)) \<and>
    rs_Status (fst (serveREST M J R ops now s r)) = rs_Status (fst (h s r)) \<and>
    snd (serveREST M J R ops now s r) = addLog (rq_Method r, rq_Path r, rs_Status (fst (h s r))) (snd (h s r))"
proof -
  let ?rs = "routes J ops now (sv_jwtManager s) :: ('s, 'c, 'b, 'x) route list"
  let ?f = "\<lambda>(method, path, h). (method, path)"
  have "(rq_Method r, rq_Path r) \<in> set (map ?f ?rs)" using assms(4) by force
  then obtain i where i: "M (map ?f ?rs) (rq_Method r) (rq_Path r) = Matched i" using mux_match(3) [OF assms(1)] by blast
  have "(rq_Method r, rq_Path r, snd (snd (?rs ! i))) \<in> set ?rs" by (rule routes_handler [OF assms(1) i])
  then have "snd (snd (?rs ! i)) = h" using assms(4) by (auto simp: routes_def Let_def split: option.splits)
  then have e: "serveREST M J R ops now s r = globalMiddleware R now (apc_REST (sv_config s)) False h s r"
    using i assms(2) by (simp add: serveREST_def Let_def)
  show ?thesis unfolding e using assms(3)
    by (simp add: globalMiddleware_def LoggingMiddleware_def CORSMiddleware_def Let_def split: prod.split)
qed


section \<open>A server\<close>

definition ex_mux :: mux where
  "ex_mux rs method path =
     (case find (\<lambda>i. rs ! i = (method, path)) [0..<length rs] of Some i \<Rightarrow> Matched i | None \<Rightarrow> Unmatched 404)"

lemma ex_mux_contract: "mux_contract ex_mux"
  unfolding mux_contract_def ex_mux_def
  by (auto simp: find_Some_iff find_None_iff in_set_conv_nth split: option.split)

definition ex_api_config :: APIConfig where
  "ex_api_config =
     (let api = cfg_API DefaultConfig; rest = apc_REST api in
      api\<lparr>apc_REST := rest\<lparr>rst_RateLimit := 0, rst_Auth := (rst_Auth rest)\<lparr>auc_Enabled := True, auc_JWTSecret := ''k7Q''\<rparr>\<rparr>\<rparr>)"

definition ex_server :: "(MemoryStorage, unit, ex_bucket, unit) Server" where
  "ex_server = NewServer ex_api_config (ex_coordinator 0 0) NewMemoryStorage (NewManager ())"

definition ex_api_jwt :: JWTManager where
  "ex_api_jwt = NewJWTManager ''k7Q'' 86400000000000 ''hypasis-sync''"

lemma ex_server_simps [simp]:
  "sv_jwtManager ex_server = Some ex_api_jwt" "sv_rateLimiter ex_server = None" "sv_coordinator ex_server = ex_coordinator 0 0"
  "jm_tokenTTL ex_api_jwt = 86400000000000"
  by (simp_all add: ex_server_def ex_api_jwt_def NewServer_def NewJWTManager_def ex_api_config_def DefaultConfig_def tokenLifetime_def
      ParseDuration_day Let_def)

definition ex_api_request :: "string \<Rightarrow> string \<Rightarrow> tokenRequest option \<Rightarrow> api_request" where
  "ex_api_request path tok body =
     \<lparr>rq_Method = ''POST'', rq_Path = path, rq_Header = (\<lambda>_. '''')(''Authorization'' := ''Bearer '' @ tok),
      rq_RemoteAddr = ''10.0.0.1:5000'', rq_Body = body, rq_Claims = None\<rparr>"

definition ex_api_env :: "string list \<Rightarrow> jwt_env" where
  "ex_api_env roles = ex_jwt (jm_secret ex_api_jwt) (issued_claims 0 ex_api_jwt ''u'' roles)"

lemma ex_pause_changes: "PauseBackwardSync (ex_coordinator 0 0) \<noteq> ex_coordinator 0 0"
  by (simp add: PauseBackwardSync_def ex_coordinator_def ex_backward_def NewBackwardSyncer_def Pause_def)


theorem api_changes_are_authorized_witness:
  "authorized (ex_carries (jm_secret ex_api_jwt) (issued_claims 0 ex_api_jwt ''u'' [RoleWriter])) 0 ex_api_jwt
     (ex_api_request ''/api/v1/sync/pause'' ''t'' None)"
proof -
  let ?J = "ex_jwt (jm_secret ex_api_jwt) (issued_claims 0 ex_api_jwt ''u'' [RoleWriter])"
  let ?r = "ex_api_request ''/api/v1/sync/pause'' ''t'' None"
  let ?pause = "AuthMiddleware ?J 0 ex_api_jwt (RequireRoleMiddleware [RoleAdmin, RoleWriter] handlePauseBackwardSync)"
  have v: "ValidateToken ?J 0 ex_api_jwt ''t'' = Ok (issued_claims 0 ex_api_jwt ''u'' [RoleWriter])"
    using ValidateToken_issued [OF ex_jwt_contract ex_token] by (simp add: in_force_issued)
  have "(rq_Method ?r, rq_Path ?r, ?pause) \<in> set (routes ?J mem_ops 0 (sv_jwtManager ex_server))"
    by (simp add: routes_def ex_api_request_def Let_def)
  from serveREST_reaches [OF ex_mux_contract _ _ this, of ex_rate]
  have "snd (serveREST ex_mux ?J ex_rate mem_ops 0 ex_server ?r) = addLog (rq_Method ?r, rq_Path ?r, rs_Status (fst (?pause ex_server ?r))) (snd (?pause ex_server ?r))"
    by (simp add: ex_api_request_def)
  then have "api_core (snd (serveREST ex_mux ?J ex_rate mem_ops 0 ex_server ?r)) = api_core (snd (?pause ex_server ?r))" by simp
  also have "sv_coordinator (snd (?pause ex_server ?r)) = PauseBackwardSync (ex_coordinator 0 0)"
    using v bearerToken_iff [of "''Bearer t''" "''t''"]
    by (simp add: AuthMiddleware_def RequireRoleMiddleware_def GetClaims_def issued_claims_def ex_api_request_def handlePauseBackwardSync_def Let_def)
  then have "api_core (snd (?pause ex_server ?r)) \<noteq> api_core ex_server" using ex_pause_changes by (simp add: api_core_def)
  finally show ?thesis using api_changes_are_authorized [OF ex_mux_contract ex_jwt_contract] by (meson ex_server_simps(1))
qed

theorem preflight_never_answered_witness:
  "rs_Header (fst (serveREST ex_mux (ex_api_env []) ex_rate mem_ops 0 ex_server
     ((ex_api_request ''/api/v1/sync/pause'' '''' None)\<lparr>rq_Method := ''OPTIONS''\<rparr>))) = Map.empty"
  using preflight_never_answered [OF ex_mux_contract,
      of "(ex_api_request ''/api/v1/sync/pause'' '''' None)\<lparr>rq_Method := ''OPTIONS''\<rparr>" "ex_api_env []" ex_rate mem_ops 0 ex_server]
  by simp

text \<open>The server does not start with authentication on and a placeholder as its secret.\<close>

lemma placeholder_secret_refused:
  assumes "auc_Enabled (rst_Auth (apc_REST cfg))"
    and "auc_JWTSecret (rst_Auth (apc_REST cfg)) \<in> {'''', ''change-this-secret'', ''change-this-secret-in-production''}"
  shows "api_Start E fs (NewServer cfg coordinator storage manager) =
    (Err InsecureSecret, NewServer cfg coordinator storage manager)"
  using assms by (auto simp: api_Start_def NewServer_def insecureJWTSecrets_def Let_def)

end
