(* ===== verification/DevP2P_Server.thy ===== *)
theory DevP2P_Server
  imports Block_Storage Go_Strings
begin

text \<open>
  \<open>pkg/p2p/devp2p_server.go\<close>: the DevP2P bootnode that answers header and body requests of Ethereum
  peers. The networking library (\<open>go-ethereum/p2p\<close>, \<open>enode\<close>, \<open>nat\<close>, \<open>rlp\<close>, \<open>crypto\<close>) is the environment: how a
  payload is decoded, how a message is sent, how a node is parsed and a server started. A message that
  could not be decoded in one format leaves a payload that may be partly consumed to the next attempt,
  as in the code. The messages a peer sends are a list, followed by the error that ends the
  connection. The statistics and connection messages on the console and the server's block
  fetcher, which no handler reads, are left out.
\<close>

section \<open>Model\<close>

record DevP2PConfig =
  dv_ListenAddr :: string
  dv_ExternalIP :: string
  dv_MaxPeers :: int
  dv_NodeKey :: string
  dv_NetworkID :: u64
  dv_Name :: string
  dv_Bootnodes :: "string list"
  dv_StaticPeers :: "string list"
  dv_EnableNAT :: bool

record p2p_peer =
  pr_ID :: hash
  pr_Name :: string
  pr_RemoteAddr :: string

record peerConnection =
  pn_peer :: p2p_peer
  pn_connected :: int
  pn_reqCount :: u64
  pn_lastReq :: "int option"

text \<open>The fields of \<open>p2p.Config\<close> that the code sets, with nodes of type \<open>'n\<close> and keys of type \<open>'k\<close>.\<close>

record ('n, 'k) p2p_config =
  sg_PrivateKey :: 'k
  sg_MaxPeers :: int
  sg_Name :: string
  sg_BootstrapNodes :: "'n list"
  sg_StaticNodes :: "'n list"
  sg_ListenAddr :: string
  sg_NAT :: bool
  sg_Protocols :: "(string \<times> nat \<times> nat) list"

text \<open>The local node's record: address and ports.\<close>

record local_node =
  ln_IP :: string
  ln_TCP :: int
  ln_UDP :: int

record ('s, 'n, 'k) DevP2PServer =
  ds_config :: DevP2PConfig
  ds_storage :: 's
  ds_nodeKey :: 'k
  ds_server :: "('n, 'k) p2p_config option"
  ds_localNode :: "local_node option"
  ds_connections :: "(hash, peerConnection) fmap"
  ds_cancelled :: bool

datatype p2p_error =
    LoadNodeKeyFailed string
  | GenerateNodeKeyFailed string
  | OpenNodeDBFailed string
  | InvalidListenAddress string
  | StartP2PFailed string
  | SendStatusFailed p2p_error
  | SendFailed string
  | DecodeFailed string
  | ReadMsgFailed string

subsection \<open>Messages\<close>

record headers_request =
  hq_ReqID :: u64
  hq_Origin :: u64
  hq_Amount :: u64
  hq_Skip :: u64
  hq_Reverse :: bool

record p2p_status =
  zs_protocolVersion :: nat
  zs_networkId :: u64
  zs_td :: u64
  zs_bestHash :: hash
  zs_genesisHash :: hash
  zs_head :: u64
  zs_min :: u64

text \<open>
  The Go values passed to \<open>p2p.Send\<close>: the status is a \<open>map[string]interface{}\<close>, a reply to a header request
  a struct of an identifier and a list of headers, a reply to a body request a struct of an identifier
  and a list of \<open>map[string]interface{}\<close> (the transactions; uncles are empty).
\<close>

datatype send_data =
    StatusMap p2p_status
  | HeadersReply u64 "Header list"
  | BodiesReply u64 "Transaction option list list"
  | EmptyReply

text \<open>
  Decoders return the value or an error, and the payload that is left. The full format has the
  origin as a hash and a number, of which the code uses the number.
\<close>

record ('p, 'w) p2p_env =
  pe_Status :: "'p \<Rightarrow> (string, unit) outcome \<times> 'p"
  pe_Headers66 :: "'p \<Rightarrow> (string, headers_request) outcome \<times> 'p"
  pe_HeadersFull :: "'p \<Rightarrow> (string, headers_request) outcome \<times> 'p"
  pe_HeadersSimple :: "'p \<Rightarrow> (string, headers_request) outcome \<times> 'p"
  pe_Bodies66 :: "'p \<Rightarrow> (string, u64 \<times> hash list) outcome \<times> 'p"
  pe_RawHashes :: "'p \<Rightarrow> (string, bytes list) outcome \<times> 'p"
  pe_Send :: "'w \<Rightarrow> nat \<Rightarrow> send_data \<Rightarrow> string option \<times> 'w"

record 'p p2p_msg =
  mg_Code :: nat
  mg_Payload :: 'p

definition send :: "('p, 'w) p2p_env \<Rightarrow> 'w \<Rightarrow> nat \<Rightarrow> send_data \<Rightarrow> (p2p_error, unit) outcome \<times> 'w" where
  "send E w msgCode data = (case pe_Send E w msgCode data of (None, w) \<Rightarrow> (Ok (), w) | (Some e, w) \<Rightarrow> (Err (SendFailed e), w))"

subsection \<open>Handlers\<close>

text \<open>\<open>err == nil && block != nil\<close>: the head hash is the hash of the block at the maximum, or zero.\<close>

definition headHash :: "'s storage_ops \<Rightarrow> 's \<Rightarrow> u64 \<Rightarrow> (p2p_error, hash) outcome" where
  "headHash ops s maxBlock =
     (case st_GetBlock ops s maxBlock of
        Ok block \<Rightarrow> deref (blk_Header block) (\<lambda>h. Ok (hd_Hash h))
      | Err e \<Rightarrow> Ok 0
      | Panic p \<Rightarrow> Panic p)"

definition sendStatus ::
  "('p, 'w) p2p_env \<Rightarrow> 's storage_ops \<Rightarrow> DevP2PConfig \<Rightarrow> 's \<Rightarrow> 'w \<Rightarrow> (p2p_error, unit) outcome \<times> 'w" where
  "sendStatus E ops cfg s w =
     (case bind_outcome (wrap_error (\<lambda>_. SendFailed '''') (st_GetMaxBlock ops s)) (\<lambda>maxBlock.
           bind_outcome (wrap_error (\<lambda>_. SendFailed '''') (st_GetMinBlock ops s)) (\<lambda>minBlock.
           bind_outcome (headHash ops s maxBlock) (\<lambda>hash.
           Ok \<lparr>zs_protocolVersion = 66, zs_networkId = dv_NetworkID cfg, zs_td = 0, zs_bestHash = hash,
               zs_genesisHash = 0, zs_head = maxBlock, zs_min = minBlock\<rparr>))) of
        Ok status \<Rightarrow> send E w 0x00 (StatusMap status)
      | Err e \<Rightarrow> (Err e, w)
      | Panic p \<Rightarrow> (Panic p, w))"

text \<open>The three formats of a header request, tried in turn. A request in the simple format has the identifier 0.\<close>

definition decodeHeaders :: "('p, 'w) p2p_env \<Rightarrow> 'p \<Rightarrow> (p2p_error, headers_request) outcome" where
  "decodeHeaders E payload =
     (case pe_Headers66 E payload of
        (Ok req, _) \<Rightarrow> Ok req
      | (Panic p, _) \<Rightarrow> Panic p
      | (Err _, payload) \<Rightarrow>
          (case pe_HeadersFull E payload of
             (Ok req, _) \<Rightarrow> Ok req
           | (Panic p, _) \<Rightarrow> Panic p
           | (Err _, payload) \<Rightarrow>
               bind_outcome (wrap_error DecodeFailed (fst (pe_HeadersSimple E payload))) (\<lambda>req. Ok (req\<lparr>hq_ReqID := 0\<rparr>))))"

text \<open>The loop over the block numbers: \<open>left\<close> iterations remain. It stops at the first error.\<close>

fun collectHeaders :: "'s storage_ops \<Rightarrow> 's \<Rightarrow> u64 \<Rightarrow> u64 \<Rightarrow> u64 \<Rightarrow> nat \<Rightarrow> ('e, Header list) outcome" where
  "collectHeaders ops s originNum skip i 0 = Ok []"
| "collectHeaders ops s originNum skip i (Suc left) =
     (case st_GetBlock ops s (originNum + i * skip) of
        Err e \<Rightarrow> Ok []
      | Panic p \<Rightarrow> Panic p
      | Ok block \<Rightarrow>
          bind_outcome (collectHeaders ops s originNum skip (i + 1) left) (\<lambda>headers.
          Ok (case blk_Header block of None \<Rightarrow> headers | Some h \<Rightarrow> h # headers)))"

definition headersFor :: "'s storage_ops \<Rightarrow> 's \<Rightarrow> headers_request \<Rightarrow> ('e, Header list) outcome" where
  "headersFor ops s req =
     (let skip = (if hq_Skip req = 0 then 1 else hq_Skip req) in
      collectHeaders ops s (hq_Origin req) skip 0 (min (unat (hq_Amount req)) 192))"

definition handleGetBlockHeaders ::
  "('p, 'w) p2p_env \<Rightarrow> 's storage_ops \<Rightarrow> 's \<Rightarrow> 'w \<Rightarrow> 'p \<Rightarrow> (p2p_error, unit) outcome \<times> 'w" where
  "handleGetBlockHeaders E ops s w payload =
     (case bind_outcome (decodeHeaders E payload) (\<lambda>req. bind_outcome (headersFor ops s req) (\<lambda>headers. Ok (hq_ReqID req, headers))) of
        Ok (reqID, headers) \<Rightarrow> send E w 0x04 (HeadersReply reqID headers)
      | Err e \<Rightarrow> (Err e, w)
      | Panic p \<Rightarrow> (Panic p, w))"

definition decodeBodies :: "('p, 'w) p2p_env \<Rightarrow> 'p \<Rightarrow> (p2p_error, u64 \<times> hash list) outcome" where
  "decodeBodies E payload =
     (case pe_Bodies66 E payload of
        (Ok req, _) \<Rightarrow> Ok req
      | (Panic p, _) \<Rightarrow> Panic p
      | (Err _, payload) \<Rightarrow>
          bind_outcome (wrap_error DecodeFailed (fst (pe_RawHashes E payload))) (\<lambda>rawHashes.
          Ok (0, map BytesToHash (filter (\<lambda>h. length h = 32) rawHashes))))"

text \<open>The loop over the hashes, \<open>n\<close> being the number of bodies collected so far.\<close>

fun collectBodies :: "'s storage_ops \<Rightarrow> 's \<Rightarrow> nat \<Rightarrow> hash list \<Rightarrow> ('e, Transaction option list list) outcome" where
  "collectBodies ops s n [] = Ok []"
| "collectBodies ops s n (h # hs) =
     (case st_GetBlockByHash ops s h of
        Err e \<Rightarrow> collectBodies ops s n hs
      | Panic p \<Rightarrow> Panic p
      | Ok block \<Rightarrow>
          bind_outcome (if n + 1 \<ge> 128 then Ok [] else collectBodies ops s (n + 1) hs) (\<lambda>bodies.
          Ok (blk_Transactions block # bodies)))"

definition handleGetBlockBodies ::
  "('p, 'w) p2p_env \<Rightarrow> 's storage_ops \<Rightarrow> 's \<Rightarrow> 'w \<Rightarrow> 'p \<Rightarrow> (p2p_error, unit) outcome \<times> 'w" where
  "handleGetBlockBodies E ops s w payload =
     (case bind_outcome (decodeBodies E payload) (\<lambda>(reqID, hashes).
           bind_outcome (collectBodies ops s 0 hashes) (\<lambda>bodies. Ok (reqID, bodies))) of
        Ok (reqID, bodies) \<Rightarrow> send E w 0x06 (BodiesReply reqID bodies)
      | Err e \<Rightarrow> (Err e, w)
      | Panic p \<Rightarrow> (Panic p, w))"

definition handleMessage ::
  "('p, 'w) p2p_env \<Rightarrow> 's storage_ops \<Rightarrow> 's \<Rightarrow> 'w \<Rightarrow> 'p p2p_msg \<Rightarrow> (p2p_error, unit) outcome \<times> 'w" where
  "handleMessage E ops s w msg =
     (if mg_Code msg = 0x00 then (wrap_error DecodeFailed (fst (pe_Status E (mg_Payload msg))), w)
      else if mg_Code msg = 0x03 then handleGetBlockHeaders E ops s w (mg_Payload msg)
      else if mg_Code msg = 0x05 then handleGetBlockBodies E ops s w (mg_Payload msg)
      else if mg_Code msg = 0x0d then send E w 0x0e EmptyReply
      else (Ok (), w))"

subsection \<open>Connections\<close>

definition updateConnection ::
  "(peerConnection \<Rightarrow> peerConnection) \<Rightarrow> hash \<Rightarrow> ('s, 'n, 'k) DevP2PServer \<Rightarrow> ('s, 'n, 'k) DevP2PServer" where
  "updateConnection f i ds =
     (case fmlookup (ds_connections ds) i of
        None \<Rightarrow> ds
      | Some conn \<Rightarrow> ds\<lparr>ds_connections := fmupd i (f conn) (ds_connections ds)\<rparr>)"

text \<open>The loop of \<open>handlePeer\<close>: the peer's messages with the times they are read, then the error that ends it.\<close>

fun peerLoop ::
  "('p, 'w) p2p_env \<Rightarrow> 's storage_ops \<Rightarrow> string \<Rightarrow> p2p_peer \<Rightarrow> (int \<times> 'p p2p_msg) list \<Rightarrow> ('s, 'n, 'k) DevP2PServer \<Rightarrow> 'w \<Rightarrow>
   (p2p_error, unit) outcome \<times> ('s, 'n, 'k) DevP2PServer \<times> 'w" where
  "peerLoop E ops readErr peer [] ds w = (Err (ReadMsgFailed readErr), ds, w)"
| "peerLoop E ops readErr peer ((now, msg) # msgs) ds w =
     (let ds = updateConnection (\<lambda>conn. conn\<lparr>pn_reqCount := pn_reqCount conn + 1, pn_lastReq := Some now\<rparr>) (pr_ID peer) ds in
      (case handleMessage E ops (ds_storage ds) w msg of
         (Ok _, w) \<Rightarrow> peerLoop E ops readErr peer msgs ds w
       | (Err e, w) \<Rightarrow> (Err e, ds, w)
       | (Panic p, w) \<Rightarrow> (Panic p, ds, w)))"

definition handlePeer ::
  "('p, 'w) p2p_env \<Rightarrow> 's storage_ops \<Rightarrow> int \<Rightarrow> string \<Rightarrow> p2p_peer \<Rightarrow> (int \<times> 'p p2p_msg) list \<Rightarrow> ('s, 'n, 'k) DevP2PServer \<Rightarrow> 'w \<Rightarrow>
   (p2p_error, unit) outcome \<times> ('s, 'n, 'k) DevP2PServer \<times> 'w" where
  "handlePeer E ops now readErr peer msgs ds w =
     (let conn = \<lparr>pn_peer = peer, pn_connected = now, pn_reqCount = 0, pn_lastReq = None\<rparr>;
          ds = ds\<lparr>ds_connections := fmupd (pr_ID peer) conn (ds_connections ds)\<rparr>;
          (r, ds, w) = (case sendStatus E ops (ds_config ds) (ds_storage ds) w of
              (Err e, w) \<Rightarrow> (Err (SendStatusFailed e), ds, w)
            | (Panic p, w) \<Rightarrow> (Panic p, ds, w)
            | (Ok _, w) \<Rightarrow> peerLoop E ops readErr peer msgs ds w) in
      (r, ds\<lparr>ds_connections := fmdrop (pr_ID peer) (ds_connections ds)\<rparr>, w))"

definition GetPeerCount :: "('s, 'n, 'k) DevP2PServer \<Rightarrow> nat" where
  "GetPeerCount ds = fcard (fmdom (ds_connections ds))"

record connected_peer =
  cd_id :: hash
  cd_name :: string
  cd_addr :: string
  cd_connected :: int
  cd_requests :: u64

text \<open>\<open>ids\<close> is the order of the iteration over the map; times are in seconds.\<close>

definition GetConnectedPeers :: "hash list \<Rightarrow> ('s, 'n, 'k) DevP2PServer \<Rightarrow> connected_peer list" where
  "GetConnectedPeers ids ds =
     List.map_filter (\<lambda>i. map_option (\<lambda>conn. \<lparr>cd_id = i, cd_name = pr_Name (pn_peer conn), cd_addr = pr_RemoteAddr (pn_peer conn),
       cd_connected = pn_connected conn div 1000000000, cd_requests = pn_reqCount conn\<rparr>) (fmlookup (ds_connections ds) i)) ids"

text \<open>The protocol of \<open>makeProtocols\<close>: name, version and number of messages; and its two information functions.\<close>

definition makeProtocols :: "(string \<times> nat \<times> nat) list" where
  "makeProtocols = [(''eth'', 66, 17)]"

definition protocolNodeInfo :: "DevP2PConfig \<Rightarrow> u64 \<times> string \<times> string" where
  "protocolNodeInfo cfg = (dv_NetworkID cfg, dv_Name cfg, ''hypasis/v1.0.0'')"

definition protocolPeerInfo :: "('s, 'n, 'k) DevP2PServer \<Rightarrow> hash \<Rightarrow> (int \<times> u64) option" where
  "protocolPeerInfo ds i =
     map_option (\<lambda>conn. (pn_connected conn div 1000000000, pn_reqCount conn)) (fmlookup (ds_connections ds) i)"

subsection \<open>Start and stop\<close>

text \<open>
  The environment of the server's life: keys, the node database, addresses, nodes and the P2P server
  itself. \<open>ne_ExternalIP\<close> is the answer of the NAT device.
\<close>

record ('n, 'k) node_env =
  ne_LoadECDSA :: "string \<Rightarrow> (string, 'k) outcome"
  ne_GenerateKey :: "(string, 'k) outcome"
  ne_OpenDB :: "(string, unit) outcome"
  ne_SplitHostPort :: "string \<Rightarrow> (string, string \<times> string) outcome"
  ne_ParseNode :: "string \<Rightarrow> (string, 'n) outcome"
  ne_ParseIP :: "string \<Rightarrow> string option"
  ne_StartServer :: "('n, 'k) p2p_config \<Rightarrow> string option"
  ne_Self :: "('n, 'k) p2p_config \<Rightarrow> 'n"
  ne_TCP :: "'n \<Rightarrow> int"
  ne_UDP :: "'n \<Rightarrow> int"
  ne_NewV4 :: "'k \<Rightarrow> string option \<Rightarrow> int \<Rightarrow> int \<Rightarrow> 'n"
  ne_URLv4 :: "'n \<Rightarrow> string"
  ne_ExternalIP :: "(string, string) outcome"

definition NewDevP2PServer ::
  "('n, 'k) node_env \<Rightarrow> DevP2PConfig \<Rightarrow> 's \<Rightarrow> (p2p_error, ('s, 'n, 'k) DevP2PServer) outcome" where
  "NewDevP2PServer N cfg store =
     bind_outcome (if dv_NodeKey cfg \<noteq> '''' then wrap_error LoadNodeKeyFailed (ne_LoadECDSA N (dv_NodeKey cfg))
                   else wrap_error GenerateNodeKeyFailed (ne_GenerateKey N)) (\<lambda>nodeKey.
     Ok \<lparr>ds_config = cfg, ds_storage = store, ds_nodeKey = nodeKey, ds_server = None, ds_localNode = None,
         ds_connections = fmempty, ds_cancelled = False\<rparr>)"

text \<open>Addresses that cannot be parsed are reported and skipped.\<close>

definition parseNodes :: "('n, 'k) node_env \<Rightarrow> string list \<Rightarrow> 'n list" where
  "parseNodes N urls = List.map_filter (\<lambda>u. case ne_ParseNode N u of Ok node \<Rightarrow> Some node | _ \<Rightarrow> None) urls"

definition GetEnodeURL :: "('n, 'k) node_env \<Rightarrow> ('s, 'n, 'k) DevP2PServer \<Rightarrow> (p2p_error, string) outcome" where
  "GetEnodeURL N ds =
     deref (ds_server ds) (\<lambda>srv.
     let node = ne_Self N srv;
         node = (if dv_ExternalIP (ds_config ds) \<noteq> '''' then
             ne_NewV4 N (ds_nodeKey ds) (ne_ParseIP N (dv_ExternalIP (ds_config ds))) (ne_TCP N node) (ne_UDP N node)
           else node) in
     Ok (ne_URLv4 N node))"

definition detectExternalIP :: "('n, 'k) node_env \<Rightarrow> ('s, 'n, 'k) DevP2PServer \<Rightarrow> string" where
  "detectExternalIP N ds =
     (case ds_server ds of
        Some srv \<Rightarrow> (if sg_NAT srv then (case ne_ExternalIP N of Ok ip \<Rightarrow> ip | _ \<Rightarrow> ''auto'') else ''auto'')
      | None \<Rightarrow> ''auto'')"

text \<open>
  A port that is no number leaves \<open>listenPort\<close> at 0. The last steps run after the server has started:
  the external address is looked up when it is not configured, and the URL is printed.
\<close>

definition devp2p_Start ::
  "('n, 'k) node_env \<Rightarrow> ('s, 'n, 'k) DevP2PServer \<Rightarrow> (p2p_error, unit) outcome \<times> ('s, 'n, 'k) DevP2PServer" where
  "devp2p_Start N ds =
     (case bind_outcome (wrap_error OpenNodeDBFailed (ne_OpenDB N)) (\<lambda>_.
           wrap_error InvalidListenAddress (ne_SplitHostPort N (dv_ListenAddr (ds_config ds)))) of
        Err e \<Rightarrow> (Err e, ds)
      | Panic p \<Rightarrow> (Panic p, ds)
      | Ok (host, port) \<Rightarrow>
          (let cfg = ds_config ds;
               listenPort = (case scanInt port of None \<Rightarrow> 0 | Some (v, _) \<Rightarrow> v);
               ds = ds\<lparr>ds_localNode := Some \<lparr>ln_IP = host, ln_TCP = listenPort, ln_UDP = listenPort\<rparr>\<rparr>;
               srv = \<lparr>sg_PrivateKey = ds_nodeKey ds, sg_MaxPeers = dv_MaxPeers cfg, sg_Name = dv_Name cfg,
                  sg_BootstrapNodes = parseNodes N (dv_Bootnodes cfg), sg_StaticNodes = parseNodes N (dv_StaticPeers cfg),
                  sg_ListenAddr = dv_ListenAddr cfg, sg_NAT = dv_EnableNAT cfg, sg_Protocols = makeProtocols\<rparr>;
               ds = ds\<lparr>ds_server := Some srv\<rparr> in
           (case ne_StartServer N srv of
              Some e \<Rightarrow> (Err (StartP2PFailed e), ds)
            | None \<Rightarrow>
                (let ds = (if dv_ExternalIP cfg = '''' then ds\<lparr>ds_config := cfg\<lparr>dv_ExternalIP := detectExternalIP N ds\<rparr>\<rparr> else ds) in
                 (bind_outcome (GetEnodeURL N ds) (\<lambda>url. Ok ()), ds)))))"

definition devp2p_Stop :: "('s, 'n, 'k) DevP2PServer \<Rightarrow> ('s, 'n, 'k) DevP2PServer" where
  "devp2p_Stop ds = ds\<lparr>ds_cancelled := True\<rparr>"

section \<open>Connections of peers\<close>

text \<open>
  The documentation of \<open>rlp\<close> rules out maps, and \<open>p2p.Send\<close> encodes its value before it writes: sending a
  map fails and puts nothing on the wire.
\<close>

definition rlp_rejects_maps :: "('p, 'w) p2p_env \<Rightarrow> bool" where
  "rlp_rejects_maps E \<longleftrightarrow> (\<forall>w msgCode st. \<exists>e. pe_Send E w msgCode (StatusMap st) = (Some e, w))"

lemma sendStatus_fails:
  assumes "rlp_rejects_maps E"
  shows "snd (sendStatus E ops cfg s w) = w \<and> \<not> is_ok (fst (sendStatus E ops cfg s w))"
proof -
  have "snd (send E w 0 (StatusMap st)) = w \<and> \<not> is_ok (fst (send E w 0 (StatusMap st)))" for st
  proof -
    obtain e where "pe_Send E w 0 (StatusMap st) = (Some e, w)" using assms unfolding rlp_rejects_maps_def by metis
    then show ?thesis by (simp add: send_def)
  qed
  then show ?thesis by (simp add: sendStatus_def split: outcome.split)
qed

text \<open>
  C34. No peer is ever served: the status message is built as a Go map, which RLP cannot encode, so
  \<open>handlePeer\<close> fails before it reads a message. Whatever messages the peer sends, the result is the
  same error, nothing is sent, and the peer is removed from the connections.
\<close>

theorem no_peer_is_served:
  assumes "rlp_rejects_maps E"
  shows "\<exists>r. \<not> is_ok r \<and>
    (\<forall>readErr msgs. handlePeer E ops now readErr peer msgs ds w =
       (r, ds\<lparr>ds_connections := fmdrop (pr_ID peer) (ds_connections ds)\<rparr>, w))"
proof -
  obtain r w' where st: "sendStatus E ops (ds_config ds) (ds_storage ds) w = (r, w')" by fastforce
  then have "w' = w" "\<not> is_ok r" using sendStatus_fails [OF assms, of ops "ds_config ds" "ds_storage ds" w] by simp_all
  moreover have drop: "fmdrop i (fmupd i c m) = fmdrop i m" for i :: hash and c :: peerConnection and m
    by (rule fmap_ext) simp
  ultimately show ?thesis
    using st by (cases r) (auto simp: handlePeer_def Let_def)
qed

section \<open>Replies\<close>

context block_store
begin

lemma collectHeaders_exact:
  assumes "inv s" and "\<And>n. view s n = None \<Longrightarrow> \<exists>e. st_GetBlock ops s n = Err e"
  shows "collectHeaders ops s origin step (of_nat i) k =
    Ok (map (\<lambda>n. the (blk_Header (the (view s n))))
      (takeWhile (\<lambda>n. view s n \<noteq> None) (map (\<lambda>j. origin + of_nat j * step) [i..<i + k])))"
proof (induction k arbitrary: i)
  case (Suc k)
  let ?n = "origin + of_nat i * step"
  have up: "[i..<i + Suc k] = i # [Suc i..<Suc i + k]" by (simp add: upt_conv_Cons del: upt_Suc)
  show ?case
  proof (cases "view s ?n")
    case None
    then obtain e where "st_GetBlock ops s ?n = Err e" using assms(2) by blast
    then show ?thesis unfolding up using None by simp
  next
    case (Some b)
    then obtain h where h: "blk_Header b = Some h"
      using view_number [OF assms(1) Some] by (auto simp: block_number_def)
    have "(of_nat (Suc i) :: u64) = of_nat i + 1" by simp
    note ih = Suc.IH [of "Suc i", unfolded this]
    show ?thesis unfolding up using Some h get_view [OF assms(1) Some] ih by (simp del: upt_Suc)
  qed
qed simp

end


lemma collectBodies_exact:
  "n < 128 \<Longrightarrow> collectBodies mem_ops s n hs =
    Ok (take (128 - n) (map blk_Transactions (List.map_filter (map_get (ms_blockHashes s)) hs)))"
proof (induction hs arbitrary: n)
  case (Cons h hs)
  have g: "st_GetBlockByHash mem_ops s h = (case map_get (ms_blockHashes s) h of None \<Rightarrow> Err (BlockHashNotFound h) | Some b \<Rightarrow> Ok b)"
    by (simp add: mem_ops_def mem_GetBlockByHash_def)
  show ?case
  proof (cases "map_get (ms_blockHashes s) h")
    case (Some b)
    have "128 - n = Suc (128 - Suc n)" using Cons.prems by simp
    then show ?thesis using Some g Cons.IH [of "Suc n"] Cons.prems by (auto simp: List.map_filter_simps)
  qed (use g Cons in \<open>simp add: List.map_filter_simps\<close>)
qed (simp add: List.map_filter_simps)

text \<open>Bodies: the transactions of the stored blocks among the hashes asked for, in order, at most 128.\<close>

lemma body_reply_exact:
  "collectBodies mem_ops s 0 hs = Ok (take 128 (map blk_Transactions (List.map_filter (map_get (ms_blockHashes s)) hs)))"
  using collectBodies_exact [of 0 s hs] by simp

text \<open>Neither the direction of a request nor a skip of one makes a difference.\<close>

lemma header_direction_ignored:
  "headersFor ops s (req\<lparr>hq_Reverse := b\<rparr>) = headersFor ops s req"
  "headersFor ops s (req\<lparr>hq_Skip := 1\<rparr>) = headersFor ops s (req\<lparr>hq_Skip := 0\<rparr>)"
  by (simp_all add: headersFor_def)

text \<open>Without a NAT device and a configured address, the URL is built for the address \<open>auto\<close>.\<close>

lemma enode_url_auto:
  assumes "devp2p_Start N ds = (Ok (), ds')" and "dv_ExternalIP (ds_config ds) = ''''" and "\<not> dv_EnableNAT (ds_config ds)"
  shows "dv_ExternalIP (ds_config ds') = ''auto''"
  using assms by (auto simp: devp2p_Start_def detectExternalIP_def Let_def split: outcome.splits prod.splits option.splits)

section \<open>Worked examples\<close>

text \<open>A connection that encodes everything but maps and keeps what was sent.\<close>

definition ex_p2p :: "(headers_request, send_data list) p2p_env" where
  "ex_p2p =
     \<lparr>pe_Status = \<lambda>p. (Err '''', p), pe_Headers66 = \<lambda>p. (Ok p, p), pe_HeadersFull = \<lambda>p. (Ok p, p), pe_HeadersSimple = \<lambda>p. (Ok p, p),
      pe_Bodies66 = \<lambda>p. (Err '''', p), pe_RawHashes = \<lambda>p. (Err '''', p),
      pe_Send = \<lambda>w c d. (case d of StatusMap st \<Rightarrow> (Some ''rlp: type map is not RLP-serializable'', w) | _ \<Rightarrow> (None, w @ [d]))\<rparr>"

definition ex_peer :: p2p_peer where
  "ex_peer = \<lparr>pr_ID = 7, pr_Name = ''bor'', pr_RemoteAddr = ''10.0.0.2:30303''\<rparr>"

definition ex_devp2p :: "(MemoryStorage, unit, unit) DevP2PServer" where
  "ex_devp2p =
     \<lparr>ds_config = \<lparr>dv_ListenAddr = '':30303'', dv_ExternalIP = '''', dv_MaxPeers = 50, dv_NodeKey = '''', dv_NetworkID = 137,
        dv_Name = ''hypasis-node'', dv_Bootnodes = [], dv_StaticPeers = [], dv_EnableNAT = False\<rparr>,
      ds_storage = mem_store_all [example_block 5], ds_nodeKey = (), ds_server = None, ds_localNode = None,
      ds_connections = fmempty, ds_cancelled = False\<rparr>"

definition ex_headers_request :: headers_request where
  "ex_headers_request = \<lparr>hq_ReqID = 1, hq_Origin = 5, hq_Amount = 10, hq_Skip = 0, hq_Reverse = False\<rparr>"

theorem no_peer_is_served_witness:
  "\<exists>r. \<not> is_ok r \<and> (\<forall>readErr. handlePeer ex_p2p mem_ops 0 readErr ex_peer [(1, \<lparr>mg_Code = 3, mg_Payload = ex_headers_request\<rparr>)] ex_devp2p [] =
     (r, ex_devp2p\<lparr>ds_connections := fmempty\<rparr>, []))"
proof -
  have "rlp_rejects_maps ex_p2p" by (simp add: rlp_rejects_maps_def ex_p2p_def)
  from no_peer_is_served [OF this, of mem_ops 0 ex_peer ex_devp2p "[]"] show ?thesis
    by (auto simp: ex_devp2p_def)
qed


end
