(* ===== verification/Cluster_Coordinator.thy ===== *)
theory Cluster_Coordinator
  imports Go_Prelude Float64 "HOL-Library.List_Lexorder"
begin

text \<open>
  \<open>pkg/cluster/coordinator.go\<close>: several instances find each other through status entries in a shared
  cache and elect the one with the lowest identifier as leader. Identifiers are compared like Go
  strings, byte by byte. The cache (Redis) is outside: what a call returns is an argument, what is
  written to it a result. A decoded JSON object is a map to \<open>json\<close> values; Go's iteration over a map
  is a list of its keys in some order. \<open>now\<close> is the time in nanoseconds.
\<close>

section \<open>Model\<close>

datatype json = JString string | JNumber float64 | JBool bool | JNull

type_synonym json_object = "string \<rightharpoonup> json"

text \<open>The type assertions \<open>v, _ := m[k].(T)\<close> and \<open>v, ok := m[k].(T)\<close>.\<close>

definition as_string :: "json_object \<Rightarrow> string \<Rightarrow> string option" where
  "as_string m k = (case m k of Some (JString s) \<Rightarrow> Some s | _ \<Rightarrow> None)"

definition as_number :: "json_object \<Rightarrow> string \<Rightarrow> float64 option" where
  "as_number m k = (case m k of Some (JNumber x) \<Rightarrow> Some x | _ \<Rightarrow> None)"

definition as_bool :: "json_object \<Rightarrow> string \<Rightarrow> bool option" where
  "as_bool m k = (case m k of Some (JBool b) \<Rightarrow> Some b | _ \<Rightarrow> None)"

definition or_zero :: "'a \<Rightarrow> 'a option \<Rightarrow> 'a" where
  "or_zero z v = (case v of None \<Rightarrow> z | Some x \<Rightarrow> x)"

text \<open>\<open>int64(x)\<close> of a float drops the fraction.\<close>

definition float_to_int :: "float64 \<Rightarrow> int" where
  "float_to_int x = (if x \<ge> 0 then \<lfloor>x\<rfloor> else \<lceil>x\<rceil>)"

record CoordinatorConfig =
  cc_InstanceID :: string
  cc_Region :: string
  cc_HeartbeatPeriod :: int
  cc_PeerTimeout :: int
  cc_EnableMeshSync :: bool
  cc_LeaderElection :: bool

record PeerInstance =
  pi_ID :: string
  pi_Region :: string
  pi_LastHeartbeat :: int
  pi_Status :: string
  pi_Metrics :: json_object
  pi_ConnectedPeers :: int
  pi_SyncProgress :: float64
  pi_IsLeader :: bool

record ClusterCoordinator =
  cl_config :: CoordinatorConfig
  cl_instanceID :: string
  cl_peers :: "(string, PeerInstance) fmap"

definition NewClusterCoordinator :: "CoordinatorConfig \<Rightarrow> ClusterCoordinator" where
  "NewClusterCoordinator cfg =
     (let cfg = (if cc_HeartbeatPeriod cfg = 0 then cfg\<lparr>cc_HeartbeatPeriod := 10 * 1000000000\<rparr> else cfg);
          cfg = (if cc_PeerTimeout cfg = 0 then cfg\<lparr>cc_PeerTimeout := 30 * 1000000000\<rparr> else cfg) in
      \<lparr>cl_config = cfg, cl_instanceID = cc_InstanceID cfg, cl_peers = fmempty\<rparr>)"

definition isHealthy :: "PeerInstance \<Rightarrow> bool" where
  "isHealthy peer \<longleftrightarrow> pi_Status peer = ''healthy''"

definition isLeader :: "ClusterCoordinator \<Rightarrow> bool" where
  "isLeader c \<longleftrightarrow> \<not> (\<exists>i \<in> fset (fmdom (cl_peers c)).
     (case fmlookup (cl_peers c) i of None \<Rightarrow> False | Some peer \<Rightarrow> isHealthy peer \<and> i < cl_instanceID c))"

text \<open>The status entry a heartbeat writes; the constants are the code's placeholders.\<close>

definition sendHeartbeat :: "int \<Rightarrow> ClusterCoordinator \<Rightarrow> json_object" where
  "sendHeartbeat now c =
     [''instance_id'' \<mapsto> JString (cl_instanceID c), ''region'' \<mapsto> JString (cc_Region (cl_config c)),
      ''timestamp'' \<mapsto> JNumber (of_int (now div 1000000000)), ''status'' \<mapsto> JString ''healthy'',
      ''connected_peers'' \<mapsto> JNumber 0, ''sync_progress'' \<mapsto> JNumber (f64 (999 / 10)),
      ''is_leader'' \<mapsto> JBool (isLeader c)]"

text \<open>The body of the loop of \<open>discoverPeers\<close>.\<close>

definition discoverOne :: "int \<Rightarrow> ClusterCoordinator \<Rightarrow> string \<times> json_object \<Rightarrow> ClusterCoordinator" where
  "discoverOne now c entry =
     (let (instanceID, status) = entry in
      if instanceID = cl_instanceID c then c
      else
        (let timestamp = float_to_int (or_zero 0 (as_number status ''timestamp'')) in
         if now - timestamp * 1000000000 > cc_PeerTimeout (cl_config c) then
           (case fmlookup (cl_peers c) instanceID of
              None \<Rightarrow> c
            | Some peer \<Rightarrow> c\<lparr>cl_peers := fmupd instanceID (peer\<lparr>pi_Status := ''offline''\<rparr>) (cl_peers c)\<rparr>)
         else
           c\<lparr>cl_peers := fmupd instanceID
             \<lparr>pi_ID = instanceID, pi_Region = or_zero '''' (as_string status ''region''),
              pi_LastHeartbeat = timestamp, pi_Status = ''healthy'', pi_Metrics = status,
              pi_ConnectedPeers = float_to_int (or_zero 0 (as_number status ''connected_peers'')),
              pi_SyncProgress = or_zero 0 (as_number status ''sync_progress''),
              pi_IsLeader = or_zero False (as_bool status ''is_leader'')\<rparr> (cl_peers c)\<rparr>))"

text \<open>\<open>statuses\<close> is the reply of the cache in the order of iteration; \<open>None\<close> an error.\<close>

definition discoverPeers ::
  "int \<Rightarrow> (string \<times> json_object) list option \<Rightarrow> ClusterCoordinator \<Rightarrow> ClusterCoordinator" where
  "discoverPeers now statuses c =
     (case statuses of None \<Rightarrow> c | Some entries \<Rightarrow> foldl (discoverOne now) c entries)"

text \<open>\<open>event\<close> is the decoded event, \<open>None\<close> when decoding failed.\<close>

definition handleEvent ::
  "int \<Rightarrow> (string \<times> json_object) list option \<Rightarrow> json_object option \<Rightarrow> ClusterCoordinator \<Rightarrow> ClusterCoordinator" where
  "handleEvent now statuses event c =
     (case event of
        None \<Rightarrow> c
      | Some ev \<Rightarrow>
          (let eventType = or_zero '''' (as_string ev ''type''); sourceID = or_zero '''' (as_string ev ''source'') in
           if sourceID = cl_instanceID c then c
           else if eventType = ''instance_joined'' then discoverPeers now statuses c
           else if eventType = ''instance_left'' then c\<lparr>cl_peers := fmdrop sourceID (cl_peers c)\<rparr>
           else c))"

definition announceLeader :: "int \<Rightarrow> ClusterCoordinator \<Rightarrow> json_object" where
  "announceLeader now c =
     [''type'' \<mapsto> JString ''leader_changed'', ''source'' \<mapsto> JString (cl_instanceID c),
      ''leader_id'' \<mapsto> JString (cl_instanceID c), ''timestamp'' \<mapsto> JNumber (of_int (now div 1000000000))]"

text \<open>The loop of \<open>electLeader\<close> over the peers in the order \<open>ids\<close>.\<close>

fun electLoop :: "ClusterCoordinator \<Rightarrow> string list \<Rightarrow> string \<Rightarrow> string" where
  "electLoop c [] leaderID = leaderID"
| "electLoop c (i # ids) leaderID =
     (case fmlookup (cl_peers c) i of
        None \<Rightarrow> electLoop c ids leaderID
      | Some peer \<Rightarrow> electLoop c ids (if isHealthy peer \<and> i < leaderID then i else leaderID))"

text \<open>The event that \<open>electLeader\<close> publishes, if any.\<close>

definition electLeader :: "int \<Rightarrow> string list \<Rightarrow> ClusterCoordinator \<Rightarrow> json_object option" where
  "electLeader now ids c =
     (if electLoop c ids (cl_instanceID c) = cl_instanceID c \<and> \<not> isLeader c
      then Some (announceLeader now c) else None)"

fun leaderLoop :: "ClusterCoordinator \<Rightarrow> string list \<Rightarrow> string \<Rightarrow> string" where
  "leaderLoop c [] leaderID = leaderID"
| "leaderLoop c (i # ids) leaderID =
     (case fmlookup (cl_peers c) i of
        None \<Rightarrow> leaderLoop c ids leaderID
      | Some peer \<Rightarrow>
          if isHealthy peer \<and> pi_IsLeader peer then i
          else leaderLoop c ids (if isHealthy peer \<and> i < leaderID then i else leaderID))"

definition GetLeader :: "string list \<Rightarrow> ClusterCoordinator \<Rightarrow> string" where
  "GetLeader ids c = leaderLoop c ids (cl_instanceID c)"

definition GetPeers :: "string list \<Rightarrow> ClusterCoordinator \<Rightarrow> PeerInstance list" where
  "GetPeers ids c = List.map_filter (fmlookup (cl_peers c)) ids"

definition GetHealthyPeerCount :: "string list \<Rightarrow> ClusterCoordinator \<Rightarrow> nat" where
  "GetHealthyPeerCount ids c = length (filter isHealthy (GetPeers ids c))"

record ClusterStatus =
  cst_instance_id :: string
  cst_region :: string
  cst_is_leader :: bool
  cst_total_instances :: nat
  cst_healthy_instances :: nat
  cst_total_connected_clients :: int
  cst_peers :: "PeerInstance list"

definition GetClusterStatus :: "string list \<Rightarrow> ClusterCoordinator \<Rightarrow> ClusterStatus" where
  "GetClusterStatus ids c =
     \<lparr>cst_instance_id = cl_instanceID c, cst_region = cc_Region (cl_config c), cst_is_leader = isLeader c,
      cst_total_instances = fcard (fmdom (cl_peers c)) + 1, cst_healthy_instances = GetHealthyPeerCount ids c,
      cst_total_connected_clients = sum_list (map pi_ConnectedPeers (GetPeers ids c)),
      cst_peers = GetPeers ids c\<rparr>"

definition PublishBlockSynced :: "int \<Rightarrow> ClusterCoordinator \<Rightarrow> u64 \<Rightarrow> json_object" where
  "PublishBlockSynced now c blockNum =
     [''type'' \<mapsto> JString ''block_synced'', ''source'' \<mapsto> JString (cl_instanceID c),
      ''block_number'' \<mapsto> JNumber (f64_of_u64 blockNum), ''timestamp'' \<mapsto> JNumber (of_int (now div 1000000000))]"

section \<open>Healthy peers\<close>

definition healthy_peers :: "ClusterCoordinator \<Rightarrow> string set" where
  "healthy_peers c = {i. \<exists>peer. fmlookup (cl_peers c) i = Some peer \<and> isHealthy peer}"

lemma isLeader_iff: "isLeader c \<longleftrightarrow> (\<forall>i \<in> healthy_peers c. \<not> i < cl_instanceID c)"
  by (force simp: isLeader_def healthy_peers_def fmlookup_dom_iff split: option.splits)

text \<open>When a status entry counts as a sign of life.\<close>

definition fresh :: "int \<Rightarrow> ClusterCoordinator \<Rightarrow> json_object \<Rightarrow> bool" where
  "fresh now c status \<longleftrightarrow>
     now - float_to_int (or_zero 0 (as_number status ''timestamp'')) * 1000000000 \<le> cc_PeerTimeout (cl_config c)"

lemma discoverOne_props [simp]:
  "cl_instanceID (discoverOne now c e) = cl_instanceID c"
  "cl_config (discoverOne now c e) = cl_config c"
  by (simp_all add: discoverOne_def Let_def split: prod.split option.split)

lemma healthy_discoverOne:
  "healthy_peers (discoverOne now c (i, st)) =
     (if i = cl_instanceID c then healthy_peers c
      else if fresh now c st then insert i (healthy_peers c) else healthy_peers c - {i})"
  by (auto simp: healthy_peers_def discoverOne_def fresh_def isHealthy_def Let_def not_le split: option.splits if_splits)

lemma healthy_discover:
  assumes "distinct (map fst entries)"
  shows "healthy_peers (foldl (discoverOne now) c entries) =
    (healthy_peers c - (fst ` set entries - {cl_instanceID c})) \<union>
    {i. i \<noteq> cl_instanceID c \<and> (\<exists>st. (i, st) \<in> set entries \<and> fresh now c st)}"
  using assms
proof (induction entries rule: rev_induct)
  case (snoc e entries)
  obtain i st where e: "e = (i, st)" by fastforce
  have same: "cl_instanceID (foldl (discoverOne now) c entries) = cl_instanceID c \<and>
      cl_config (foldl (discoverOne now) c entries) = cl_config c"
    by (rule foldl_invariant) simp_all
  then have "fresh now (foldl (discoverOne now) c entries) st = fresh now c st" by (simp add: fresh_def)
  moreover have "i \<notin> fst ` set entries" using snoc.prems e by simp
  ultimately show ?case
    using snoc same e by (auto simp: healthy_discoverOne image_iff split: if_splits)
qed simp


section \<open>Elections\<close>

lemma electLoop_bounds:
  "electLoop c ids l \<le> l \<and> (\<forall>i \<in> set ids. i \<in> healthy_peers c \<longrightarrow> electLoop c ids l \<le> i)"
proof (induction ids arbitrary: l)
  case (Cons i ids)
  show ?case
  proof (cases "fmlookup (cl_peers c) i")
    case None
    with Cons [of l] show ?thesis by (auto simp: healthy_peers_def)
  next
    case (Some peer)
    let ?l = "if isHealthy peer \<and> i < l then i else l"
    have "?l \<le> l" "i \<in> healthy_peers c \<Longrightarrow> ?l \<le> i" using Some by (auto simp: healthy_peers_def)
    with Cons [of ?l] Some show ?thesis by (auto intro: order_trans)
  qed
qed simp

text \<open>
  Leader election never announces a leader: \<open>electLeader\<close> publishes its event when this
  instance has the lowest identifier among the healthy ones and \<open>isLeader\<close> is false, but both are
  computed from the same peers, so the condition never holds.
\<close>

theorem leader_is_never_announced:
  assumes "fset (fmdom (cl_peers c)) \<subseteq> set ids"
  shows "electLeader now ids c = None"
proof -
  have "isLeader c" if elected: "electLoop c ids (cl_instanceID c) = cl_instanceID c"
  proof -
    have "\<not> i < cl_instanceID c" if "i \<in> healthy_peers c" for i
    proof -
      have "i \<in> set ids" using that assms by (auto simp: healthy_peers_def fmlookup_dom_iff)
      then show ?thesis using electLoop_bounds [of c ids "cl_instanceID c"] that elected by auto
    qed
    then show ?thesis by (simp add: isLeader_iff)
  qed
  then show ?thesis by (auto simp: electLeader_def)
qed

definition ex_cluster :: "string \<Rightarrow> (string \<times> bool) list \<Rightarrow> ClusterCoordinator" where
  "ex_cluster me ps =
     \<lparr>cl_config = \<lparr>cc_InstanceID = me, cc_Region = ''eu'', cc_HeartbeatPeriod = 10 * 1000000000,
        cc_PeerTimeout = 30 * 1000000000, cc_EnableMeshSync = False, cc_LeaderElection = True\<rparr>,
      cl_instanceID = me,
      cl_peers = fmap_of_list (map (\<lambda>(i, l). (i, \<lparr>pi_ID = i, pi_Region = ''eu'', pi_LastHeartbeat = 0,
        pi_Status = ''healthy'', pi_Metrics = Map.empty, pi_ConnectedPeers = 0, pi_SyncProgress = 0, pi_IsLeader = l\<rparr>)) ps)\<rparr>"

theorem leader_is_never_announced_witness:
  "electLeader 0 [''b'', ''c''] (ex_cluster ''a'' [(''b'', False), (''c'', False)]) = None \<and>
   electLoop (ex_cluster ''a'' [(''b'', False), (''c'', False)]) [''b'', ''c''] ''a'' = ''a''"
proof -
  let ?c = "ex_cluster ''a'' [(''b'', False), (''c'', False)]"
  have "fset (fmdom (cl_peers ?c)) \<subseteq> set [''b'', ''c'']" by (simp add: ex_cluster_def)
  from leader_is_never_announced [OF this, of 0]
  show ?thesis by (simp add: ex_cluster_def isHealthy_def fmlookup_of_list)
qed

text \<open>
  Exactly one instance considers itself the leader once all have discovered each other: when the
  status entries are those of the live instances \<open>I\<close>, all of them fresh, and no instance knows a
  healthy peer outside \<open>I\<close>, then after \<open>discoverPeers\<close> the instance with the lowest identifier is
  the leader and no other is.
\<close>

theorem elected_leader_is_unique:
  assumes "finite I" and "distinct (map fst entries)" and "fst ` set entries = I"
    and "\<forall>i \<in> I. cl_instanceID (c i) = i \<and> healthy_peers (c i) \<subseteq> I"
    and "\<forall>i \<in> I. \<forall>e \<in> set entries. fresh now (c i) (snd e)" and "i \<in> I"
  shows "isLeader (discoverPeers now (Some entries) (c i)) \<longleftrightarrow> i = Min I"
proof -
  let ?c = "foldl (discoverOne now) (c i) entries"
  have me: "cl_instanceID (c i) = i" "healthy_peers (c i) \<subseteq> I" using assms(4,6) by auto
  have "(\<exists>st. (j, st) \<in> set entries \<and> fresh now (c i) st) \<longleftrightarrow> j \<in> I" for j
    using assms(3,5,6) by force
  then have "healthy_peers ?c = (healthy_peers (c i) - (I - {i})) \<union> (I - {i})"
    using healthy_discover [OF assms(2), of now "c i"] me(1) assms(3) by auto
  then have hp: "I - {i} \<subseteq> healthy_peers ?c" "healthy_peers ?c \<subseteq> I" using me(2) by auto
  have "cl_instanceID ?c = i" by (rule foldl_invariant) (simp_all add: me(1))
  then have "isLeader ?c \<longleftrightarrow> (\<forall>j \<in> I. \<not> j < i)"
    using hp by (auto simp: isLeader_iff)
  also have "\<dots> \<longleftrightarrow> i = Min I" using assms(1,6) Min_eqI [of I i] by (auto simp: not_less)
  finally show ?thesis by (simp add: discoverPeers_def)
qed

theorem elected_leader_is_unique_witness:
  "isLeader (discoverPeers 5000000000 (Some [(''b'', [''timestamp'' \<mapsto> JNumber 4]), (''a'', [''timestamp'' \<mapsto> JNumber 3])])
     (ex_cluster ''a'' [])) \<and>
   \<not> isLeader (discoverPeers 5000000000 (Some [(''b'', [''timestamp'' \<mapsto> JNumber 4]), (''a'', [''timestamp'' \<mapsto> JNumber 3])])
     (ex_cluster ''b'' []))"
proof -
  let ?es = "[(''b'', [''timestamp'' \<mapsto> JNumber 4]), (''a'', [''timestamp'' \<mapsto> JNumber 3])]"
  have "isLeader (discoverPeers 5000000000 (Some ?es) (ex_cluster i [])) \<longleftrightarrow> i = Min {''a'', ''b''}"
    if "i \<in> {''a'', ''b''}" for i
    by (rule elected_leader_is_unique)
      (use that in \<open>auto simp: ex_cluster_def healthy_peers_def fresh_def as_number_def or_zero_def float_to_int_def\<close>)
  moreover have "Min {''a'', ''b''} = ''a''" by (simp add: min_def)
  ultimately show ?thesis by simp
qed

text \<open>
  A peer whose status entry disappears from the cache is never marked offline:
  \<open>discoverPeers\<close> looks only at the entries it gets. An instance that knows a healthy peer with a
  lower identifier does not become leader however often it runs discovery after that peer's entry
  has expired.
\<close>

theorem vanished_peer_blocks_leadership:
  assumes "v \<in> healthy_peers c" and "v < cl_instanceID c"
    and "\<forall>(now, entries) \<in> set rounds. distinct (map fst entries) \<and> v \<notin> fst ` set entries"
  shows "\<not> isLeader (foldl (\<lambda>c (now, entries). discoverPeers now (Some entries) c) c rounds)"
proof -
  let ?P = "\<lambda>c'. v \<in> healthy_peers c' \<and> cl_instanceID c' = cl_instanceID c"
  have "?P (foldl (\<lambda>c (now, entries). discoverPeers now (Some entries) c) c rounds)"
  proof (rule foldl_invariant)
    fix d r assume d: "?P d" and r: "r \<in> set rounds"
    obtain now entries where eq: "r = (now, entries)" by fastforce
    with r assms(3) have e: "distinct (map fst entries)" "v \<notin> fst ` set entries" by auto
    have "cl_instanceID (foldl (discoverOne now) d entries) = cl_instanceID d"
      by (rule foldl_invariant) simp_all
    with d e eq show "?P (case r of (now, entries) \<Rightarrow> discoverPeers now (Some entries) d)"
      by (simp add: discoverPeers_def healthy_discover [OF e(1)])
  qed (use assms(1) in simp)
  then show ?thesis using assms(2) unfolding isLeader_iff by metis
qed

theorem vanished_peer_blocks_leadership_witness:
  "\<not> isLeader (foldl (\<lambda>c (now, entries). discoverPeers now (Some entries) c) (ex_cluster ''b'' [(''a'', True)])
     [(10 ^ 12, [(''c'', Map.empty)]), (10 ^ 15, [])])"
proof -
  have "''a'' \<in> healthy_peers (ex_cluster ''b'' [(''a'', True)])"
    by (simp add: ex_cluster_def healthy_peers_def isHealthy_def fmlookup_of_list)
  then show ?thesis by (rule vanished_peer_blocks_leadership) (simp_all add: ex_cluster_def)
qed

text \<open>
  \<open>GetLeader\<close> returns the first peer with the leader flag in the order of map iteration, so with
  two flags set its answer depends on that order.
\<close>

lemma leader_depends_on_iteration:
  "GetLeader [''b'', ''c''] (ex_cluster ''a'' [(''b'', True), (''c'', True)]) = ''b''"
  "GetLeader [''c'', ''b''] (ex_cluster ''a'' [(''b'', True), (''c'', True)]) = ''c''"
  by (simp_all add: GetLeader_def ex_cluster_def isHealthy_def fmlookup_of_list)

end
