(* ===== verification/Redis_Cache.thy ===== *)
theory Redis_Cache
  imports Cluster_Coordinator Chain_Types Go_Strings "HOL-Library.Sublist"
begin

text \<open>
  \<open>pkg/cache/redis.go\<close>: the distributed cache, and through it the status entries the cluster
  coordinators exchange. The Redis client is the record \<open>redis_ops\<close> over the state of the server, and
  \<open>redis_contract\<close> says what the documentation of the commands promises of a server that can be
  reached. The JSON encoding of the cached values is a parameter. \<open>now\<close> is the time in nanoseconds.
\<close>

section \<open>Model\<close>

datatype redis_error = RedisNil | RedisError string

record redis_options =
  ro_Password :: string
  ro_DB :: int
  ro_MaxRetries :: int
  ro_PoolSize :: int
  ro_MinIdleConns :: int

record pool_stats =
  pl_Hits :: nat
  pl_Misses :: nat
  pl_Timeouts :: nat
  pl_TotalConns :: nat
  pl_IdleConns :: nat
  pl_StaleConns :: nat

text \<open>
  The commands the code uses. \<open>rd_Get\<close> is \<open>Get(..).Bytes()\<close>, \<open>rd_GetInt64\<close> is \<open>Get(..).Int64()\<close>; a missing
  key is the error \<open>redis.Nil\<close>. Commands that write return an error or nil and the new state.
\<close>

record 'r redis_ops =
  rd_Ping :: "'r \<Rightarrow> redis_error option"
  rd_Get :: "int \<Rightarrow> 'r \<Rightarrow> string \<Rightarrow> (redis_error, bytes) outcome"
  rd_GetInt64 :: "int \<Rightarrow> 'r \<Rightarrow> string \<Rightarrow> (redis_error, int) outcome"
  rd_Set :: "int \<Rightarrow> 'r \<Rightarrow> string \<Rightarrow> bytes \<Rightarrow> int \<Rightarrow> redis_error option \<times> 'r"
  rd_SetInt64 :: "int \<Rightarrow> 'r \<Rightarrow> string \<Rightarrow> int \<Rightarrow> int \<Rightarrow> redis_error option \<times> 'r"
  rd_Incr :: "int \<Rightarrow> 'r \<Rightarrow> string \<Rightarrow> (redis_error, int) outcome \<times> 'r"
  rd_Keys :: "int \<Rightarrow> 'r \<Rightarrow> string \<Rightarrow> (redis_error, string list) outcome"
  rd_Del :: "int \<Rightarrow> 'r \<Rightarrow> string list \<Rightarrow> redis_error option \<times> 'r"
  rd_Publish :: "'r \<Rightarrow> string \<Rightarrow> bytes \<Rightarrow> redis_error option \<times> 'r"
  rd_Subscribe :: "'r \<Rightarrow> string \<Rightarrow> redis_error option \<times> 'r"
  rd_Info :: "'r \<Rightarrow> string \<Rightarrow> (redis_error, string) outcome"
  rd_PoolStats :: "'r \<Rightarrow> pool_stats"
  rd_Close :: "'r \<Rightarrow> redis_error option \<times> 'r"

record json_codec =
  js_Block :: "Block \<Rightarrow> (string, bytes) outcome"
  js_unBlock :: "bytes \<Rightarrow> (string, Block) outcome"
  js_Checkpoint :: "Checkpoint \<Rightarrow> (string, bytes) outcome"
  js_unCheckpoint :: "bytes \<Rightarrow> (string, Checkpoint) outcome"
  js_Object :: "json_object \<Rightarrow> (string, bytes) outcome"
  js_unObject :: "bytes \<Rightarrow> (string, json_object) outcome"

record RedisConfig =
  rcf_URL :: string
  rcf_Password :: string
  rcf_DB :: int
  rcf_MaxRetries :: int
  rcf_PoolSize :: int
  rcf_MinIdleConn :: int
  rcf_TTL :: int
  rcf_Prefix :: string

datatype cache_error =
    InvalidRedisURL string
  | RedisConnectFailed redis_error
  | NotInCache
  | CacheReadFailed redis_error
  | UnmarshalFailed string
  | MarshalFailed string
  | GetKeysFailed redis_error
  | RedisCommandFailed redis_error
  | SubscribeFailed redis_error
  | RedisStatsFailed redis_error

fun command_result :: "redis_error option \<times> 'r \<Rightarrow> (cache_error, unit) outcome \<times> 'r" where
  "command_result (None, s) = (Ok (), s)"
| "command_result (Some e, s) = (Err (RedisCommandFailed e), s)"

subsection \<open>Connection\<close>

text \<open>\<open>redis.ParseURL\<close> and \<open>redis.NewClient\<close> are arguments; the options of the URL are overridden by the configuration.\<close>

definition overrideOptions :: "RedisConfig \<Rightarrow> redis_options \<Rightarrow> redis_options" where
  "overrideOptions cfg opts =
     (let opts = (if rcf_Password cfg \<noteq> '''' then opts\<lparr>ro_Password := rcf_Password cfg\<rparr> else opts);
          opts = (if rcf_DB cfg > 0 then opts\<lparr>ro_DB := rcf_DB cfg\<rparr> else opts);
          opts = (if rcf_MaxRetries cfg > 0 then opts\<lparr>ro_MaxRetries := rcf_MaxRetries cfg\<rparr> else opts);
          opts = (if rcf_PoolSize cfg > 0 then opts\<lparr>ro_PoolSize := rcf_PoolSize cfg\<rparr> else opts) in
      if rcf_MinIdleConn cfg > 0 then opts\<lparr>ro_MinIdleConns := rcf_MinIdleConn cfg\<rparr> else opts)"

definition NewRedisCache ::
  "(string \<Rightarrow> (string, redis_options) outcome) \<Rightarrow> (redis_options \<Rightarrow> 'r) \<Rightarrow> 'r redis_ops \<Rightarrow> RedisConfig \<Rightarrow> (cache_error, 'r) outcome" where
  "NewRedisCache parseURL newClient R cfg =
     bind_outcome (wrap_error InvalidRedisURL (parseURL (rcf_URL cfg))) (\<lambda>opts.
     let client = newClient (overrideOptions cfg opts) in
     case rd_Ping R client of Some e \<Rightarrow> Err (RedisConnectFailed e) | None \<Rightarrow> Ok client)"

definition cache_Close :: "'r redis_ops \<Rightarrow> 'r \<Rightarrow> (cache_error, unit) outcome \<times> 'r" where
  "cache_Close R s = command_result (rd_Close R s)"

definition cache_HealthCheck :: "'r redis_ops \<Rightarrow> 'r \<Rightarrow> (cache_error, unit) outcome" where
  "cache_HealthCheck R s = (case rd_Ping R s of None \<Rightarrow> Ok () | Some e \<Rightarrow> Err (RedisCommandFailed e))"

subsection \<open>Keys\<close>

definition cacheKey :: "RedisConfig \<Rightarrow> string \<Rightarrow> string" where
  "cacheKey cfg k = (if rcf_Prefix cfg \<noteq> '''' then rcf_Prefix cfg @ '':'' @ k else k)"

definition blockKey :: "u64 \<Rightarrow> string" where
  "blockKey n = ''block:'' @ decimal (unat n)"

definition hashKey :: "hash \<Rightarrow> string" where
  "hashKey h = ''block:hash:'' @ hex_bytes (hash_bytes h)"

definition checkpointKey :: "u64 \<Rightarrow> string" where
  "checkpointKey n = ''checkpoint:'' @ decimal (unat n)"

definition statusKey :: "string \<Rightarrow> string" where
  "statusKey instanceID = ''sync:status:'' @ instanceID"

definition counterKey :: "string \<Rightarrow> string" where
  "counterKey name = ''counter:'' @ name"

subsection \<open>Values\<close>

text \<open>The shape the four getters and the four setters share.\<close>

definition cacheGet :: "'r redis_ops \<Rightarrow> RedisConfig \<Rightarrow> (bytes \<Rightarrow> (string, 'v) outcome) \<Rightarrow> int \<Rightarrow> 'r \<Rightarrow> string \<Rightarrow> (cache_error, 'v) outcome" where
  "cacheGet R cfg unmarshal now s k =
     (case rd_Get R now s (cacheKey cfg k) of
        Err RedisNil \<Rightarrow> Err NotInCache
      | Err e \<Rightarrow> Err (CacheReadFailed e)
      | Panic p \<Rightarrow> Panic p
      | Ok data \<Rightarrow> wrap_error UnmarshalFailed (unmarshal data))"

definition cacheSet ::
  "'r redis_ops \<Rightarrow> RedisConfig \<Rightarrow> (string, bytes) outcome \<Rightarrow> int \<Rightarrow> 'r \<Rightarrow> string \<Rightarrow> int \<Rightarrow> (cache_error, unit) outcome \<times> 'r" where
  "cacheSet R cfg marshalled now s k ttl =
     (case marshalled of
        Err e \<Rightarrow> (Err (MarshalFailed e), s)
      | Panic p \<Rightarrow> (Panic p, s)
      | Ok data \<Rightarrow> command_result (rd_Set R now s (cacheKey cfg k) data ttl))"

definition cache_GetBlock :: "'r redis_ops \<Rightarrow> json_codec \<Rightarrow> RedisConfig \<Rightarrow> int \<Rightarrow> 'r \<Rightarrow> u64 \<Rightarrow> (cache_error, Block) outcome" where
  "cache_GetBlock R J cfg now s blockNum = cacheGet R cfg (js_unBlock J) now s (blockKey blockNum)"

definition cache_SetBlock ::
  "'r redis_ops \<Rightarrow> json_codec \<Rightarrow> RedisConfig \<Rightarrow> int \<Rightarrow> 'r \<Rightarrow> Block option \<Rightarrow> (cache_error, unit) outcome \<times> 'r" where
  "cache_SetBlock R J cfg now s block =
     (case deref block (\<lambda>b. deref (blk_Header b) (\<lambda>h. Ok (b, h))) of
        Ok (b, h) \<Rightarrow> cacheSet R cfg (js_Block J b) now s (blockKey (hd_Number h)) (rcf_TTL cfg)
      | Err e \<Rightarrow> (Err e, s)
      | Panic p \<Rightarrow> (Panic p, s))"

definition cache_GetBlockByHash :: "'r redis_ops \<Rightarrow> json_codec \<Rightarrow> RedisConfig \<Rightarrow> int \<Rightarrow> 'r \<Rightarrow> hash \<Rightarrow> (cache_error, Block) outcome" where
  "cache_GetBlockByHash R J cfg now s h = cacheGet R cfg (js_unBlock J) now s (hashKey h)"

definition cache_SetBlockByHash ::
  "'r redis_ops \<Rightarrow> json_codec \<Rightarrow> RedisConfig \<Rightarrow> int \<Rightarrow> 'r \<Rightarrow> Block option \<Rightarrow> (cache_error, unit) outcome \<times> 'r" where
  "cache_SetBlockByHash R J cfg now s block =
     (case deref block (\<lambda>b. deref (blk_Header b) (\<lambda>h. Ok (b, h))) of
        Ok (b, h) \<Rightarrow> cacheSet R cfg (js_Block J b) now s (hashKey (hd_Hash h)) (rcf_TTL cfg)
      | Err e \<Rightarrow> (Err e, s)
      | Panic p \<Rightarrow> (Panic p, s))"

definition cache_GetCheckpoint :: "'r redis_ops \<Rightarrow> json_codec \<Rightarrow> RedisConfig \<Rightarrow> int \<Rightarrow> 'r \<Rightarrow> u64 \<Rightarrow> (cache_error, Checkpoint) outcome" where
  "cache_GetCheckpoint R J cfg now s blockNum = cacheGet R cfg (js_unCheckpoint J) now s (checkpointKey blockNum)"

definition cache_SetCheckpoint ::
  "'r redis_ops \<Rightarrow> json_codec \<Rightarrow> RedisConfig \<Rightarrow> int \<Rightarrow> 'r \<Rightarrow> Checkpoint option \<Rightarrow> (cache_error, unit) outcome \<times> 'r" where
  "cache_SetCheckpoint R J cfg now s checkpoint =
     (case deref checkpoint Ok of
        Ok cp \<Rightarrow> cacheSet R cfg (js_Checkpoint J cp) now s (checkpointKey (cp_BlockNumber cp)) (24 * 3600000000000)
      | Err e \<Rightarrow> (Err e, s)
      | Panic p \<Rightarrow> (Panic p, s))"

definition GetInstanceStatus :: "'r redis_ops \<Rightarrow> json_codec \<Rightarrow> RedisConfig \<Rightarrow> int \<Rightarrow> 'r \<Rightarrow> string \<Rightarrow> (cache_error, json_object) outcome" where
  "GetInstanceStatus R J cfg now s instanceID = cacheGet R cfg (js_unObject J) now s (statusKey instanceID)"

definition SetSyncStatus ::
  "'r redis_ops \<Rightarrow> json_codec \<Rightarrow> RedisConfig \<Rightarrow> int \<Rightarrow> 'r \<Rightarrow> string \<Rightarrow> json_object \<Rightarrow> (cache_error, unit) outcome \<times> 'r" where
  "SetSyncStatus R J cfg now s instanceID status =
     cacheSet R cfg (js_Object J status) now s (statusKey instanceID) 60000000000"

text \<open>
  The loop over the keys in the order Redis returns them; a key that cannot be read or decoded is
  skipped. The result is a map; keys are distinct, so it is kept as a list of entries.
\<close>

fun statusEntries :: "'r redis_ops \<Rightarrow> json_codec \<Rightarrow> RedisConfig \<Rightarrow> int \<Rightarrow> 'r \<Rightarrow> string list \<Rightarrow> (string \<times> json_object) list" where
  "statusEntries R J cfg now s [] = []"
| "statusEntries R J cfg now s (k # ks) =
     (case bind_outcome (wrap_error CacheReadFailed (rd_Get R now s k)) (\<lambda>data. wrap_error UnmarshalFailed (js_unObject J data)) of
        Ok status \<Rightarrow> (drop (length (cacheKey cfg (statusKey ''''))) k, status) # statusEntries R J cfg now s ks
      | _ \<Rightarrow> statusEntries R J cfg now s ks)"

definition GetAllInstanceStatuses ::
  "'r redis_ops \<Rightarrow> json_codec \<Rightarrow> RedisConfig \<Rightarrow> int \<Rightarrow> 'r \<Rightarrow> (cache_error, (string \<times> json_object) list) outcome" where
  "GetAllInstanceStatuses R J cfg now s =
     bind_outcome (wrap_error GetKeysFailed (rd_Keys R now s (cacheKey cfg (statusKey ''*'')))) (\<lambda>keys.
     Ok (statusEntries R J cfg now s keys))"

subsection \<open>Counters, events, statistics\<close>

definition IncrementCounter :: "'r redis_ops \<Rightarrow> RedisConfig \<Rightarrow> int \<Rightarrow> 'r \<Rightarrow> string \<Rightarrow> (redis_error, int) outcome \<times> 'r" where
  "IncrementCounter R cfg now s name = rd_Incr R now s (cacheKey cfg (counterKey name))"

definition GetCounter :: "'r redis_ops \<Rightarrow> RedisConfig \<Rightarrow> int \<Rightarrow> 'r \<Rightarrow> string \<Rightarrow> (redis_error, int) outcome" where
  "GetCounter R cfg now s name =
     (case rd_GetInt64 R now s (cacheKey cfg (counterKey name)) of Err RedisNil \<Rightarrow> Ok 0 | r \<Rightarrow> r)"

definition SetCounter :: "'r redis_ops \<Rightarrow> RedisConfig \<Rightarrow> int \<Rightarrow> 'r \<Rightarrow> string \<Rightarrow> int \<Rightarrow> (cache_error, unit) outcome \<times> 'r" where
  "SetCounter R cfg now s name value = command_result (rd_SetInt64 R now s (cacheKey cfg (counterKey name)) value 0)"

definition PublishEvent ::
  "'r redis_ops \<Rightarrow> json_codec \<Rightarrow> RedisConfig \<Rightarrow> 'r \<Rightarrow> string \<Rightarrow> json_object \<Rightarrow> (cache_error, unit) outcome \<times> 'r" where
  "PublishEvent R J cfg s channel message =
     (case js_Object J message of
        Err e \<Rightarrow> (Err (MarshalFailed e), s)
      | Panic p \<Rightarrow> (Panic p, s)
      | Ok data \<Rightarrow> command_result (rd_Publish R s (cacheKey cfg channel) data))"

text \<open>
  What the forwarding goroutine sees: a message, a nil message of a closed channel, or the end of the
  context. It forwards the payloads until the context ends.
\<close>

datatype pubsub_event = Message bytes | NilMessage | ContextEnds

fun forwardEvents :: "pubsub_event list \<Rightarrow> bytes list" where
  "forwardEvents [] = []"
| "forwardEvents (Message payload # evs) = payload # forwardEvents evs"
| "forwardEvents (NilMessage # evs) = forwardEvents evs"
| "forwardEvents (ContextEnds # evs) = []"

definition SubscribeToEvents ::
  "'r redis_ops \<Rightarrow> RedisConfig \<Rightarrow> 'r \<Rightarrow> string \<Rightarrow> pubsub_event list \<Rightarrow> (cache_error, bytes list) outcome \<times> 'r" where
  "SubscribeToEvents R cfg s channel events =
     (case rd_Subscribe R s (cacheKey cfg channel) of
        (Some e, s) \<Rightarrow> (Err (SubscribeFailed e), s)
      | (None, s) \<Rightarrow> (Ok (forwardEvents events), s))"

definition cache_GetStats :: "'r redis_ops \<Rightarrow> 'r \<Rightarrow> (cache_error, string \<times> pool_stats) outcome" where
  "cache_GetStats R s =
     bind_outcome (wrap_error RedisStatsFailed (rd_Info R s ''stats'')) (\<lambda>info. Ok (info, rd_PoolStats R s))"

definition FlushAll :: "'r redis_ops \<Rightarrow> RedisConfig \<Rightarrow> int \<Rightarrow> 'r \<Rightarrow> (cache_error, unit) outcome \<times> 'r" where
  "FlushAll R cfg now s =
     (case rd_Keys R now s (cacheKey cfg ''*'') of
        Err e \<Rightarrow> (Err (GetKeysFailed e), s)
      | Panic p \<Rightarrow> (Panic p, s)
      | Ok keys \<Rightarrow> if length keys > 0 then command_result (rd_Del R now s keys) else (Ok (), s))"

section \<open>What the server promises\<close>

text \<open>
  \<open>live s t k\<close> is the value of key \<open>k\<close> at time \<open>t\<close> if nothing is written until then: nothing appears by
  itself, a value stored with a lifetime (0 means none) is there until it is over, \<open>KEYS\<close> with a
  pattern that is a plain string and a star finds the live keys with that prefix, and \<open>DEL\<close> removes
  the keys it is given.
\<close>

definition plain_pattern :: "string \<Rightarrow> bool" where
  "plain_pattern p \<longleftrightarrow> (\<forall>c \<in> set p. c \<noteq> CHR ''*'' \<and> c \<noteq> CHR ''?'' \<and> c \<noteq> CHR ''['' \<and> c \<noteq> CHR 0x5C)"

definition redis_contract :: "'r redis_ops \<Rightarrow> ('r \<Rightarrow> int \<Rightarrow> string \<Rightarrow> bytes option) \<Rightarrow> bool" where
  "redis_contract R live \<longleftrightarrow>
     (\<forall>t s k. rd_Get R t s k = (case live s t k of None \<Rightarrow> Err RedisNil | Some d \<Rightarrow> Ok d)) \<and>
     (\<forall>t s k d ttl. \<exists>s'. rd_Set R t s k d ttl = (None, s') \<and>
        (\<forall>t' \<ge> t. live s' t' = (live s t')(k := if ttl = 0 \<or> t' < t + ttl then Some d else None))) \<and>
     (\<forall>t s p. plain_pattern p \<longrightarrow>
        (\<exists>ks. rd_Keys R t s (p @ ''*'') = Ok ks \<and> distinct ks \<and> set ks = {k. prefix p k \<and> live s t k \<noteq> None})) \<and>
     (\<forall>t s ks. ks \<noteq> [] \<longrightarrow> (\<exists>s'. rd_Del R t s ks = (None, s') \<and>
        (\<forall>t' \<ge> t. live s' t' = (\<lambda>k. if k \<in> set ks then None else live s t' k)))) \<and>
     (\<forall>s t t' k. t \<le> t' \<longrightarrow> live s t' k \<noteq> None \<longrightarrow> live s t k \<noteq> None)"

lemma redis_get: "redis_contract R live \<Longrightarrow> rd_Get R t s k = (case live s t k of None \<Rightarrow> Err RedisNil | Some d \<Rightarrow> Ok d)"
  unfolding redis_contract_def by (elim conjE) (erule allE)+

lemma redis_set:
  assumes "redis_contract R live"
  obtains s' where "rd_Set R t s k d ttl = (None, s')"
    and "\<And>t'. t \<le> t' \<Longrightarrow> live s' t' = (live s t')(k := if ttl = 0 \<or> t' < t + ttl then Some d else None)"
proof -
  have "\<exists>s'. rd_Set R t s k d ttl = (None, s') \<and>
      (\<forall>t' \<ge> t. live s' t' = (live s t')(k := if ttl = 0 \<or> t' < t + ttl then Some d else None))"
    using assms unfolding redis_contract_def by (elim conjE) (erule allE)+
  then show ?thesis using that by blast
qed

lemma redis_keys:
  assumes "redis_contract R live" and "plain_pattern p"
  obtains ks where "rd_Keys R t s (p @ ''*'') = Ok ks" and "distinct ks" and "set ks = {k. prefix p k \<and> live s t k \<noteq> None}"
proof -
  have "\<forall>t s p. plain_pattern p \<longrightarrow>
      (\<exists>ks. rd_Keys R t s (p @ ''*'') = Ok ks \<and> distinct ks \<and> set ks = {k. prefix p k \<and> live s t k \<noteq> None})"
    using assms(1) unfolding redis_contract_def by (elim conjE)
  then show ?thesis using that assms(2) by blast
qed

lemma redis_del:
  assumes "redis_contract R live" and "ks \<noteq> []"
  obtains s' where "rd_Del R t s ks = (None, s')"
    and "\<And>t'. t \<le> t' \<Longrightarrow> live s' t' = (\<lambda>k. if k \<in> set ks then None else live s t' k)"
proof -
  have "\<forall>t s ks. ks \<noteq> [] \<longrightarrow> (\<exists>s'. rd_Del R t s ks = (None, s') \<and>
      (\<forall>t' \<ge> t. live s' t' = (\<lambda>k. if k \<in> set ks then None else live s t' k)))"
    using assms(1) unfolding redis_contract_def by (elim conjE)
  then show ?thesis using that assms(2) by blast
qed

lemma redis_live_mono: "redis_contract R live \<Longrightarrow> t \<le> t' \<Longrightarrow> live s t' k \<noteq> None \<Longrightarrow> live s t k \<noteq> None"
  unfolding redis_contract_def by metis

section \<open>Keys do not collide\<close>

lemma cacheKey_inject [simp]: "cacheKey cfg a = cacheKey cfg b \<longleftrightarrow> a = b"
  by (simp add: cacheKey_def)

lemma blockKey_inject [simp]: "blockKey m = blockKey n \<longleftrightarrow> m = n"
  by (simp add: blockKey_def word_unat_eq_iff)

lemma hashKey_inject [simp]: "hashKey a = hashKey b \<longleftrightarrow> a = b"
  by (simp add: hashKey_def hex_bytes_inject)

lemma block_not_hash: "blockKey n \<noteq> hashKey h"
proof -
  obtain c cs where c: "decimal (unat n) = c # cs" by (cases "decimal (unat n)") simp_all
  then have "is_digit c" using decimal_digits [of "unat n"] by simp
  then show ?thesis using c by (auto simp: blockKey_def hashKey_def is_digit_def)
qed

lemma key_kinds:
  "blockKey n \<noteq> checkpointKey m" "blockKey n \<noteq> statusKey i" "blockKey n \<noteq> counterKey c"
  "hashKey h \<noteq> checkpointKey m" "hashKey h \<noteq> statusKey i" "checkpointKey m \<noteq> statusKey i"
  by (simp_all add: blockKey_def hashKey_def checkpointKey_def statusKey_def counterKey_def)

lemmas key_distinct = block_not_hash block_not_hash [symmetric] key_kinds key_kinds [symmetric]

section \<open>Values\<close>

lemma cacheGet_live:
  "redis_contract R live \<Longrightarrow> cacheGet R cfg un t s k =
     (case live s t (cacheKey cfg k) of None \<Rightarrow> Err NotInCache | Some d \<Rightarrow> wrap_error UnmarshalFailed (un d))"
  by (simp add: cacheGet_def redis_get split: option.split)

lemma cacheSet_live:
  assumes "redis_contract R live"
  obtains s' where "cacheSet R cfg (Ok d) t s k ttl = (Ok (), s')"
    and "\<And>t'. t \<le> t' \<Longrightarrow> live s' t' = (live s t')(cacheKey cfg k := if ttl = 0 \<or> t' < t + ttl then Some d else None)"
proof -
  obtain s' where s': "rd_Set R t s (cacheKey cfg k) d ttl = (None, s')"
    "\<And>t'. t \<le> t' \<Longrightarrow> live s' t' = (live s t')(cacheKey cfg k := if ttl = 0 \<or> t' < t + ttl then Some d else None)"
    using redis_set [OF assms] by blast
  then show ?thesis by (intro that [of s']) (simp_all add: cacheSet_def)
qed


text \<open>
  \<open>FlushAll\<close> removes the entries with the configured prefix and no others; without a prefix, which is
  how the node configures the cache, it removes every key of the database, whoever stored it.
\<close>

theorem flush_scope:
  assumes "redis_contract R live" and "plain_pattern (rcf_Prefix cfg)" and "now \<le> now'"
  shows "\<exists>s'. FlushAll R cfg now s = (Ok (), s') \<and>
    live s' now' = (\<lambda>k. if rcf_Prefix cfg = '''' \<or> prefix (rcf_Prefix cfg @ '':'') k then None else live s now' k)"
proof -
  let ?p = "cacheKey cfg ''''"
  have "plain_pattern ?p" using assms(2) by (auto simp: plain_pattern_def cacheKey_def)
  then obtain ks where ks: "rd_Keys R now s (?p @ ''*'') = Ok ks" "set ks = {k. prefix ?p k \<and> live s now k \<noteq> None}"
    by (rule redis_keys [OF assms(1), of ?p now s]) blast
  have key: "cacheKey cfg ''*'' = ?p @ ''*''" by (simp add: cacheKey_def)
  have p: "prefix ?p k \<longleftrightarrow> rcf_Prefix cfg = '''' \<or> prefix (rcf_Prefix cfg @ '':'') k" for k by (simp add: cacheKey_def)
  have gone: "live s now k = None \<Longrightarrow> live s now' k = None" for k using redis_live_mono [OF assms(1,3)] by metis
  show ?thesis
  proof (cases "ks = []")
    case True
    then have "live s now' k = None" if "prefix ?p k" for k using ks(2) gone that by auto
    then show ?thesis using True ks(1) by (intro exI [of _ s]) (auto simp: FlushAll_def key p fun_eq_iff)
  next
    case False
    then obtain s' where s': "rd_Del R now s ks = (None, s')" "live s' now' = (\<lambda>k. if k \<in> set ks then None else live s now' k)"
      using redis_del [OF assms(1)] assms(3) by metis
    then show ?thesis using False ks gone by (intro exI [of _ s']) (auto simp: FlushAll_def key p fun_eq_iff)
  qed
qed

section \<open>Status entries\<close>

lemma statusEntries_fst: "set ks \<subseteq> range (\<lambda>i. cacheKey cfg (statusKey i)) \<Longrightarrow> distinct ks \<Longrightarrow>
    distinct (map fst (statusEntries R J cfg t s ks)) \<and>
    fst ` set (statusEntries R J cfg t s ks) \<subseteq> {i. cacheKey cfg (statusKey i) \<in> set ks}"
proof (induction ks)
  case (Cons k ks)
  obtain i where k: "k = cacheKey cfg (statusKey i)" using Cons.prems(1) by auto
  have "drop (length (cacheKey cfg (statusKey ''''))) k = i" by (simp add: k cacheKey_def statusKey_def)
  then show ?case using Cons k by (auto split: outcome.split)
qed simp

lemma statusEntries_in: "set ks \<subseteq> range (\<lambda>i. cacheKey cfg (statusKey i)) \<Longrightarrow>
    (i, st) \<in> set (statusEntries R J cfg t s ks) \<longleftrightarrow>
    cacheKey cfg (statusKey i) \<in> set ks \<and>
    (\<exists>d. rd_Get R t s (cacheKey cfg (statusKey i)) = Ok d \<and> js_unObject J d = Ok st)"
proof (induction ks)
  case (Cons k ks)
  obtain j where k: "k = cacheKey cfg (statusKey j)" using Cons.prems by auto
  have "drop (length (cacheKey cfg (statusKey ''''))) k = j" by (simp add: k cacheKey_def statusKey_def)
  moreover have "cacheKey cfg (statusKey a) = cacheKey cfg (statusKey b) \<longleftrightarrow> a = b" for a b by (simp add: statusKey_def)
  ultimately show ?case using Cons k by (auto split: outcome.splits)
qed simp

text \<open>What a reader of the statuses gets from a reachable server: the decodable live entries, each instance once.\<close>

lemma all_statuses:
  assumes "redis_contract R live" and "plain_pattern (rcf_Prefix cfg)"
  obtains entries where "GetAllInstanceStatuses R J cfg t s = Ok entries" and "distinct (map fst entries)"
    and "\<And>i st. (i, st) \<in> set entries \<longleftrightarrow> (\<exists>d. live s t (cacheKey cfg (statusKey i)) = Some d \<and> js_unObject J d = Ok st)"
proof -
  define p where "p = cacheKey cfg (statusKey '''')"
  have "plain_pattern p" using assms(2) by (auto simp: plain_pattern_def cacheKey_def statusKey_def p_def)
  then obtain ks where ks: "rd_Keys R t s (p @ ''*'') = Ok ks" "distinct ks" "set ks = {k. prefix p k \<and> live s t k \<noteq> None}"
    by (rule redis_keys [OF assms(1), of p t s]) (rule that)
  have app: "cacheKey cfg (statusKey i) = p @ i" for i by (simp add: cacheKey_def statusKey_def p_def)
  have range: "set ks \<subseteq> range (\<lambda>i. cacheKey cfg (statusKey i))" using ks(3) by (auto simp: app prefix_def)
  show ?thesis
  proof (rule that [of "statusEntries R J cfg t s ks"])
    show "GetAllInstanceStatuses R J cfg t s = Ok (statusEntries R J cfg t s ks)"
      using ks(1) app [of "''*''"] by (simp add: GetAllInstanceStatuses_def)
    show "distinct (map fst (statusEntries R J cfg t s ks))" by (rule statusEntries_fst [OF range ks(2), THEN conjunct1])
    show "(i, st) \<in> set (statusEntries R J cfg t s ks) \<longleftrightarrow>
        (\<exists>d. live s t (cacheKey cfg (statusKey i)) = Some d \<and> js_unObject J d = Ok st)" for i st
      unfolding statusEntries_in [OF range] ks(3) redis_get [OF assms(1)] by (auto simp: app split: option.splits)
  qed
qed

lemma heartbeat_fresh: "fresh t' c (sendHeartbeat t d) \<longleftrightarrow> t' - t div 1000000000 * 1000000000 \<le> cc_PeerTimeout (cl_config c)"
proof -
  have "float_to_int (rat_of_int n) = n" for n by (simp add: float_to_int_def)
  then show ?thesis by (simp add: fresh_def as_number_def or_zero_def sendHeartbeat_def)
qed

text \<open>
  C37. The life of a heartbeat, from the sender's \<open>SetSyncStatus\<close> through Redis to the peer's
  \<open>discoverPeers\<close>: while the entry lives (a minute) the peer counts the sender as healthy exactly as
  long as the heartbeat is not older than the peer timeout; once the entry has expired discovery does
  not see it any more and leaves the sender in whatever state it was.
\<close>

theorem heartbeat_life_cycle:
  assumes "redis_contract R live" and "plain_pattern (rcf_Prefix cfg)" and "cl_instanceID d \<noteq> cl_instanceID c"
    and "js_Object J (sendHeartbeat t d) = Ok data" and "js_unObject J data = Ok (sendHeartbeat t d)" and "t \<le> t'"
  shows "\<exists>s' entries. SetSyncStatus R J cfg t s (cl_instanceID d) (sendHeartbeat t d) = (Ok (), s') \<and>
    GetAllInstanceStatuses R J cfg t' s' = Ok entries \<and>
    (cl_instanceID d \<in> healthy_peers (discoverPeers t' (Some entries) c) \<longleftrightarrow>
      (if t' < t + 60000000000 then t' - t div 1000000000 * 1000000000 \<le> cc_PeerTimeout (cl_config c)
       else cl_instanceID d \<in> healthy_peers c))"
proof -
  let ?k = "cacheKey cfg (statusKey (cl_instanceID d))"
  obtain s' where s': "cacheSet R cfg (Ok data) t s (statusKey (cl_instanceID d)) 60000000000 = (Ok (), s')"
    "live s' t' = (live s t')(?k := if t' < t + 60000000000 then Some data else None)"
    using assms(6) by (auto intro: cacheSet_live [OF assms(1), of cfg data t s "statusKey (cl_instanceID d)" 60000000000])
  obtain entries where e: "GetAllInstanceStatuses R J cfg t' s' = Ok entries" "distinct (map fst entries)"
    "\<And>i st. (i, st) \<in> set entries \<longleftrightarrow> (\<exists>d. live s' t' (cacheKey cfg (statusKey i)) = Some d \<and> js_unObject J d = Ok st)"
    by (rule all_statuses [OF assms(1,2), of J t' s']) blast
  have mem: "(cl_instanceID d, st) \<in> set entries \<longleftrightarrow> t' < t + 60000000000 \<and> st = sendHeartbeat t d" for st
    using e(3) [of "cl_instanceID d" st] s'(2) assms(5) by (auto split: if_splits)
  have "cl_instanceID d \<in> fst ` set entries \<longleftrightarrow> t' < t + 60000000000" using mem by (force simp: image_iff)
  then have "cl_instanceID d \<in> healthy_peers (discoverPeers t' (Some entries) c) \<longleftrightarrow>
      (if t' < t + 60000000000 then fresh t' c (sendHeartbeat t d) else cl_instanceID d \<in> healthy_peers c)"
    using assms(3) by (simp add: discoverPeers_def healthy_discover [OF e(2)] mem)
  then show ?thesis using s'(1) e(1) assms(4)
    by (intro exI [of _ s'] exI [of _ entries]) (simp add: SetSyncStatus_def heartbeat_fresh)
qed

section \<open>A server and worked examples\<close>

text \<open>A list of entries with the time they expire, newest first.\<close>

type_synonym ex_redis = "(string \<times> bytes \<times> int option) list"

fun ex_live :: "ex_redis \<Rightarrow> int \<Rightarrow> string \<Rightarrow> bytes option" where
  "ex_live s t k =
     (case map_of s k of
        Some (d, e) \<Rightarrow> (case e of None \<Rightarrow> Some d | Some x \<Rightarrow> if t < x then Some d else None)
      | None \<Rightarrow> None)"

definition ex_redis_ops :: "ex_redis redis_ops" where
  "ex_redis_ops =
     \<lparr>rd_Ping = \<lambda>s. None, rd_Get = \<lambda>t s k. (case ex_live s t k of None \<Rightarrow> Err RedisNil | Some d \<Rightarrow> Ok d),
      rd_GetInt64 = \<lambda>t s k. Ok 0,
      rd_Set = \<lambda>t s k d ttl. (None, (k, d, if ttl = 0 then None else Some (t + ttl)) # s),
      rd_SetInt64 = \<lambda>t s k v ttl. (None, s), rd_Incr = \<lambda>t s k. (Ok 1, s),
      rd_Keys = \<lambda>t s pat. Ok (filter (\<lambda>k. prefix (butlast pat) k \<and> ex_live s t k \<noteq> None) (remdups (map fst s))),
      rd_Del = \<lambda>t s ks. (None, filter (\<lambda>(k, v). k \<notin> set ks) s),
      rd_Publish = \<lambda>s c d. (None, s), rd_Subscribe = \<lambda>s c. (None, s), rd_Info = \<lambda>s k. Ok '''',
      rd_PoolStats = \<lambda>s. \<lparr>pl_Hits = 0, pl_Misses = 0, pl_Timeouts = 0, pl_TotalConns = 1, pl_IdleConns = 1, pl_StaleConns = 0\<rparr>,
      rd_Close = \<lambda>s. (None, s)\<rparr>"

lemma map_of_filter_keys: "map_of (filter (\<lambda>(k, v). k \<notin> A) s) k = (if k \<in> A then None else map_of s k)"
  by (induction s) auto

lemma ex_live_known: "ex_live s t k \<noteq> None \<Longrightarrow> k \<in> fst ` set s"
  by (auto split: option.splits dest: map_of_SomeD) (metis fst_conv image_eqI map_of_SomeD)+

lemma ex_redis_contract: "redis_contract ex_redis_ops ex_live"
  unfolding redis_contract_def
proof (intro conjI allI impI)
  show "rd_Get ex_redis_ops t s k = (case ex_live s t k of None \<Rightarrow> Err RedisNil | Some d \<Rightarrow> Ok d)" for t s k
    by (simp add: ex_redis_ops_def del: ex_live.simps)
  show "\<exists>s'. rd_Set ex_redis_ops t s k d ttl = (None, s') \<and>
      (\<forall>t' \<ge> t. ex_live s' t' = (ex_live s t')(k := if ttl = 0 \<or> t' < t + ttl then Some d else None))" for t s k d ttl
    by (auto simp: ex_redis_ops_def fun_eq_iff)
  show "\<exists>ks. rd_Keys ex_redis_ops t s (p @ ''*'') = Ok ks \<and> distinct ks \<and> set ks = {k. prefix p k \<and> ex_live s t k \<noteq> None}"
    if "plain_pattern p" for t s p
    using ex_live_known [of s t] by (force simp: ex_redis_ops_def butlast_append simp del: ex_live.simps)
  show "\<exists>s'. rd_Del ex_redis_ops t s ks = (None, s') \<and> (\<forall>t' \<ge> t. ex_live s' t' = (\<lambda>k. if k \<in> set ks then None else ex_live s t' k))"
    for t s ks by (auto simp: ex_redis_ops_def fun_eq_iff map_of_filter_keys)
  show "ex_live s t k \<noteq> None" if "t \<le> t'" "ex_live s t' k \<noteq> None" for s t t' k
    using that by (auto split: option.splits if_splits)
qed

definition ex_codec :: "Block \<Rightarrow> json_object \<Rightarrow> json_codec" where
  "ex_codec b st =
     \<lparr>js_Block = \<lambda>_. Ok [0], js_unBlock = \<lambda>_. Ok b, js_Checkpoint = \<lambda>_. Err '''', js_unCheckpoint = \<lambda>_. Err '''',
      js_Object = \<lambda>_. Ok [1], js_unObject = \<lambda>_. Ok st\<rparr>"

definition ex_cache_config :: "string \<Rightarrow> RedisConfig" where
  "ex_cache_config p = \<lparr>rcf_URL = ''redis://cache:6379'', rcf_Password = '''', rcf_DB = 0, rcf_MaxRetries = 0, rcf_PoolSize = 0,
     rcf_MinIdleConn = 0, rcf_TTL = 100, rcf_Prefix = p\<rparr>"


theorem flush_scope_witness:
  "\<exists>s'. FlushAll ex_redis_ops (ex_cache_config '''') 0 [(''other:app'', [7], None)] = (Ok (), s') \<and> ex_live s' 1 = Map.empty"
  using flush_scope [OF ex_redis_contract, of "ex_cache_config ''''" 0 1 "[(''other:app'', [7], None)]"]
  by (simp add: ex_cache_config_def plain_pattern_def del: ex_live.simps)

theorem heartbeat_life_cycle_witness:
  "\<exists>s' entries. SetSyncStatus ex_redis_ops (ex_codec (example_block 0) (sendHeartbeat 0 (ex_cluster ''a'' []))) (ex_cache_config '''') 0 []
      ''a'' (sendHeartbeat 0 (ex_cluster ''a'' [])) = (Ok (), s') \<and>
    GetAllInstanceStatuses ex_redis_ops (ex_codec (example_block 0) (sendHeartbeat 0 (ex_cluster ''a'' []))) (ex_cache_config '''') 59999999999 s' =
      Ok entries \<and>
    (''a'' \<in> healthy_peers (discoverPeers 59999999999 (Some entries) (ex_cluster ''b'' [(''a'', True)])) \<longleftrightarrow>
      59999999999 \<le> cc_PeerTimeout (cl_config (ex_cluster ''b'' [])))"
  using heartbeat_life_cycle [OF ex_redis_contract, of "ex_cache_config ''''" "ex_cluster ''a'' []" "ex_cluster ''b'' [(''a'', True)]"
      "ex_codec (example_block 0) (sendHeartbeat 0 (ex_cluster ''a'' []))" 0 "[1]" 59999999999 "[]"]
  by (simp add: ex_cache_config_def plain_pattern_def ex_codec_def ex_cluster_def del: ex_live.simps)

end
