(* ===== verification/Health_Monitor.thy ===== *)
theory Health_Monitor
  imports Sync_Coordinator
begin

text \<open>
  \<open>pkg/health/monitor.go\<close>: periodic health checks. A check is a value of the interface
  \<open>HealthCheck\<close>: its name, whether it is critical, and what it answers in a state \<open>'w\<close> of the
  service (\<open>None\<close> is a nil error). A result keeps the error itself instead of its text. \<open>now\<close> is the
  time in nanoseconds; the iteration over a map is a list of its keys.
\<close>

section \<open>Model\<close>

datatype health_error =
    StorageEmpty
  | ForwardSyncStalled
  | NoPeersConnected
  | PeersBelowMinimum int int
  | CacheUnreachable string

record 'w HealthCheck =
  hc_Name :: string
  hc_Check :: "'w \<Rightarrow> health_error option"
  hc_Critical :: bool

record MonitorConfig =
  mc_CheckInterval :: int
  mc_UnhealthyTimeout :: int
  mc_EnableAutoHeal :: bool

text \<open>The message of a result is \<open>OK\<close> or the error.\<close>

record CheckResult =
  cr_Name :: string
  cr_Healthy :: bool
  cr_Message :: "health_error option"
  cr_LastChecked :: int
  cr_Duration :: int
  cr_ErrorCount :: u64

record 'm HealthStatus =
  hs_Healthy :: bool
  hs_LastCheck :: int
  hs_Uptime :: int
  hs_StartTime :: int
  hs_CheckResults :: "(string, CheckResult) fmap"
  hs_Metrics :: "(string, 'm) fmap"

record ('w, 'm) Monitor =
  mo_config :: MonitorConfig
  mo_checks :: "(string, 'w HealthCheck) fmap"
  mo_status :: "'m HealthStatus"

definition NewMonitor :: "int \<Rightarrow> MonitorConfig \<Rightarrow> ('w, 'm) Monitor" where
  "NewMonitor now cfg =
     (let cfg = (if mc_CheckInterval cfg = 0 then cfg\<lparr>mc_CheckInterval := 10 * 1000000000\<rparr> else cfg);
          cfg = (if mc_UnhealthyTimeout cfg = 0 then cfg\<lparr>mc_UnhealthyTimeout := 30 * 1000000000\<rparr> else cfg) in
      \<lparr>mo_config = cfg, mo_checks = fmempty,
       mo_status = \<lparr>hs_Healthy = True, hs_LastCheck = 0, hs_Uptime = 0, hs_StartTime = now,
         hs_CheckResults = fmempty, hs_Metrics = fmempty\<rparr>\<rparr>)"

definition RegisterCheck :: "('w, 'm) Monitor \<Rightarrow> 'w HealthCheck \<Rightarrow> ('w, 'm) Monitor" where
  "RegisterCheck m check = m\<lparr>mo_checks := fmupd (hc_Name check) check (mo_checks m)\<rparr>"

text \<open>A check that starts at \<open>start\<close> and takes \<open>duration\<close>.\<close>

definition runCheck :: "'w \<Rightarrow> int \<Rightarrow> int \<Rightarrow> 'w HealthCheck \<Rightarrow> CheckResult" where
  "runCheck w start duration check =
     (let result = \<lparr>cr_Name = hc_Name check, cr_Healthy = False, cr_Message = None, cr_LastChecked = start,
            cr_Duration = duration, cr_ErrorCount = 0\<rparr> in
      case hc_Check check w of
        Some err \<Rightarrow> result\<lparr>cr_Healthy := False, cr_Message := Some err, cr_ErrorCount := cr_ErrorCount result + 1\<rparr>
      | None \<Rightarrow> result\<lparr>cr_Healthy := True, cr_Message := None\<rparr>)"

text \<open>The loop of \<open>executeChecks\<close>; \<open>durations\<close> is how long each check takes.\<close>

fun checkLoop ::
  "'w \<Rightarrow> int \<Rightarrow> (string \<Rightarrow> int) \<Rightarrow> 'w HealthCheck list \<Rightarrow> (string, CheckResult) fmap \<Rightarrow> bool \<Rightarrow>
   (string, CheckResult) fmap \<times> bool" where
  "checkLoop w now durations [] results healthy = (results, healthy)"
| "checkLoop w now durations (check # checks) results healthy =
     (let result = runCheck w now (durations (hc_Name check)) check in
      checkLoop w now durations checks (fmupd (hc_Name check) result results)
        (if hc_Critical check \<and> \<not> cr_Healthy result then False else healthy))"

text \<open>The names \<open>attemptAutoHeal\<close> prints; there is nothing else to the healing.\<close>

definition attemptAutoHeal :: "string list \<Rightarrow> (string, CheckResult) fmap \<Rightarrow> string list" where
  "attemptAutoHeal names results =
     filter (\<lambda>n. case fmlookup results n of
        None \<Rightarrow> False | Some result \<Rightarrow> \<not> cr_Healthy result \<and> cr_ErrorCount result > 3) names"

text \<open>\<open>order\<close> is the order of the map iteration; the second result is what the healing attempts.\<close>

definition executeChecks ::
  "'w \<Rightarrow> int \<Rightarrow> (string \<Rightarrow> int) \<Rightarrow> string list \<Rightarrow> ('w, 'm) Monitor \<Rightarrow> ('w, 'm) Monitor \<times> string list" where
  "executeChecks w now durations order m =
     (let checks = List.map_filter (fmlookup (mo_checks m)) order;
          (results, overallHealthy) = checkLoop w now durations checks fmempty True;
          currentStatus = mo_status m;
          newStatus = \<lparr>hs_Healthy = overallHealthy, hs_LastCheck = now, hs_Uptime = now - hs_StartTime currentStatus,
            hs_StartTime = hs_StartTime currentStatus, hs_CheckResults = results, hs_Metrics = hs_Metrics currentStatus\<rparr> in
      (m\<lparr>mo_status := newStatus\<rparr>,
       if \<not> overallHealthy \<and> mc_EnableAutoHeal (mo_config m) then attemptAutoHeal order results else []))"

text \<open>
  \<open>runChecks\<close>: a round of checks at once and one at every tick, until \<open>Stop\<close>. A round is the state of the
  world, the time, the durations and the order of iteration; what the healing attempts is collected.
\<close>

fun runChecks ::
  "('w \<times> int \<times> (string \<Rightarrow> int) \<times> string list) list \<Rightarrow> ('w, 'm) Monitor \<Rightarrow> ('w, 'm) Monitor \<times> string list" where
  "runChecks [] m = (m, [])"
| "runChecks ((w, now, durations, order) # rounds) m =
     (let (m, healed) = executeChecks w now durations order m; (m, more) = runChecks rounds m in (m, healed @ more))"

definition GetHealthStatus :: "('w, 'm) Monitor \<Rightarrow> 'm HealthStatus" where
  "GetHealthStatus m = mo_status m"

definition IsHealthy :: "('w, 'm) Monitor \<Rightarrow> bool" where
  "IsHealthy m = hs_Healthy (mo_status m)"

text \<open>
  \<open>UpdateMetrics\<close> loads the status, builds a new one from it and stores that; the two halves are
  separate so that a check may run between them.
\<close>

definition metricsStatus :: "int \<Rightarrow> 'm HealthStatus \<Rightarrow> (string, 'm) fmap \<Rightarrow> 'm HealthStatus" where
  "metricsStatus now status metrics =
     \<lparr>hs_Healthy = hs_Healthy status, hs_LastCheck = hs_LastCheck status, hs_Uptime = now - hs_StartTime status,
      hs_StartTime = hs_StartTime status, hs_CheckResults = hs_CheckResults status, hs_Metrics = metrics\<rparr>"

definition UpdateMetrics :: "int \<Rightarrow> ('w, 'm) Monitor \<Rightarrow> (string, 'm) fmap \<Rightarrow> ('w, 'm) Monitor" where
  "UpdateMetrics now m metrics = m\<lparr>mo_status := metricsStatus now (mo_status m) metrics\<rparr>"

subsection \<open>The common checks\<close>

text \<open>
  Each takes how the component it looks at is read from the state of the service. The name of a
  check is fixed, and \<open>critical\<close> is set by its constructor.
\<close>

definition NewStorageHealthCheck :: "('w \<Rightarrow> u64) \<Rightarrow> 'w HealthCheck" where
  "NewStorageHealthCheck getMaxBlock =
     \<lparr>hc_Name = ''storage'', hc_Check = (\<lambda>w. if getMaxBlock w = 0 then Some StorageEmpty else None), hc_Critical = True\<rparr>"

definition NewCacheHealthCheck :: "('w \<Rightarrow> string option) \<Rightarrow> 'w HealthCheck" where
  "NewCacheHealthCheck healthCheck =
     \<lparr>hc_Name = ''cache'', hc_Check = (\<lambda>w. map_option CacheUnreachable (healthCheck w)), hc_Critical = False\<rparr>"

definition syncCheck :: "SyncStatus \<Rightarrow> health_error option" where
  "syncCheck status =
     (if \<not> ss_ValidatorReady status then None
      else if fst_BlocksPerSec (ss_ForwardSync status) = 0 then Some ForwardSyncStalled
      else None)"

definition NewSyncHealthCheck :: "('w \<Rightarrow> SyncStatus) \<Rightarrow> 'w HealthCheck" where
  "NewSyncHealthCheck getStatus =
     \<lparr>hc_Name = ''sync'', hc_Check = (\<lambda>w. syncCheck (getStatus w)), hc_Critical = True\<rparr>"

definition p2pCheck :: "int \<Rightarrow> int \<Rightarrow> health_error option" where
  "p2pCheck minPeers peerCount =
     (if peerCount = 0 then Some NoPeersConnected
      else if peerCount < minPeers then Some (PeersBelowMinimum peerCount minPeers)
      else None)"

definition NewP2PHealthCheck :: "('w \<Rightarrow> int) \<Rightarrow> int \<Rightarrow> 'w HealthCheck" where
  "NewP2PHealthCheck getPeerCount minPeers =
     \<lparr>hc_Name = ''p2p'', hc_Check = (\<lambda>w. p2pCheck minPeers (getPeerCount w)), hc_Critical = False\<rparr>"

definition NewMemoryHealthCheck :: "u64 \<Rightarrow> 'w HealthCheck" where
  "NewMemoryHealthCheck maxMemoryMB = \<lparr>hc_Name = ''memory'', hc_Check = (\<lambda>w. None), hc_Critical = False\<rparr>"

section \<open>Results\<close>

lemma runCheck_simps [simp]:
  "cr_Healthy (runCheck w now d c) \<longleftrightarrow> hc_Check c w = None"
  "cr_Message (runCheck w now d c) = hc_Check c w"
  "cr_ErrorCount (runCheck w now d c) = (if hc_Check c w = None then 0 else 1)"
  "cr_Name (runCheck w now d c) = hc_Name c"
  by (simp_all add: runCheck_def Let_def split: option.split)

text \<open>Checks are registered under their own names.\<close>

definition monitor_ok :: "('w, 'm) Monitor \<Rightarrow> bool" where
  "monitor_ok m \<longleftrightarrow> (\<forall>n c. fmlookup (mo_checks m) n = Some c \<longrightarrow> hc_Name c = n)"

lemma monitor_ok_new: "monitor_ok (NewMonitor now cfg)"
  by (simp add: monitor_ok_def NewMonitor_def Let_def)

lemma monitor_ok_register: "monitor_ok m \<Longrightarrow> monitor_ok (RegisterCheck m c)"
  by (auto simp: monitor_ok_def RegisterCheck_def)

lemma checkLoop_verdict:
  "snd (checkLoop w now d cs rs h) \<longleftrightarrow> h \<and> (\<forall>c \<in> set cs. hc_Critical c \<longrightarrow> hc_Check c w = None)"
  by (induction cs arbitrary: rs h) (auto simp: Let_def)

lemma checkLoop_results:
  assumes "\<forall>c \<in> set cs. \<forall>c' \<in> set cs. hc_Name c = hc_Name c' \<longrightarrow> c = c'"
  shows "fmlookup (fst (checkLoop w now d cs rs h)) n =
    (case find (\<lambda>c. hc_Name c = n) cs of Some c \<Rightarrow> Some (runCheck w now (d n) c) | None \<Rightarrow> fmlookup rs n)"
  using assms
proof (induction cs arbitrary: rs h)
  case (Cons c cs)
  show ?case
  proof (cases "find (\<lambda>c. hc_Name c = n) cs")
    case None
    with Cons show ?thesis by (auto simp: Let_def)
  next
    case (Some c')
    then have "c' \<in> set cs" "hc_Name c' = n" by (auto simp: find_Some_iff)
    with Some Cons show ?thesis by (auto simp: Let_def)
  qed
qed simp

lemma heal_nothing:
  assumes "\<And>n r. fmlookup rs n = Some r \<Longrightarrow> cr_ErrorCount r \<le> 1"
  shows "attemptAutoHeal names rs = []"
proof -
  have "\<not> 3 < cr_ErrorCount r" if "fmlookup rs n = Some r" for n r
    using assms [OF that] by (simp add: not_less word_le_nat_alt)
  then show ?thesis by (auto simp: attemptAutoHeal_def filter_empty_conv split: option.split)
qed

lemma checkLoop_counts:
  "(\<And>n r. fmlookup rs n = Some r \<Longrightarrow> cr_ErrorCount r \<le> 1) \<Longrightarrow>
   fmlookup (fst (checkLoop w now d cs rs h)) n = Some r \<Longrightarrow> cr_ErrorCount r \<le> 1"
proof (induction cs arbitrary: rs h)
  case (Cons c cs)
  have "cr_ErrorCount r' \<le> 1" if "fmlookup (fmupd (hc_Name c) (runCheck w now (d (hc_Name c)) c) rs) m = Some r'" for m r'
    using that Cons.prems(1) by (auto split: if_splits)
  from Cons.IH [where rs = "fmupd (hc_Name c) (runCheck w now (d (hc_Name c)) c) rs", OF this] Cons.prems(2)
  show ?case by (simp add: Let_def)
qed simp

lemma executeChecks_parts:
  "hs_CheckResults (mo_status (fst (executeChecks w now d order m))) =
     fst (checkLoop w now d (List.map_filter (fmlookup (mo_checks m)) order) fmempty True)"
  "snd (executeChecks w now d order m) =
     (if \<not> IsHealthy (fst (executeChecks w now d order m)) \<and> mc_EnableAutoHeal (mo_config m)
      then attemptAutoHeal order (fst (checkLoop w now d (List.map_filter (fmlookup (mo_checks m)) order) fmempty True)) else [])"
  by (simp_all add: executeChecks_def IsHealthy_def Let_def split: prod.split)

lemma executeChecks_healthy:
  "IsHealthy (fst (executeChecks w now d order m)) \<longleftrightarrow>
     (\<forall>n \<in> set order. \<forall>c. fmlookup (mo_checks m) n = Some c \<longrightarrow> hc_Critical c \<longrightarrow> hc_Check c w = None)"
proof -
  have "set (List.map_filter (fmlookup (mo_checks m)) order) = {c. \<exists>n \<in> set order. fmlookup (mo_checks m) n = Some c}"
    by (force simp: List.map_filter_def image_iff)
  then show ?thesis
    using checkLoop_verdict [of w now d "List.map_filter (fmlookup (mo_checks m)) order" fmempty True]
    by (auto simp: executeChecks_def IsHealthy_def Let_def split: prod.split)
qed

text \<open>However long the monitor has run, its verdict is that of the last round.\<close>

lemma executeChecks_frame:
  "mo_checks (fst (executeChecks w now d order m)) = mo_checks m" "mo_config (fst (executeChecks w now d order m)) = mo_config m"
  by (simp_all add: executeChecks_def Let_def split: prod.split)

lemma runChecks_step:
  "fst (runChecks ((w, now, durations, order) # rounds) m) = fst (runChecks rounds (fst (executeChecks w now durations order m)))"
  by (simp add: Let_def split: prod.split)

lemma runChecks_config: "mo_checks (fst (runChecks rounds m)) = mo_checks m"
proof (induction rounds arbitrary: m)
  case (Cons r rounds)
  then show ?case by (cases r) (simp add: runChecks_step executeChecks_frame del: runChecks.simps)
qed simp

lemma runChecks_last:
  "fst (runChecks (rounds @ [(w, now, durations, order)]) m) = fst (executeChecks w now durations order (fst (runChecks rounds m)))"
proof (induction rounds arbitrary: m)
  case (Cons r rounds)
  then show ?case by (cases r) (simp add: runChecks_step del: runChecks.simps)
qed (simp add: Let_def split: prod.split)

lemma runChecks_verdict:
  "IsHealthy (fst (runChecks (rounds @ [(w, now, durations, order)]) m)) \<longleftrightarrow>
     (\<forall>n \<in> set order. \<forall>c. fmlookup (mo_checks m) n = Some c \<longrightarrow> hc_Critical c \<longrightarrow> hc_Check c w = None)"
  unfolding runChecks_last executeChecks_healthy by (simp add: runChecks_config)

lemma registered_names_unique:
  assumes "monitor_ok m"
  shows "\<forall>c \<in> set (List.map_filter (fmlookup (mo_checks m)) order).
    \<forall>c' \<in> set (List.map_filter (fmlookup (mo_checks m)) order). hc_Name c = hc_Name c' \<longrightarrow> c = c'"
  using assms by (fastforce simp: monitor_ok_def List.map_filter_def)

lemma find_same_key:
  "x \<in> set xs \<Longrightarrow> \<forall>y \<in> set xs. \<forall>z \<in> set xs. f y = f z \<longrightarrow> y = z \<Longrightarrow> find (\<lambda>y. f y = f x) xs = Some x"
  by (induction xs) auto

lemma find_registered:
  assumes "monitor_ok m" and "fset (fmdom (mo_checks m)) \<subseteq> set order"
  shows "find (\<lambda>c. hc_Name c = n) (List.map_filter (fmlookup (mo_checks m)) order) = fmlookup (mo_checks m) n"
proof (cases "fmlookup (mo_checks m) n")
  case None
  then show ?thesis using assms(1) by (auto simp: monitor_ok_def List.map_filter_def find_None_iff)
next
  case (Some c)
  then have "n \<in> set order" using assms(2) by (auto simp: fmlookup_dom_iff)
  then have "c \<in> set (List.map_filter (fmlookup (mo_checks m)) order)" using Some by (force simp: List.map_filter_def)
  moreover have "hc_Name c = n" using Some assms(1) by (simp add: monitor_ok_def)
  ultimately have "find (\<lambda>x. hc_Name x = hc_Name c) (List.map_filter (fmlookup (mo_checks m)) order) = Some c"
    using find_same_key [OF _ registered_names_unique [OF assms(1)]] by blast
  with \<open>hc_Name c = n\<close> Some show ?thesis by simp
qed

section \<open>Properties\<close>

text \<open>
  C32. A round of checks, in whatever order the map is iterated, marks the service healthy exactly
  when every registered critical check passes, and records one result per registered check, with
  the error it returned. No healing is ever attempted: a result starts with an error count of 0,
  so it never gets past 1, while the healing asks for more than 3.
\<close>

theorem health_verdict_exact:
  assumes "monitor_ok m" and "set order = fset (fmdom (mo_checks m))"
  shows "(IsHealthy (fst (executeChecks w now d order m)) \<longleftrightarrow>
      (\<forall>n c. fmlookup (mo_checks m) n = Some c \<longrightarrow> hc_Critical c \<longrightarrow> hc_Check c w = None)) \<and>
    map_option (\<lambda>r. (cr_Healthy r, cr_Message r))
        (fmlookup (hs_CheckResults (GetHealthStatus (fst (executeChecks w now d order m)))) n) =
      map_option (\<lambda>c. (hc_Check c w = None, hc_Check c w)) (fmlookup (mo_checks m) n) \<and>
    snd (executeChecks w now d order m) = []"
proof -
  let ?cs = "List.map_filter (fmlookup (mo_checks m)) order"
  have "fmlookup (fst (checkLoop w now d ?cs fmempty True)) n =
      map_option (runCheck w now (d n)) (fmlookup (mo_checks m) n)"
    using checkLoop_results [OF registered_names_unique [OF assms(1)]] find_registered [OF assms(1)] assms(2)
    by (simp split: option.split)
  then have "map_option (\<lambda>r. (cr_Healthy r, cr_Message r)) (fmlookup (fst (checkLoop w now d ?cs fmempty True)) n) =
      map_option (\<lambda>c. (hc_Check c w = None, hc_Check c w)) (fmlookup (mo_checks m) n)"
    by (simp add: option.map_comp comp_def)
  moreover have "attemptAutoHeal order (fst (checkLoop w now d ?cs fmempty True)) = []"
    by (rule heal_nothing, rule checkLoop_counts [rotated]) auto
  moreover have "IsHealthy (fst (executeChecks w now d order m)) \<longleftrightarrow>
      (\<forall>n c. fmlookup (mo_checks m) n = Some c \<longrightarrow> hc_Critical c \<longrightarrow> hc_Check c w = None)"
    using assms(2) by (fastforce simp: executeChecks_healthy fmlookup_dom_iff)
  ultimately show ?thesis by (simp add: executeChecks_parts GetHealthStatus_def)
qed

definition ex_monitor :: "(u64 \<times> int, unit) Monitor" where
  "ex_monitor = RegisterCheck (RegisterCheck (NewMonitor 0
     \<lparr>mc_CheckInterval = 0, mc_UnhealthyTimeout = 0, mc_EnableAutoHeal = True\<rparr>)
     (NewStorageHealthCheck fst)) (NewP2PHealthCheck snd 3)"

theorem health_verdict_exact_witness:
  "IsHealthy (fst (executeChecks (5, 1) 10 (\<lambda>_. 1) [''storage'', ''p2p''] ex_monitor)) \<and>
   snd (executeChecks (0, 1) 10 (\<lambda>_. 1) [''storage'', ''p2p''] ex_monitor) = []"
proof -
  have m: "monitor_ok ex_monitor" by (simp add: ex_monitor_def monitor_ok_new monitor_ok_register)
  have "set [''storage'', ''p2p''] = fset (fmdom (mo_checks ex_monitor))"
    by (simp add: ex_monitor_def RegisterCheck_def NewMonitor_def NewStorageHealthCheck_def NewP2PHealthCheck_def Let_def insert_commute)
  note rule = health_verdict_exact [OF m this]
  have "\<forall>n c. fmlookup (mo_checks ex_monitor) n = Some c \<longrightarrow> hc_Critical c \<longrightarrow> hc_Check c (5, 1) = None"
    by (simp add: ex_monitor_def RegisterCheck_def NewMonitor_def NewStorageHealthCheck_def NewP2PHealthCheck_def Let_def)
  then show ?thesis using rule [of "(5, 1)" 10 "\<lambda>_. 1" "''storage''"] rule [of "(0, 1)" 10 "\<lambda>_. 1" "''storage''"] by blast
qed

text \<open>
  A node that has caught up is reported as unhealthy. The target updater resets the count of
  synced blocks to 0 every time it runs; a status taken before the next block arrives shows a node
  that is ready for validator duties with 0 blocks per second, which the critical sync check calls
  stalled. A node that is not ready passes the same check.
\<close>

theorem caught_up_node_is_unhealthy:
  assumes "targetUpdate net f = Inr f'" and "fs_hasFetcher f \<longrightarrow> is_ok (if_FetchLatestBlockNumber net)"
    and "co_forwardSync c = Some f'"
    and "fmlookup (mo_checks m) ''sync'' = Some (NewSyncHealthCheck (\<lambda>c. coord_GetStatus c now))" and "''sync'' \<in> set order"
  shows "(IsValidatorReady (updateStatus ops c s) now \<longrightarrow>
      \<not> IsHealthy (fst (executeChecks (updateStatus ops c s) now' d order m))) \<and>
    (\<not> IsValidatorReady (updateStatus ops c s) now \<longrightarrow> syncCheck (coord_GetStatus (updateStatus ops c s) now) = None)"
proof -
  have "fs_blocksPerSec f' = 0"
    using assms(1,2) by (auto simp: targetUpdate_def is_ok_iff split: if_splits outcome.splits)
  then have bps: "fst_BlocksPerSec (fwd_GetStatus f') = 0"
    by (simp add: fwd_GetStatus_def Let_def f64_of_nat_def)
  have st: "ss_ForwardSync (co_status (updateStatus ops c s)) = fwd_GetStatus f'"
    "ss_ValidatorReady (co_status (updateStatus ops c s)) = validatorReady (fwd_GetStatus f')"
    using assms(3) by (simp_all add: updateStatus_def Let_def split: option.split)
  then have "syncCheck (coord_GetStatus (updateStatus ops c s) now) =
      (if IsValidatorReady (updateStatus ops c s) now then Some ForwardSyncStalled else None)"
    using bps by (simp add: syncCheck_def coord_GetStatus_def IsValidatorReady_def)
  then show ?thesis
    using assms(4,5) unfolding executeChecks_healthy by (fastforce simp: NewSyncHealthCheck_def)
qed

definition ex_latest_net :: block_fetcher where
  "ex_latest_net = \<lparr>if_FetchBlock = (\<lambda>n. Err NoHealthyClients), if_FetchBlocks = (\<lambda>a b. Err NoHealthyClients),
     if_FetchLatestBlockNumber = Ok 2000\<rparr>"

theorem caught_up_node_is_unhealthy_witness:
  "IsValidatorReady (updateStatus mem_ops (ex_coordinator 1999 2000) NewMemoryStorage) 0 \<and>
   \<not> IsHealthy (fst (executeChecks (updateStatus mem_ops (ex_coordinator 1999 2000) NewMemoryStorage) 0 (\<lambda>_. 0) [''sync'']
      (RegisterCheck (NewMonitor 0 \<lparr>mc_CheckInterval = 0, mc_UnhealthyTimeout = 0, mc_EnableAutoHeal = True\<rparr> :: (Coordinator, unit) Monitor)
        (NewSyncHealthCheck (\<lambda>c. coord_GetStatus c 0)))))"
proof -
  let ?m = "RegisterCheck (NewMonitor 0 \<lparr>mc_CheckInterval = 0, mc_UnhealthyTimeout = 0, mc_EnableAutoHeal = True\<rparr> :: (Coordinator, unit) Monitor)
    (NewSyncHealthCheck (\<lambda>c. coord_GetStatus c 0))"
  have f: "co_forwardSync (ex_coordinator 1999 2000) = Some (ex_syncer 1999 2000)" by (simp add: ex_coordinator_def)
  have ready: "IsValidatorReady (updateStatus mem_ops (ex_coordinator 1999 2000) NewMemoryStorage) 0"
    by (simp add: ready_iff_near [OF f] ex_syncer_def)
  moreover have "targetUpdate ex_latest_net (ex_syncer 1999 2000) = Inr (ex_syncer 1999 2000)"
    by (simp add: targetUpdate_def ex_latest_net_def ex_syncer_def NewForwardSyncer_def)
  moreover have "fmlookup (mo_checks ?m) ''sync'' = Some (NewSyncHealthCheck (\<lambda>c. coord_GetStatus c 0))"
    by (simp add: RegisterCheck_def NewMonitor_def NewSyncHealthCheck_def Let_def)
  ultimately show ?thesis
    using caught_up_node_is_unhealthy [of ex_latest_net "ex_syncer 1999 2000" "ex_syncer 1999 2000" "ex_coordinator 1999 2000" ?m
        0 "[''sync'']" mem_ops NewMemoryStorage] f by (simp add: ex_latest_net_def)
qed

text \<open>Without a registered check the service counts as healthy whatever its state.\<close>

lemma no_checks_always_healthy:
  "IsHealthy (fst (executeChecks w now d order (NewMonitor start cfg)))"
  by (simp add: executeChecks_healthy NewMonitor_def Let_def)

text \<open>
  \<open>UpdateMetrics\<close> copies the verdict it has loaded: a round of checks between its load and its
  store is lost.
\<close>

lemma metrics_update_loses_verdict:
  "IsHealthy ((fst (executeChecks w now d order m))\<lparr>mo_status := metricsStatus now' (mo_status m) metrics\<rparr>) = IsHealthy m"
  by (simp add: IsHealthy_def metricsStatus_def)

end
