(* ===== verification/Node_Main.thy ===== *)
theory Node_Main
  imports API_Server DevP2P_Server Redis_Cache Health_Monitor
begin

text \<open>
  \<open>main\<close> of \<open>cmd/hypasis-sync/main.go\<close>: the components are built from the configuration and started in
  order. What each of them does is modelled in its own theory; here are the order, the arguments and
  what an error of a step does: \<open>fatal\<close> ends the program, a warning leaves the component out. The
  interfaces \<open>Storage\<close> and \<open>Source\<close> are dispatched over the implementation that was chosen.
\<close>

section \<open>Dispatch\<close>

definition engine_ops :: "('d, 'b) pebble_env \<Rightarrow> 'd storage_engine storage_ops" where
  "engine_ops env =
     (let P = pebble_ops env; M = mem_ops;
          get = (\<lambda>f g e. case e of PebbleEngine s \<Rightarrow> f s | MemoryEngine s \<Rightarrow> g s);
          put = (\<lambda>f g e. case e of PebbleEngine s \<Rightarrow> map_prod id PebbleEngine (f s) | MemoryEngine s \<Rightarrow> map_prod id MemoryEngine (g s)) in
      \<lparr>st_HasBlock = (\<lambda>e n. get (\<lambda>s. st_HasBlock P s n) (\<lambda>s. st_HasBlock M s n) e),
       st_GetBlock = (\<lambda>e n. case e of PebbleEngine s \<Rightarrow> st_GetBlock P s n | MemoryEngine s \<Rightarrow> st_GetBlock M s n),
       st_GetBlockByHash = (\<lambda>e h. case e of PebbleEngine s \<Rightarrow> st_GetBlockByHash P s h | MemoryEngine s \<Rightarrow> st_GetBlockByHash M s h),
       st_StoreBlock = (\<lambda>e b. put (\<lambda>s. st_StoreBlock P s b) (\<lambda>s. st_StoreBlock M s b) e),
       st_StoreBlocks = (\<lambda>e bs. put (\<lambda>s. st_StoreBlocks P s bs) (\<lambda>s. st_StoreBlocks M s bs) e),
       st_GetBlocks = (\<lambda>e a z. case e of PebbleEngine s \<Rightarrow> st_GetBlocks P s a z | MemoryEngine s \<Rightarrow> st_GetBlocks M s a z),
       st_GetGaps = (\<lambda>e. case e of PebbleEngine s \<Rightarrow> st_GetGaps P s | MemoryEngine s \<Rightarrow> st_GetGaps M s),
       st_GetAvailableRanges = (\<lambda>e. case e of PebbleEngine s \<Rightarrow> st_GetAvailableRanges P s | MemoryEngine s \<Rightarrow> st_GetAvailableRanges M s),
       st_GetNextGap = (\<lambda>e. case e of PebbleEngine s \<Rightarrow> st_GetNextGap P s | MemoryEngine s \<Rightarrow> st_GetNextGap M s),
       st_GetMinBlock = (\<lambda>e. case e of PebbleEngine s \<Rightarrow> st_GetMinBlock P s | MemoryEngine s \<Rightarrow> st_GetMinBlock M s),
       st_GetMaxBlock = (\<lambda>e. case e of PebbleEngine s \<Rightarrow> st_GetMaxBlock P s | MemoryEngine s \<Rightarrow> st_GetMaxBlock M s),
       st_GetBlockCount = (\<lambda>e. case e of PebbleEngine s \<Rightarrow> st_GetBlockCount P s | MemoryEngine s \<Rightarrow> st_GetBlockCount M s)\<rparr>)"

fun on_source :: "(L1Source \<Rightarrow> ('a \<times> L1Source) option) \<Rightarrow> (MockSource \<Rightarrow> ('a \<times> MockSource) option) \<Rightarrow> checkpoint_source \<Rightarrow>
   ('a \<times> checkpoint_source) option" where
  "on_source f g (L1CheckpointSource s) = map_option (map_prod id L1CheckpointSource) (f s)"
| "on_source f g (MockCheckpointSource s) = map_option (map_prod id MockCheckpointSource) (g s)"

definition source_dispatch :: "(address \<Rightarrow> string) \<Rightarrow> contract \<Rightarrow> checkpoint_source source_ops" where
  "source_dispatch hex call =
     \<lparr>so_FetchLatest = on_source (so_FetchLatest (l1_ops hex call)) (so_FetchLatest mock_ops),
      so_FetchByNumber = (\<lambda>s n. on_source (\<lambda>l. so_FetchByNumber (l1_ops hex call) l n) (\<lambda>m. so_FetchByNumber mock_ops m n) s),
      so_FetchRange = (\<lambda>s a z. on_source (\<lambda>l. so_FetchRange (l1_ops hex call) l a z) (\<lambda>m. so_FetchRange mock_ops m a z) s)\<rparr>"

section \<open>Starting the node\<close>

text \<open>
  Everything outside: the configuration file, the database, the RPC endpoints, Redis, the P2P library
  and the certificate files.
\<close>

record ('d, 'b, 'w, 'c, 'r, 'n, 'k, 'q, 'x) main_env =
  me_load :: "string \<Rightarrow> (config_error, Config) outcome"
  me_pebble :: "('d, 'b) pebble_env"
  me_dialL1 :: "string \<Rightarrow> string option"
  me_hexToAddress :: "string \<Rightarrow> address"
  me_hex :: "address \<Rightarrow> string"
  me_contract :: contract
  me_rpc :: "('w, 'c) rpc_env"
  me_parseRedis :: "string \<Rightarrow> (string, redis_options) outcome"
  me_newRedis :: "redis_options \<Rightarrow> 'r"
  me_redis :: "'r redis_ops"
  me_node :: "('n, 'k) node_env"
  me_tls :: "('q, 'x) tls_env"
  me_files :: files

record ('d, 'c, 'r, 'n, 'k, 'l, 'x) Node =
  nd_config :: Config
  nd_fetcher :: "'c BlockFetcher"
  nd_forward :: "'d storage_engine fwd_state option"
  nd_cluster :: "(ClusterCoordinator \<times> string list \<times> 'r) option"
  nd_devp2p :: "('d storage_engine, 'n, 'k) DevP2PServer option"
  nd_monitor :: "(unit, unit) Monitor"
  nd_api :: "('d storage_engine, checkpoint_source, 'l, 'x) Server"

datatype fatal_error =
    LoadConfigFatal config_error
  | InitStorageFatal new_storage_error
  | CheckpointSourceFatal l1_error
  | StartManagerFatal manager_error
  | InitFetcherFatal fetch_error
  | StartCoordinatorFatal sync_error
  | StartAPIFatal api_error

text \<open>\<open>Start\<close> of the cluster coordinator: the loops that run afterwards. A failed subscription is only reported.\<close>

definition cluster_Start :: "'r redis_ops \<Rightarrow> RedisConfig \<Rightarrow> ClusterCoordinator \<Rightarrow> 'r \<Rightarrow> string list \<times> 'r" where
  "cluster_Start R cfg c s =
     (case SubscribeToEvents R cfg s ''cluster:events'' [] of
        (r, s) \<Rightarrow> ([''heartbeat'', ''discovery''] @ (if is_ok r then [''events''] else []) @
          (if cc_LeaderElection (cl_config c) then [''election''] else []), s))"

definition redisConfig :: "Config \<Rightarrow> RedisConfig" where
  "redisConfig cfg =
     \<lparr>rcf_URL = clc_RedisURL (cfg_Cluster cfg), rcf_Password = clc_RedisPassword (cfg_Cluster cfg), rcf_DB = 0, rcf_MaxRetries = 0,
      rcf_PoolSize = 0, rcf_MinIdleConn = 0, rcf_TTL = 24 * 3600000000000, rcf_Prefix = ''''\<rparr>"

definition startCluster :: "('d, 'b, 'w, 'c, 'r, 'n, 'k, 'q, 'x) main_env \<Rightarrow> Config \<Rightarrow> (ClusterCoordinator \<times> string list \<times> 'r) option" where
  "startCluster ME cfg =
     (if clc_Enabled (cfg_Cluster cfg) \<and> clc_RedisURL (cfg_Cluster cfg) \<noteq> '''' then
        (case NewRedisCache (me_parseRedis ME) (me_newRedis ME) (me_redis ME) (redisConfig cfg) of
           Ok client \<Rightarrow>
             (let c = NewClusterCoordinator \<lparr>cc_InstanceID = cloud_InstanceID (cfg_Cloud cfg), cc_Region = cloud_Region (cfg_Cloud cfg),
                    cc_HeartbeatPeriod = 10 * 1000000000, cc_PeerTimeout = 30 * 1000000000, cc_EnableMeshSync = False, cc_LeaderElection = True\<rparr>
              in Some (c, cluster_Start (me_redis ME) (redisConfig cfg) c client))
         | _ \<Rightarrow> None)
      else None)"

definition startDevP2P ::
  "('d, 'b, 'w, 'c, 'r, 'n, 'k, 'q, 'x) main_env \<Rightarrow> Config \<Rightarrow> 'd storage_engine \<Rightarrow> ('d storage_engine, 'n, 'k) DevP2PServer option" where
  "startDevP2P ME cfg store =
     (if p2c_Mode (cfg_P2P cfg) = ''devp2p'' then
        (case NewDevP2PServer (me_node ME) \<lparr>dv_ListenAddr = p2c_Listen (cfg_P2P cfg), dv_ExternalIP = '''', dv_MaxPeers = p2c_MaxPeers (cfg_P2P cfg),
             dv_NodeKey = '''', dv_NetworkID = of_int (ncc_ChainID (cfg_Chain cfg)), dv_Name = ''hypasis-node'', dv_Bootnodes = [],
             dv_StaticPeers = [], dv_EnableNAT = False\<rparr> store of
           Ok ds \<Rightarrow> (case devp2p_Start (me_node ME) ds of (Ok _, ds) \<Rightarrow> Some ds | _ \<Rightarrow> None)
         | _ \<Rightarrow> None)
      else None)"

text \<open>The steps up to the running coordinator. \<open>None\<close>: the checkpoint manager does not return.\<close>

definition startManager ::
  "('d, 'b, 'w, 'c, 'r, 'n, 'k, 'q, 'x) main_env \<Rightarrow> Config \<Rightarrow> (fatal_error, checkpoint_source Manager) outcome option" where
  "startManager ME cfg =
     (case newCheckpointSource (me_dialL1 ME) (me_hexToAddress ME) (cfg_Checkpoint cfg) (ncc_ChainID (cfg_Chain cfg)) of
        Err e \<Rightarrow> Some (Err (CheckpointSourceFatal e))
      | Panic p \<Rightarrow> Some (Panic p)
      | Ok source \<Rightarrow>
          map_option (\<lambda>(r, m). bind_outcome (wrap_error StartManagerFatal r) (\<lambda>_. Ok m))
            (mgr_Start (source_dispatch (me_hex ME) (me_contract ME)) (newCheckpointValidator (cfg_Checkpoint cfg)) (NewManager source)))"

definition startServices ::
  "('d, 'b, 'w, 'c, 'r, 'n, 'k, 'q, 'x) main_env \<Rightarrow> int \<Rightarrow> Config \<Rightarrow> 'd storage_engine \<Rightarrow> checkpoint_source Manager \<Rightarrow>
   (fatal_error, ('d, 'c, 'r, 'n, 'k, 'l, 'x) Node) outcome" where
  "startServices ME now cfg store mgr =
     bind_outcome (wrap_error InitFetcherFatal
       (NewBlockFetcher (me_rpc ME) (p2c_UpstreamRPCs (cfg_P2P cfg)) (p2c_RPCTimeout (cfg_P2P cfg)) (p2c_RPCMaxRetries (cfg_P2P cfg)))) (\<lambda>fetcher.
     bind_outcome (wrap_error StartCoordinatorFatal
       (coord_Start (NewCoordinator (cfg_Sync cfg) (GetLatest mgr) True now) (GetLatest mgr) store)) (\<lambda>(coordinator, forward).
     case api_Start (me_tls ME) (me_files ME) (NewServer (cfg_API cfg) coordinator store mgr) of
       (Err e, _) \<Rightarrow> Err (StartAPIFatal e)
     | (Panic p, _) \<Rightarrow> Panic p
     | (Ok _, api) \<Rightarrow>
         Ok \<lparr>nd_config = cfg, nd_fetcher = fetcher, nd_forward = forward, nd_cluster = startCluster ME cfg, nd_devp2p = startDevP2P ME cfg store,
             nd_monitor = NewMonitor now \<lparr>mc_CheckInterval = 5 * 60000000000, mc_UnhealthyTimeout = 15 * 60000000000, mc_EnableAutoHeal = True\<rparr>,
             nd_api = api\<rparr>))"

definition startNode ::
  "('d, 'b, 'w, 'c, 'r, 'n, 'k, 'q, 'x) main_env \<Rightarrow> int \<Rightarrow> string \<Rightarrow> string \<Rightarrow>
   (fatal_error, ('d, 'c, 'r, 'n, 'k, 'l, 'x) Node) outcome option" where
  "startNode ME now configPath dataDir =
     (case bind_outcome (wrap_error LoadConfigFatal (nodeConfig (me_load ME) configPath dataDir)) (\<lambda>cfg.
           bind_outcome (wrap_error InitStorageFatal (NewStorage (me_pebble ME) (Some (cfg_Storage cfg)))) (\<lambda>store.
           Ok (cfg, store))) of
        Err e \<Rightarrow> Some (Err e)
      | Panic p \<Rightarrow> Some (Panic p)
      | Ok (cfg, store) \<Rightarrow>
          map_option (\<lambda>r. bind_outcome r (startServices ME now cfg store)) (startManager ME cfg))"

section \<open>The node with the built-in configuration\<close>

lemma mock_manager_dispatch:
  "mgr_Start (source_dispatch hex call) devValidator (NewManager (MockCheckpointSource NewMockSource)) =
     Some (Ok (), \<lparr>mg_source = MockCheckpointSource NewMockSource,
       mg_checkpoints = fmupd 100000 (Some (mock_checkpoint 100000)) fmempty, mg_latest = Some (mock_checkpoint 100000)\<rparr>)"
  by (simp add: mgr_Start_def updateLatestCheckpoint_def NewManager_def source_dispatch_def mock_ops_def mock_FetchLatest_def mock_latest_def
      NewMockSource_def generateMockCheckpoints_def devValidator_def dev_Verify_def upt_rec mock_checkpoint_def)

lemma mock_chain_starts:
  assumes "ckc_L1RPCURL (cfg_Checkpoint cfg) = '''' \<or> ckc_Source (cfg_Checkpoint cfg) \<noteq> ''ethereum-l1''"
  shows "\<exists>m. startManager ME cfg = Some (Ok m) \<and> GetLatest m = Some (mock_checkpoint 100000)"
proof -
  have "newCheckpointSource (me_dialL1 ME) (me_hexToAddress ME) (cfg_Checkpoint cfg) (ncc_ChainID (cfg_Chain cfg)) =
      Ok (MockCheckpointSource NewMockSource)" "newCheckpointValidator (cfg_Checkpoint cfg) = devValidator"
    using assms by (auto simp: newCheckpointSource_def newCheckpointValidator_def)
  then show ?thesis by (simp add: startManager_def mock_manager_dispatch GetLatest_def)
qed

text \<open>The first request from an address passes the limiter.\<close>

lemma first_request_passes:
  assumes "bucket_contract R rps bst tokens valid" and "0 < rate" and "0 < burst" and "g s = NewPerIPRateLimiter rate burst interval"
  shows "\<exists>l. PerIPMiddleware R now g put h s r = h (put l s) r"
proof -
  let ?b = "rt_NewLimiter R rate burst"
  obtain ok b1 where a: "rt_AllowN R now 1 ?b = (ok, b1)" by fastforce
  have b: "rps ?b = rate" "valid ?b now" "tokens ?b now = of_int burst"
    using bucket_new [OF assms(1), of rate burst now] assms(2,3) by simp_all
  have "(1 :: rat) \<le> of_int burst" using assms(3) of_int_le_iff [of 1 burst, where 'a = rat] by simp
  then have "ok" using bucket_allow [OF assms(1) _ _ b(2) a] b assms(2) by simp
  then show ?thesis using a assms(4) by (auto simp: PerIPMiddleware_def GetLimiter_def NewPerIPRateLimiter_def Let_def)
qed

lemma open_pause:
  fixes s :: "('s, 'c, 'b, 'x) Server"
  assumes "mux_contract M" and "bucket_contract R rps bst tokens valid" and "sv_jwtManager s = None"
    and "sv_rateLimiter s = Some (NewPerIPRateLimiter rate burst interval)" and "0 < rate" and "0 < burst"
    and "rq_Method r = ''POST''" and "rq_Path r = ''/api/v1/sync/pause''"
  shows "sv_coordinator (snd (serveREST M J R ops now s r)) = PauseBackwardSync (sv_coordinator s)"
proof -
  let ?rs = "routes J ops now None :: ('s, 'c, 'b, 'x) route list"
  let ?f = "\<lambda>(method, path, h). (method, path)"
  have "(rq_Method r, rq_Path r) \<in> set (map ?f ?rs)" using assms(7,8) by (simp add: routes_def)
  then obtain i where i: "M (map ?f ?rs) (rq_Method r) (rq_Path r) = Matched i" using mux_match(3) [OF assms(1)] by blast
  have "(rq_Method r, rq_Path r, snd (snd (?rs ! i))) \<in> set ?rs" by (rule routes_handler [OF assms(1) i])
  then have "snd (snd (?rs ! i)) = handlePauseBackwardSync" using assms(7,8) by (simp add: routes_def)
  then have e: "serveREST M J R ops now s r = globalMiddleware R now (apc_REST (sv_config s)) True handlePauseBackwardSync s r"
    using i assms(3,4) by (simp add: serveREST_def Let_def)
  obtain l where "PerIPMiddleware R now (\<lambda>s. the (sv_rateLimiter s)) setLimiter handlePauseBackwardSync s r =
      handlePauseBackwardSync (setLimiter l s) r"
    using first_request_passes [OF assms(2,5,6), of "\<lambda>s. the (sv_rateLimiter s)" s interval now setLimiter
      handlePauseBackwardSync r] assms(4) by auto
  then show ?thesis unfolding e using assms(7)
    by (simp add: globalMiddleware_def LoggingMiddleware_def CORSMiddleware_def handlePauseBackwardSync_def setLimiter_def addLog_def Let_def)
qed

lemma default_api_starts:
  "\<exists>api. api_Start E fs (NewServer (cfg_API DefaultConfig) coordinator store mgr) = (Ok (), api) \<and> sv_jwtManager api = None \<and>
    sv_rateLimiter api = Some (NewPerIPRateLimiter 100 200 600000000000) \<and> sv_checkpoint api = mgr \<and> sv_coordinator api = coordinator \<and>
    sv_storage api = store"
  by (simp add: api_Start_def NewServer_def startRESTServer_def startMetricsServer_def DefaultConfig_def Let_def)

lemma default_coordinator_starts:
  "\<exists>c st. coord_Start (NewCoordinator (cfg_Sync DefaultConfig) (Some cp) True now) (Some cp) store = Ok (c, Some st) \<and>
    fs_currentBlock (fw_sync st) = cp_BlockNumber cp \<and> (\<exists>b. co_backwardSync c = Some b \<and> \<not> bs_paused b)"
  by (simp add: coord_Start_def NewCoordinator_def DefaultConfig_def fwd_Start_def bwd_Start_def NewForwardSyncer_def NewBackwardSyncer_def Let_def)


lemma default_fetcher:
  assumes "rpc_Dial rpc ''https://polygon-rpc.com'' \<noteq> None"
  shows "\<exists>f. NewBlockFetcher rpc (p2c_UpstreamRPCs (cfg_P2P DefaultConfig)) t n = Ok f"
  using assms by (auto simp: NewBlockFetcher_def DefaultConfig_def Let_def)

definition bareConfig :: Config where
  "bareConfig = DefaultConfig\<lparr>cfg_Storage := (cfg_Storage DefaultConfig)\<lparr>stc_DataDir := ''./data''\<rparr>\<rparr>"

lemma bareConfig_simps [simp]:
  "cfg_API bareConfig = cfg_API DefaultConfig" "cfg_Sync bareConfig = cfg_Sync DefaultConfig" "cfg_P2P bareConfig = cfg_P2P DefaultConfig"
  "clc_Enabled (cfg_Cluster bareConfig) = False" "p2c_Mode (cfg_P2P DefaultConfig) = ''rpc-server''"
  "ckc_L1RPCURL (cfg_Checkpoint bareConfig) = ''''"
  by (simp_all add: bareConfig_def DefaultConfig_def)

lemma default_node_starts:
  fixes ME :: "('d, 'b, 'w, 'c, 'r, 'n, 'k, 'q, 'x) main_env"
  assumes "NewStorage (me_pebble ME) (Some (cfg_Storage bareConfig)) = Ok store" and "rpc_Dial (me_rpc ME) ''https://polygon-rpc.com'' \<noteq> None"
  shows "\<exists>nd :: ('d, 'c, 'r, 'n, 'k, 'l, 'x) Node. startNode ME now '''' '''' = Some (Ok nd) \<and> nd_config nd = bareConfig \<and>
    GetLatest (sv_checkpoint (nd_api nd)) = Some (mock_checkpoint 100000) \<and> nd_cluster nd = None \<and> nd_devp2p nd = None \<and>
    nd_monitor nd = NewMonitor now \<lparr>mc_CheckInterval = 5 * 60000000000, mc_UnhealthyTimeout = 15 * 60000000000, mc_EnableAutoHeal = True\<rparr> \<and>
    sv_storage (nd_api nd) = store \<and> sv_jwtManager (nd_api nd) = None \<and>
    sv_rateLimiter (nd_api nd) = Some (NewPerIPRateLimiter 100 200 600000000000) \<and>
    (\<exists>b. co_backwardSync (sv_coordinator (nd_api nd)) = Some b \<and> \<not> bs_paused b)"
proof -
  obtain m where m: "startManager ME bareConfig = Some (Ok m)" "GetLatest m = Some (mock_checkpoint 100000)"
    using mock_chain_starts [of bareConfig ME] by auto
  let ?cp = "mock_checkpoint 100000"
  obtain c st where c: "coord_Start (NewCoordinator (cfg_Sync DefaultConfig) (Some ?cp) True now) (Some ?cp) store = Ok (c, Some st)"
    "\<exists>b. co_backwardSync c = Some b \<and> \<not> bs_paused b" using default_coordinator_starts [of ?cp now store] by blast
  obtain f where f: "NewBlockFetcher (me_rpc ME) (p2c_UpstreamRPCs (cfg_P2P DefaultConfig)) (p2c_RPCTimeout (cfg_P2P DefaultConfig))
      (p2c_RPCMaxRetries (cfg_P2P DefaultConfig)) = Ok f" using default_fetcher [OF assms(2)] by blast
  obtain api :: "('d storage_engine, checkpoint_source, 'l, 'x) Server" where api:
    "api_Start (me_tls ME) (me_files ME) (NewServer (cfg_API DefaultConfig) c store m) = (Ok (), api)"
    "sv_jwtManager api = None" "sv_rateLimiter api = Some (NewPerIPRateLimiter 100 200 600000000000)" "sv_checkpoint api = m"
    "sv_coordinator api = c" "sv_storage api = store" using default_api_starts [of "me_tls ME" "me_files ME" c store m] by blast
  have "nodeConfig (me_load ME) '''' '''' = Ok bareConfig" by (simp add: nodeConfig_def bareConfig_def)
  then show ?thesis
    using assms(1) m c f api by (simp add: startNode_def startServices_def startCluster_def startDevP2P_def)
qed

text \<open>
  C27. The program started without flags, as soon as its database opens and the built-in upstream endpoint
  can be dialled, comes up anchored to the made-up checkpoint 100000 of the mock source, with no
  cluster coordinator, no DevP2P server and a health monitor without checks that reports healthy
  forever; and its REST API lets anybody pause the running backward sync.
\<close>

theorem default_node_is_open:
  fixes ME :: "('d, 'b, 'w, 'c, 'r, 'n, 'k, 'q, 'x) main_env" and R :: "('l, 'e, 'z) rate_ops"
  assumes "mux_contract M" and "bucket_contract R rps bst tokens valid"
    and "NewStorage (me_pebble ME) (Some (cfg_Storage bareConfig)) = Ok store"
    and "rpc_Dial (me_rpc ME) ''https://polygon-rpc.com'' \<noteq> None"
    and "rq_Method r = ''POST''" and "rq_Path r = ''/api/v1/sync/pause''"
  shows "\<exists>nd. startNode ME now '''' '''' = Some (Ok nd) \<and> GetLatest (sv_checkpoint (nd_api nd)) = Some (mock_checkpoint 100000) \<and>
    nd_cluster nd = None \<and> nd_devp2p nd = None \<and> IsHealthy (fst (executeChecks w t d order (nd_monitor nd))) \<and>
    (\<exists>b. co_backwardSync (sv_coordinator (nd_api nd)) = Some b \<and> \<not> bs_paused b) \<and>
    sv_coordinator (snd (serveREST M J R ops now' (nd_api nd) r)) = PauseBackwardSync (sv_coordinator (nd_api nd))"
proof -
  obtain nd :: "('d, 'c, 'r, 'n, 'k, 'l, 'x) Node" where nd: "startNode ME now '''' '''' = Some (Ok nd)"
    "GetLatest (sv_checkpoint (nd_api nd)) = Some (mock_checkpoint 100000)" "nd_cluster nd = None" "nd_devp2p nd = None"
    "nd_monitor nd = NewMonitor now \<lparr>mc_CheckInterval = 5 * 60000000000, mc_UnhealthyTimeout = 15 * 60000000000, mc_EnableAutoHeal = True\<rparr>"
    "sv_jwtManager (nd_api nd) = None" "sv_rateLimiter (nd_api nd) = Some (NewPerIPRateLimiter 100 200 600000000000)"
    "\<exists>b. co_backwardSync (sv_coordinator (nd_api nd)) = Some b \<and> \<not> bs_paused b"
    using default_node_starts [OF assms(3,4), of now] by blast
  have "sv_coordinator (snd (serveREST M J R ops now' (nd_api nd) r)) = PauseBackwardSync (sv_coordinator (nd_api nd))"
    by (rule open_pause [OF assms(1,2) nd(6,7) _ _ assms(5,6)]) simp_all
  with nd no_checks_always_healthy show ?thesis by auto
qed

text \<open>A world in which everything can be reached.\<close>

definition ex_main ::
  "(bytes \<rightharpoonup> bytes, (bytes \<times> bytes) list, unit, string, ex_redis, unit, unit, unit, unit) main_env" where
  "ex_main =
     \<lparr>me_load = \<lambda>_. Ok DefaultConfig, me_pebble = map_env Map.empty, me_dialL1 = \<lambda>_. None, me_hexToAddress = \<lambda>_. 0, me_hex = \<lambda>_. '''',
      me_contract = ex_contract, me_rpc = ex_rpc, me_parseRedis = \<lambda>_. Err '''', me_newRedis = \<lambda>_. [], me_redis = ex_redis_ops,
      me_node = \<lparr>ne_LoadECDSA = \<lambda>_. Ok (), ne_GenerateKey = Ok (), ne_OpenDB = Ok (), ne_SplitHostPort = \<lambda>_. Err '''',
        ne_ParseNode = \<lambda>_. Ok (), ne_ParseIP = Some, ne_StartServer = \<lambda>_. None, ne_Self = \<lambda>_. (), ne_TCP = \<lambda>_. 0, ne_UDP = \<lambda>_. 0,
        ne_NewV4 = \<lambda>_ _ _ _. (), ne_URLv4 = \<lambda>_. '''', ne_ExternalIP = Err ''''\<rparr>,
      me_tls = ex_tls 0, me_files = Map.empty\<rparr>"

lemma ex_main_storage: "\<exists>store. NewStorage (me_pebble ex_main) (Some (cfg_Storage bareConfig)) = Ok store"
proof -
  have "ToLower ''pebble'' = ''pebble''" by code_simp
  then show ?thesis
    by (simp add: NewStorage_def bareConfig_def DefaultConfig_def ex_main_def NewPebbleStorage_def loadGapTracker_def map_env_def Let_def)
qed

theorem default_node_is_open_witness:
  "\<exists>nd. startNode ex_main 0 '''' '''' = Some (Ok nd) \<and> GetLatest (sv_checkpoint (nd_api nd)) = Some (mock_checkpoint 100000) \<and>
    sv_coordinator (snd (serveREST ex_mux (ex_api_env []) ex_rate (engine_ops (me_pebble ex_main)) 5 (nd_api nd)
      (ex_api_request ''/api/v1/sync/pause'' ''forged'' None))) \<noteq> sv_coordinator (nd_api nd)"
proof -
  obtain store where s: "NewStorage (me_pebble ex_main) (Some (cfg_Storage bareConfig)) = Ok store" using ex_main_storage by blast
  let ?r = "ex_api_request ''/api/v1/sync/pause'' ''forged'' None"
  have "rpc_Dial (me_rpc ex_main) ''https://polygon-rpc.com'' \<noteq> None" by (simp add: ex_main_def ex_rpc_def)
  moreover have "rq_Method ?r = ''POST''" "rq_Path ?r = ''/api/v1/sync/pause''" by (simp_all add: ex_api_request_def)
  moreover have "PauseBackwardSync c \<noteq> c" if "\<exists>b. co_backwardSync c = Some b \<and> \<not> bs_paused b" for c
  proof
    assume "PauseBackwardSync c = c"
    then have "co_backwardSync (PauseBackwardSync c) = co_backwardSync c" by simp
    with that show False by (auto simp: PauseBackwardSync_def Pause_def) (metis BackwardSyncer.select_convs(7) BackwardSyncer.surjective BackwardSyncer.update_convs(7))
  qed
  ultimately show ?thesis
    using default_node_is_open [OF ex_mux_contract ex_rate_contract s, of ?r 0 "()" 0 "\<lambda>_. 0" "[]" "ex_api_env []" "engine_ops (me_pebble ex_main)" 5]
    by metis
qed

end
