(* ===== verification/Storage_Engine.thy ===== *)
theory Storage_Engine
  imports Node_Main
begin

text \<open>
  The storage a running node works on: the engine that \<open>NewStorage\<close> chose, behind the interface
  \<open>Storage\<close>. The locale \<open>batch_store\<close> extends the contract of the interface by what \<open>StoreBlocks\<close>
  promises; both engines keep it, and so does the dispatch \<open>engine_ops\<close> over them.
\<close>

section \<open>The contract of batches\<close>

locale batch_store = block_store +
  assumes batch_effect: "inv s \<Longrightarrow> list_all storable bs \<Longrightarrow> st_StoreBlocks ops s (map Some bs) = (r, s') \<Longrightarrow>
    (\<And>p. r \<noteq> Panic p) \<Longrightarrow> inv s' \<and> (view s' = view s \<or> view s' = view_after (view s) bs)"

lemma view_after_Cons: "view_after v (b # bs) = view_after (case block_number b of None \<Rightarrow> v | Some n \<Rightarrow> v(n \<mapsto> b)) bs"
  by (simp add: view_after_def)

lemma view_after_find: "view_after v bs = v ++ (\<lambda>n. find (\<lambda>b. block_number b = Some n) (rev bs))"
proof (induction bs arbitrary: v)
  case (Cons b bs)
  show ?case
    unfolding view_after_Cons using Cons.IH by (auto simp: fun_eq_iff map_add_def find_append split: option.splits)
qed (simp add: map_add_def)

text \<open>What a number holds after a batch: one of the blocks of the batch, or what it held before.\<close>

lemma view_after_cases: "view_after v bs n = Some b \<Longrightarrow> (b \<in> set bs \<and> block_number b = Some n) \<or> v n = Some b"
proof (induction bs arbitrary: v)
  case (Cons c bs)
  from Cons.IH [OF Cons.prems [unfolded view_after_Cons]] show ?case by (auto split: option.splits if_splits)
qed simp

lemma view_after_dom: "dom (view_after v bs) = dom v \<union> numbers bs"
proof (induction bs arbitrary: v)
  case (Cons c bs)
  then show ?case unfolding view_after_Cons by (cases "block_number c") (auto simp: numbers_def split: if_splits)
qed simp

section \<open>The engines\<close>

interpretation mem_batch: batch_store mem_ops mem_view "\<lambda>b. blk_Header b \<noteq> None" mem_inv
proof unfold_locales
  fix s bs and r :: "(storage_error, unit) outcome" and s'
  assume s: "mem_inv s" and bs: "list_all (\<lambda>b. blk_Header b \<noteq> None) bs"
    and st: "st_StoreBlocks mem_ops s (map Some bs) = (r, s')"
  show "mem_inv s' \<and> (mem_view s' = mem_view s \<or> mem_view s' = view_after (mem_view s) bs)"
  proof (cases "bs = []")
    case True
    with s st show ?thesis by (auto simp: store_simps mem_StoreBlocks_def)
  next
    case False
    from bs have h: "\<forall>b \<in> set bs. blk_Header b \<noteq> None" by (simp add: list_all_iff)
    then obtain a z where az: "block_number (hd bs) = Some a" "block_number (last bs) = Some z"
      using False by (metis block_number_def hd_in_set last_in_set option.map_disc_iff not_None_eq)
    show ?thesis
      using mem_StoreBlocks_effect [OF s h False az] st by (auto simp: store_simps view_after_find)
  qed
qed

context pebble_engine
begin

text \<open>However the loop of \<open>StoreBlocks\<close> ends, the tracker stays well formed.\<close>

lemma batchBlocks_tracker:
  "batchBlocks env batch mn mx g blocks = (r, g') \<Longrightarrow> gt_inv g \<Longrightarrow> gt_inv g'"
proof (induction blocks arbitrary: batch mn mx g)
  case (Cons block blocks)
  then show ?case by (fastforce simp: gt.inv_mark split: option.splits outcome.splits)
qed simp

lemma saveGapTracker_keeps:
  assumes "saveGapTracker env s = (r, s')" and "ps_inv env kv s"
  shows "ps_inv env kv s' \<and> pebble_view env kv s' = pebble_view env kv s"
  using assms(1) by (rule saveGapTracker_cases) (use assms(2) in \<open>auto simp: ps_inv_def pebble_view_def\<close>)

text \<open>
  Every way \<open>StoreBlocks\<close> can fail leaves the database as it was or with the whole batch written,
  and the tracker well formed.
\<close>

lemma commit_effect:
  assumes "batchBlocks env (pb_NewBatch env (ps_db s)) n0 n0 (ps_gapTracker s) (map Some bs) = (Ok (b1, mn, mx), g)"
    and "updateMetadataBatch env (ps_db s) b1 mn mx k = Ok b2" and "pb_Commit env (ps_db s) b2 = (ce, db)"
    and "list_all (rlp_storable env) bs" and "ps_inv env kv s"
  shows "ps_inv env kv (s\<lparr>ps_db := db, ps_gapTracker := g\<rparr>) \<and>
    (pebble_view env kv (s\<lparr>ps_db := db, ps_gapTracker := g\<rparr>) = pebble_view env kv s \<or>
     pebble_view env kv (s\<lparr>ps_db := db, ps_gapTracker := g\<rparr>) = view_after (pebble_view env kv s) bs)"
proof -
  obtain ws where ws: "wr b1 = ws" "writes_blocks env ws bs" using batchBlocks_ok(4) [OF assms(1,4)] by auto
  obtain x y z where wr: "wr b2 = ws @ meta_writes x y z mn mx k"
    using updateMetadataBatch_writes [OF assms(2)] ws(1) by blast
  have "kv db = kv (ps_db s) \<or> kv db = kv_apply (kv (ps_db s)) (wr b2)"
    using commit_ok [of "ps_db s" b2 db] commit_err [of "ps_db s" b2 _ db] assms(3) by (cases ce) auto
  moreover have "kv_wf env (kv_apply (kv (ps_db s)) ws)"
    "kv_view env (kv_apply (kv (ps_db s)) ws) = view_after (kv_view env (kv (ps_db s))) bs"
    using ws(2) assms(5) by (auto simp: writes_blocks_def ps_inv_def)
  moreover have "gt_inv g" using batchBlocks_tracker [OF assms(1)] assms(5) by (simp add: ps_inv_def)
  ultimately show ?thesis using assms(5) wr by (auto simp: ps_inv_def pebble_view_def kv_wf_meta_writes)
qed

lemma store_blocks_effect:
  assumes "ps_inv env kv s" and "list_all (rlp_storable env) bs"
    and "pebble_StoreBlocks env s (map Some bs) = (r, s')" and "\<And>p. r \<noteq> Panic p"
  shows "ps_inv env kv s' \<and> (pebble_view env kv s' = pebble_view env kv s \<or>
    pebble_view env kv s' = view_after (pebble_view env kv s) bs)"
proof (cases bs)
  case Nil
  with assms(1,3) show ?thesis by (simp add: pebble_StoreBlocks_def)
next
  case (Cons b0 rest)
  then obtain h0 where h0: "blk_Header b0 = Some h0" using assms(2) by (auto simp: rlp_storable_def)
  let ?n = "hd_Number h0"
  obtain lr g where loop: "batchBlocks env (pb_NewBatch env (ps_db s)) ?n ?n (ps_gapTracker s) (map Some bs) = (lr, g)" by fastforce
  have g: "ps_inv env kv (s\<lparr>ps_gapTracker := g\<rparr>)" "pebble_view env kv (s\<lparr>ps_gapTracker := g\<rparr>) = pebble_view env kv s"
    using batchBlocks_tracker [OF loop] assms(1) by (simp_all add: ps_inv_def pebble_view_def)
  have first: "(case map Some bs of [] \<Rightarrow> A | f # _ \<Rightarrow> B f) = B (Some b0)" for A B by (simp add: Cons)
  have eq: "pebble_StoreBlocks env s (map Some bs) =
    (case lr of
       Err e \<Rightarrow> (Err e, s\<lparr>ps_gapTracker := g\<rparr>)
     | Panic p \<Rightarrow> (Panic p, s\<lparr>ps_gapTracker := g\<rparr>)
     | Ok (batch, mn, mx) \<Rightarrow>
         (case updateMetadataBatch env (ps_db s) batch mn mx (of_nat (length bs)) of
            Err e \<Rightarrow> (Err (UpdateMetadataFailed e), s\<lparr>ps_gapTracker := g\<rparr>)
          | Panic p \<Rightarrow> (Panic p, s\<lparr>ps_gapTracker := g\<rparr>)
          | Ok batch \<Rightarrow>
              (case pb_Commit env (ps_db s) batch of
                 (Some e, db) \<Rightarrow> (Err (CommitFailed e), s\<lparr>ps_db := db, ps_gapTracker := g\<rparr>)
               | (None, db) \<Rightarrow> saveGapTracker env (s\<lparr>ps_db := db, ps_gapTracker := g\<rparr>))))"
    unfolding pebble_StoreBlocks_def first length_map using loop h0 by simp
  consider (early) "s' = s\<lparr>ps_gapTracker := g\<rparr>"
    | (commit) b1 mn mx b2 ce db where "lr = Ok (b1, mn, mx)" "updateMetadataBatch env (ps_db s) b1 mn mx (of_nat (length bs)) = Ok b2"
      "pb_Commit env (ps_db s) b2 = (ce, db)"
      "s' = s\<lparr>ps_db := db, ps_gapTracker := g\<rparr> \<or> saveGapTracker env (s\<lparr>ps_db := db, ps_gapTracker := g\<rparr>) = (r, s')"
    using assms(3) unfolding eq by (auto split: outcome.splits prod.splits option.splits)
  then show ?thesis
  proof cases
    case early
    with g show ?thesis by simp
  next
    case commit
    show ?thesis
      using commit_effect [OF loop [unfolded commit(1)] commit(2,3) assms(2,1)] commit(4) saveGapTracker_keeps [of _ r s'] by auto
  qed
qed

end

sublocale pebble_engine \<subseteq> batches: batch_store "pebble_ops env" "pebble_view env kv" "rlp_storable env" "ps_inv env kv"
proof unfold_locales
  fix s bs and r :: "(storage_error, unit) outcome" and s'
  assume A: "ps_inv env kv s" "list_all (rlp_storable env) bs" "st_StoreBlocks (pebble_ops env) s (map Some bs) = (r, s')" "\<And>p. r \<noteq> Panic p"
  then show "ps_inv env kv s' \<and> (pebble_view env kv s' = pebble_view env kv s \<or>
      pebble_view env kv s' = view_after (pebble_view env kv s) bs)"
    by (intro store_blocks_effect [of s bs r s']) (simp_all add: pebble_ops_def)
qed

section \<open>The engine of the node\<close>

fun engine_view :: "('d, 'b) pebble_env \<Rightarrow> ('d \<Rightarrow> bytes \<rightharpoonup> bytes) \<Rightarrow> 'd storage_engine \<Rightarrow> u64 \<Rightarrow> Block option" where
  "engine_view env kv (PebbleEngine s) = pebble_view env kv s"
| "engine_view env kv (MemoryEngine s) = mem_view s"

fun engine_inv :: "('d, 'b) pebble_env \<Rightarrow> ('d \<Rightarrow> bytes \<rightharpoonup> bytes) \<Rightarrow> 'd storage_engine \<Rightarrow> bool" where
  "engine_inv env kv (PebbleEngine s) = ps_inv env kv s"
| "engine_inv env kv (MemoryEngine s) = mem_inv s"

lemma engine_ops_simps [store_simps]:
  "st_HasBlock (engine_ops env) (PebbleEngine s) = st_HasBlock (pebble_ops env) s"
  "st_HasBlock (engine_ops env) (MemoryEngine m) = st_HasBlock mem_ops m"
  "st_GetBlock (engine_ops env) (PebbleEngine s) = st_GetBlock (pebble_ops env) s"
  "st_GetBlock (engine_ops env) (MemoryEngine m) = st_GetBlock mem_ops m"
  "st_StoreBlock (engine_ops env) (PebbleEngine s) b = map_prod id PebbleEngine (st_StoreBlock (pebble_ops env) s b)"
  "st_StoreBlock (engine_ops env) (MemoryEngine m) b = map_prod id MemoryEngine (st_StoreBlock mem_ops m b)"
  "st_StoreBlocks (engine_ops env) (PebbleEngine s) bs = map_prod id PebbleEngine (st_StoreBlocks (pebble_ops env) s bs)"
  "st_StoreBlocks (engine_ops env) (MemoryEngine m) bs = map_prod id MemoryEngine (st_StoreBlocks mem_ops m bs)"
  by (simp_all add: engine_ops_def Let_def fun_eq_iff)

lemma storable_mem: "rlp_storable env b \<Longrightarrow> blk_Header b \<noteq> None"
  by (simp add: rlp_storable_def)

lemma map_prod_eqE:
  assumes "map_prod id f p = (r, y)" obtains x where "p = (r, x)" "y = f x"
  using assms by (cases p) auto

sublocale pebble_engine \<subseteq> engine: batch_store "engine_ops env" "engine_view env kv" "rlp_storable env" "engine_inv env kv"
proof unfold_locales
  fix e n b u er e' bs and r :: "(storage_error, unit) outcome"
  assume inv: "engine_inv env kv e"
  show "st_HasBlock (engine_ops env) e n \<longleftrightarrow> engine_view env kv e n \<noteq> None"
    using inv store.has_view mem.has_view by (cases e) (simp_all add: engine_ops_simps)
  show "st_GetBlock (engine_ops env) e n = Ok b" if "engine_view env kv e n = Some b"
    using inv that store.get_view mem.get_view by (cases e) (simp_all add: engine_ops_simps)
  show "\<not> is_ok (st_GetBlock (engine_ops env) e n)" if "engine_view env kv e n = None"
    using inv that store.get_missing mem.get_missing by (cases e) (simp_all add: engine_ops_simps)
  show "block_number b = Some n" if "engine_view env kv e n = Some b"
    using inv that store.view_number mem.view_number by (cases e) simp_all
  show "engine_inv env kv e' \<and> engine_view env kv e' = (engine_view env kv e)(n \<mapsto> b)"
    if "rlp_storable env b" "st_StoreBlock (engine_ops env) e (Some b) = (Ok u, e')" "block_number b = Some n"
    using inv that(2) store.store_ok [OF _ that(1) _ that(3)] mem.store_ok [OF _ storable_mem [OF that(1)] _ that(3)]
    by (cases e) (auto simp: engine_ops_simps elim!: map_prod_eqE)
  show "engine_inv env kv e' \<and> (engine_view env kv e' = engine_view env kv e \<or> engine_view env kv e' = (engine_view env kv e)(n \<mapsto> b))"
    if sb: "rlp_storable env b" and st: "st_StoreBlock (engine_ops env) e (Some b) = (Err er, e')" and num: "block_number b = Some n"
  proof (cases e)
    case (PebbleEngine s)
    then obtain s' where "st_StoreBlock (pebble_ops env) s (Some b) = (Err er, s')" "e' = PebbleEngine s'"
      using st by (auto simp: engine_ops_simps elim!: map_prod_eqE)
    with PebbleEngine inv store.store_err [OF _ sb _ num, of s er s'] show ?thesis by simp
  next
    case (MemoryEngine s)
    then obtain s' where "st_StoreBlock mem_ops s (Some b) = (Err er, s')" "e' = MemoryEngine s'"
      using st by (auto simp: engine_ops_simps elim!: map_prod_eqE)
    with MemoryEngine inv mem.store_err [OF _ storable_mem [OF sb] _ num, of s er s'] show ?thesis by simp
  qed
  show "engine_inv env kv e' \<and> (engine_view env kv e' = engine_view env kv e \<or> engine_view env kv e' = view_after (engine_view env kv e) bs)"
    if sb: "list_all (rlp_storable env) bs" and st: "st_StoreBlocks (engine_ops env) e (map Some bs) = (r, e')" and ok: "\<And>p. r \<noteq> Panic p"
  proof (cases e)
    case (PebbleEngine s)
    then obtain s' where "st_StoreBlocks (pebble_ops env) s (map Some bs) = (r, s')" "e' = PebbleEngine s'"
      using st by (auto simp: engine_ops_simps elim!: map_prod_eqE)
    with PebbleEngine inv batches.batch_effect [OF _ sb _ ok, of s s'] show ?thesis by simp
  next
    case (MemoryEngine s)
    have h: "list_all (\<lambda>b. blk_Header b \<noteq> None) bs" using sb storable_mem by (auto simp: list_all_iff)
    obtain s' where "st_StoreBlocks mem_ops s (map Some bs) = (r, s')" "e' = MemoryEngine s'"
      using MemoryEngine st by (auto simp: engine_ops_simps elim!: map_prod_eqE)
    with MemoryEngine inv mem_batch.batch_effect [OF _ h _ ok, of s s'] show ?thesis by simp
  qed
next
  show "rlp_storable env b \<Longrightarrow> block_number b \<noteq> None" for b
    by (simp add: rlp_storable_def block_number_def)
qed

end
