(* ===== verification/Backward_Workers.thy ===== *)
theory Backward_Workers
  imports Backward_Sync
begin

text \<open>
  The worker loop of \<open>pkg/sync/backward.go\<close> cut at every access to shared state, as \<open>Forward_Sync\<close>
  does for the forward workers: \<open>batch_pc\<close> is the place a worker has reached and \<open>batchStep\<close> the code
  up to the next access. \<open>workerTurn\<close> of \<open>Backward_Sync\<close> is the same code without interruption
  (\<open>batch_steps_are_a_turn\<close>).
\<close>

section \<open>Model\<close>

datatype batch_pc =
    BPolling                           \<comment> \<open>at the top of the loop\<close>
  | BRunning                           \<comment> \<open>the context is not done; before \<open>paused.Load\<close>\<close>
  | BReady                             \<comment> \<open>not paused; before \<open>GetNextGap\<close>\<close>
  | BGap BlockRange                    \<comment> \<open>in \<open>syncBatch\<close>, before \<open>FetchBlocks\<close>\<close>
  | BFetched "Block option list"       \<comment> \<open>before the headers are validated, which reads one stored block\<close>
  | BValidated "Block option list"     \<comment> \<open>before \<open>StoreBlocks\<close>\<close>
  | BStored nat                        \<comment> \<open>before the first counter is increased\<close>
  | BCounted nat                       \<comment> \<open>before the second one\<close>
  | BStopped

text \<open>An error of \<open>syncBatch\<close> is dropped and the loop starts again; a panic ends the process (\<open>Inl\<close>).\<close>

fun batchStep ::
  "hash_env \<Rightarrow> (nat \<Rightarrow> u64) \<Rightarrow> block_fetcher \<Rightarrow> bool \<Rightarrow> 's storage_ops \<Rightarrow> batch_pc \<Rightarrow> BackwardSyncer \<Rightarrow> 's \<Rightarrow>
   go_panic + (batch_pc \<times> BackwardSyncer \<times> 's)" where
  "batchStep H now net cancelled ops BPolling b s = Inr (if cancelled then BStopped else BRunning, b, s)"
| "batchStep H now net cancelled ops BRunning b s = Inr (if bs_paused b then BPolling else BReady, b, s)"
| "batchStep H now net cancelled ops BReady b s =
     (case st_GetNextGap ops s of None \<Rightarrow> Inr (BPolling, b, s) | Some gap \<Rightarrow> Inr (BGap gap, b, s))"
| "batchStep H now net cancelled ops (BGap gap) b s =
     (let (start, end) = batchRange (bs_config b) gap in
      if \<not> bs_hasFetcher b then Inr (BPolling, b, s)
      else
        (case if_FetchBlocks net start end of
           Ok blocks \<Rightarrow> Inr (BFetched blocks, b, s) | Err e \<Rightarrow> Inr (BPolling, b, s) | Panic p \<Rightarrow> Inl p))"
| "batchStep H now net cancelled ops (BFetched blocks) b s =
     (case (case bs_validator b of None \<Rightarrow> Ok () | Some V \<Rightarrow> validateBatch H now ops s V 0 None blocks) of
        Ok _ \<Rightarrow> Inr (BValidated blocks, b, s) | Err e \<Rightarrow> Inr (BPolling, b, s) | Panic p \<Rightarrow> Inl p)"
| "batchStep H now net cancelled ops (BValidated blocks) b s =
     (case st_StoreBlocks ops s blocks of
        (Ok _, s') \<Rightarrow> Inr (BStored (length blocks), b, s') | (Err e, s') \<Rightarrow> Inr (BPolling, b, s') | (Panic p, s') \<Rightarrow> Inl p)"
| "batchStep H now net cancelled ops (BStored n) b s =
     Inr (BCounted n, b\<lparr>bs_downloadedBlocks := bs_downloadedBlocks b + of_nat n\<rparr>, s)"
| "batchStep H now net cancelled ops (BCounted n) b s =
     Inr (BPolling, b\<lparr>bs_blocksPerSec := bs_blocksPerSec b + of_nat n\<rparr>, s)"
| "batchStep H now net cancelled ops BStopped b s = Inr (BStopped, b, s)"

section \<open>A turn without interruption\<close>

fun run_batch ::
  "hash_env \<Rightarrow> (nat \<Rightarrow> u64) \<Rightarrow> block_fetcher \<Rightarrow> 's storage_ops \<Rightarrow> nat \<Rightarrow> batch_pc \<Rightarrow> BackwardSyncer \<Rightarrow> 's \<Rightarrow>
   go_panic + (batch_pc \<times> BackwardSyncer \<times> 's)" where
  "run_batch H now net ops 0 pc b s = Inr (pc, b, s)"
| "run_batch H now net ops (Suc k) pc b s =
     (if pc = BPolling then Inr (pc, b, s)
      else
        (case batchStep H now net False ops pc b s of
           Inl p \<Rightarrow> Inl p
         | Inr (pc', b', s') \<Rightarrow> run_batch H now net ops k pc' b' s'))"

lemma batch_steps_are_a_turn:
  "run_batch H now net ops 7 BRunning b s =
     (case workerTurn H now net ops b s of Inl p \<Rightarrow> Inl p | Inr (b', s') \<Rightarrow> Inr (BPolling, b', s'))"
proof -
  have seven: "(7 :: nat) = Suc (Suc (Suc (Suc (Suc (Suc (Suc 0))))))" by simp
  obtain r s' where store: "st_StoreBlocks ops s bs = (r bs, s' bs)" for bs
    using that [of "\<lambda>bs. fst (st_StoreBlocks ops s bs)" "\<lambda>bs. snd (st_StoreBlocks ops s bs)"] by simp
  obtain lo hi where range: "batchRange (bs_config b) gap = (lo gap, hi gap)" for gap
    using that [of "\<lambda>g. fst (batchRange (bs_config b) g)" "\<lambda>g. snd (batchRange (bs_config b) g)"] by simp
  show ?thesis
    by (simp add: seven workerTurn_def syncBatch_def store range Let_def del: validateBatch.simps split: option.split outcome.split)
qed

text \<open>What a step never changes.\<close>

lemma batchStep_frame:
  assumes "batchStep H now net c ops pc b s = Inr (pc', b', s')"
  shows "bs_config b' = bs_config b \<and> bs_validator b' = bs_validator b \<and> bs_hasFetcher b' = bs_hasFetcher b \<and>
    bs_paused b' = bs_paused b \<and> ((\<forall>bs. pc \<noteq> BValidated bs) \<longrightarrow> s' = s)"
  using assms by (cases pc) (auto simp: Let_def split: if_splits option.splits outcome.splits prod.splits)

end
