(* ===== verification/Node_Run.thy ===== *)
theory Node_Run
  imports Storage_Engine Backward_Workers
begin

text \<open>
  The running node: the workers of both syncers, the target updater, the status ticker, the ticker of
  the checkpoint manager and the requests to the REST server all work on the components that
  \<open>startNode\<close> has put together. \<open>nodeDo\<close> is one step of one of them, cut at the accesses to shared
  state; a run of the node is any sequence of steps (\<open>node_reach\<close>). The DevP2P server, the health monitor
  and the cluster coordinator change none of these components, and \<open>main\<close> does not start the RPC server.
\<close>

section \<open>Model\<close>

text \<open>The workers, beside the server, which holds the coordinator, the storage and the checkpoint manager.\<close>

record ('s, 'c, 'l, 'x) node_run =
  nr_api :: "('s, 'c, 'l, 'x) Server"
  nr_forward :: "worker_pc list"
  nr_backward :: "batch_pc list"

text \<open>What the steps use of the world: digests, the storage methods, the router, tokens, buckets and the checkpoint source.\<close>

record ('s, 'c, 'l, 'e, 'r) run_env =
  re_hash :: hash_env
  re_ops :: "'s storage_ops"
  re_mux :: mux
  re_jwt :: jwt_env
  re_rate :: "('l, 'e, 'r) rate_ops"
  re_source :: "'c source_ops"
  re_validator :: validator_ops

text \<open>The step of a worker carries its index, the time and what the fetcher answers to this call.\<close>

datatype node_action =
    ForwardWorker nat u64 block_fetcher
  | BackwardWorker nat "nat \<Rightarrow> u64" block_fetcher
  | TargetTick block_fetcher
  | StatusTick
  | CheckpointTick
  | Request int api_request
  | Cancel

definition node_start :: "('d, 'c, 'r, 'n, 'k, 'l, 'x) Node \<Rightarrow> ('d storage_engine, checkpoint_source, 'l, 'x) node_run" where
  "node_start nd =
     \<lparr>nr_api = nd_api nd,
      nr_forward = (case nd_forward nd of None \<Rightarrow> [] | Some st \<Rightarrow> fw_workers st),
      nr_backward = (case co_backwardSync (sv_coordinator (nd_api nd)) of None \<Rightarrow> [] | Some b \<Rightarrow> replicate (bs_workers b) BPolling)\<rparr>"

definition setForward :: "ForwardSyncer \<Rightarrow> ('s, 'c, 'l, 'x) Server \<Rightarrow> ('s, 'c, 'l, 'x) Server" where
  "setForward f api = api\<lparr>sv_coordinator := (sv_coordinator api)\<lparr>co_forwardSync := Some f\<rparr>\<rparr>"

definition setBackward :: "BackwardSyncer \<Rightarrow> ('s, 'c, 'l, 'x) Server \<Rightarrow> ('s, 'c, 'l, 'x) Server" where
  "setBackward b api = api\<lparr>sv_coordinator := (sv_coordinator api)\<lparr>co_backwardSync := Some b\<rparr>\<rparr>"

text \<open>
  A tick of the two background updaters. A failed checkpoint update is only logged, and one that does
  not return leaves the manager as it is; \<open>Inl\<close> is a panic in a goroutine, which ends the process.
\<close>

definition statusUpdaterTick :: "'s storage_ops \<Rightarrow> ('s, 'c, 'l, 'x) Server \<Rightarrow> ('s, 'c, 'l, 'x) Server" where
  "statusUpdaterTick ops api = api\<lparr>sv_coordinator := updateStatus ops (sv_coordinator api) (sv_storage api)\<rparr>"

definition checkpointUpdaterTick ::
  "'c source_ops \<Rightarrow> validator_ops \<Rightarrow> ('s, 'c, 'l, 'x) Server \<Rightarrow> go_panic + ('s, 'c, 'l, 'x) Server" where
  "checkpointUpdaterTick S V api =
     (case updateLatestCheckpoint S V (sv_checkpoint api) of
        None \<Rightarrow> Inr api
      | Some (Panic p, m) \<Rightarrow> Inl p
      | Some (_, m) \<Rightarrow> Inr (api\<lparr>sv_checkpoint := m\<rparr>))"

text \<open>One step of the node.\<close>

fun nodeDo ::
  "('s, 'c, 'l, 'e, 'r) run_env \<Rightarrow> node_action \<Rightarrow> ('s, 'c, 'l, 'x) node_run \<Rightarrow> go_panic + ('s, 'c, 'l, 'x) node_run" where
  "nodeDo E (ForwardWorker i now net) st =
     (let api = nr_api st; c = sv_coordinator api in
      case co_forwardSync c of
        None \<Rightarrow> Inr st
      | Some f \<Rightarrow>
          if i < length (nr_forward st) then
            (case workerStep (re_hash E) now net (co_cancelled c) (re_ops E) (nr_forward st ! i) f (sv_storage api) of
               Inl p \<Rightarrow> Inl p
             | Inr (pc, f', s) \<Rightarrow>
                 Inr (st\<lparr>nr_forward := (nr_forward st)[i := pc], nr_api := setForward f' api\<lparr>sv_storage := s\<rparr>\<rparr>))
          else Inr st)"
| "nodeDo E (BackwardWorker i now net) st =
     (let api = nr_api st; c = sv_coordinator api in
      case co_backwardSync c of
        None \<Rightarrow> Inr st
      | Some b \<Rightarrow>
          if i < length (nr_backward st) then
            (case batchStep (re_hash E) now net (co_cancelled c) (re_ops E) (nr_backward st ! i) b (sv_storage api) of
               Inl p \<Rightarrow> Inl p
             | Inr (pc, b', s) \<Rightarrow>
                 Inr (st\<lparr>nr_backward := (nr_backward st)[i := pc], nr_api := setBackward b' api\<lparr>sv_storage := s\<rparr>\<rparr>))
          else Inr st)"
| "nodeDo E (TargetTick net) st =
     (case co_forwardSync (sv_coordinator (nr_api st)) of
        None \<Rightarrow> Inr st
      | Some f \<Rightarrow>
          (case targetUpdate net f of Inl p \<Rightarrow> Inl p | Inr f' \<Rightarrow> Inr (st\<lparr>nr_api := setForward f' (nr_api st)\<rparr>)))"
| "nodeDo E StatusTick st =
     Inr (st\<lparr>nr_api := statusUpdaterTick (re_ops E) (nr_api st)\<rparr>)"
| "nodeDo E CheckpointTick st =
     (case checkpointUpdaterTick (re_source E) (re_validator E) (nr_api st) of
        Inl p \<Rightarrow> Inl p | Inr api \<Rightarrow> Inr (st\<lparr>nr_api := api\<rparr>))"
| "nodeDo E (Request now r) st =
     Inr (st\<lparr>nr_api := snd (serveREST (re_mux E) (re_jwt E) (re_rate E) (re_ops E) now (nr_api st) r)\<rparr>)"
| "nodeDo E Cancel st =
     (let api = nr_api st in Inr (st\<lparr>nr_api := api\<lparr>sv_coordinator := (sv_coordinator api)\<lparr>co_cancelled := True\<rparr>\<rparr>\<rparr>))"

declare statusUpdaterTick_def [simp] checkpointUpdaterTick_def [simp]

text \<open>The fetcher answers as \<open>nets\<close> allows.\<close>

fun allowed :: "(block_fetcher \<Rightarrow> bool) \<Rightarrow> node_action \<Rightarrow> bool" where
  "allowed nets (ForwardWorker i now net) = nets net"
| "allowed nets (BackwardWorker i now net) = nets net"
| "allowed nets (TargetTick net) = nets net"
| "allowed nets _ = True"

inductive node_reach ::
  "('s, 'c, 'l, 'e, 'r) run_env \<Rightarrow> (block_fetcher \<Rightarrow> bool) \<Rightarrow> ('s, 'c, 'l, 'x) node_run \<Rightarrow> ('s, 'c, 'l, 'x) node_run \<Rightarrow> bool"
  for E nets st0 where
  node_refl: "node_reach E nets st0 st0"
| node_do: "node_reach E nets st0 st \<Longrightarrow> allowed nets a \<Longrightarrow> nodeDo E a st = Inr st' \<Longrightarrow> node_reach E nets st0 st'"

section \<open>What a request can change\<close>

text \<open>\<open>P\<close> after the handler when \<open>Q\<close> held before, with the middleware in between.\<close>

definition ensures :: "('a \<Rightarrow> bool) \<Rightarrow> ('a \<Rightarrow> bool) \<Rightarrow> ('a, 'i, 'o) handler \<Rightarrow> bool" where
  "ensures Q P h \<longleftrightarrow> (\<forall>s r. Q s \<longrightarrow> P (snd (h s r)))"

lemma ensures_auth: "ensures Q P h \<Longrightarrow> (\<And>s. Q s \<Longrightarrow> P s) \<Longrightarrow> ensures Q P (AuthMiddleware J now m h)"
  by (simp add: ensures_def AuthMiddleware_def Let_def split: option.split outcome.split)

lemma ensures_role: "ensures Q P h \<Longrightarrow> (\<And>s. Q s \<Longrightarrow> P s) \<Longrightarrow> ensures Q P (RequireRoleMiddleware roles h)"
  by (simp add: ensures_def RequireRoleMiddleware_def split: option.split)

lemma ensures_global:
  assumes "ensures Q P h" and "\<And>s. Q s \<Longrightarrow> P s" and "\<And>l s. Q s \<Longrightarrow> Q (setLimiter l s)" and "\<And>e s. P s \<Longrightarrow> P (addLog e s)"
  shows "ensures Q P (globalMiddleware R now rest b h)"
proof -
  have limiter: "ensures Q P (PerIPMiddleware R now g setLimiter h)" for g
    using assms(1-3) by (auto simp: ensures_def PerIPMiddleware_def Let_def split: prod.split)
  have cors: "ensures Q P (CORSMiddleware origins cred h')" if "ensures Q P h'" for origins cred h'
    using that assms(2) by (auto simp: ensures_def CORSMiddleware_def Let_def split: prod.split) (metis snd_conv)
  have log: "ensures Q P (LoggingMiddleware addLog h')" if "ensures Q P h'" for h'
    using that assms(4) by (auto simp: ensures_def LoggingMiddleware_def split: prod.split) (metis snd_conv)
  show ?thesis
    unfolding globalMiddleware_def using assms(1) limiter by (auto intro!: log cors)
qed

definition same_parts :: "('s, 'c, 'l, 'x) Server \<Rightarrow> ('s, 'c, 'l, 'x) Server \<Rightarrow> bool" where
  "same_parts s0 s \<longleftrightarrow> sv_config s = sv_config s0 \<and> sv_jwtManager s = sv_jwtManager s0 \<and>
     sv_storage s = sv_storage s0 \<and> sv_checkpoint s = sv_checkpoint s0"

text \<open>A request changes at most the pause flag, the log and the buckets of the rate limiter.\<close>

lemma request_frame:
  fixes s :: "('s, 'c, 'l, 'x) Server"
  assumes "mux_contract M"
  shows "same_parts s (snd (serveREST M J R ops now s r)) \<and>
    sv_coordinator (snd (serveREST M J R ops now s r)) \<in>
      {sv_coordinator s, PauseBackwardSync (sv_coordinator s), ResumeBackwardSync (sv_coordinator s)}"
proof -
  define Q where "Q = (\<lambda>t. same_parts s t \<and> sv_coordinator t = sv_coordinator s)"
  define P where "P = (\<lambda>t. same_parts s t \<and>
    sv_coordinator t \<in> {sv_coordinator s, PauseBackwardSync (sv_coordinator s), ResumeBackwardSync (sv_coordinator s)})"
  define rs where "rs = (routes J ops now (sv_jwtManager s) :: ('s, 'c, 'l, 'x) route list)"
  have QP: "Q t \<Longrightarrow> P t" for t by (simp add: Q_def P_def)
  have Q: "Q s" by (simp add: Q_def same_parts_def)
  have "ensures Q P handlePauseBackwardSync" "ensures Q P handleResumeBackwardSync" "ensures Q P handleHealth"
    "ensures Q P (handleStatus now)" "ensures Q P (handleGaps ops)" "ensures Q P handleCheckpoints" "ensures Q P (handleToken J now m)" for m
    by (simp_all add: ensures_def QP) (simp_all add: Q_def P_def same_parts_def handlePauseBackwardSync_def handleResumeBackwardSync_def)
  then have hs: "ensures Q P h" if "(verb, target, h) \<in> set rs" for verb target h
    using that by (auto simp: rs_def routes_def Let_def intro!: ensures_auth ensures_role QP split: option.splits)
  show ?thesis
  proof (cases "M (map (\<lambda>(method, path, h). (method, path)) rs) (rq_Method r) (rq_Path r)")
    case (Matched i)
    have "ensures Q P (snd (snd (rs ! i)))" using hs routes_handler [OF assms Matched] by blast
    then have "ensures Q P (globalMiddleware R now (apc_REST (sv_config s)) (sv_rateLimiter s \<noteq> None) (snd (snd (rs ! i))))"
      by (rule ensures_global) (auto simp: Q_def P_def same_parts_def setLimiter_def addLog_def)
    then show ?thesis using Q Matched by (simp add: ensures_def P_def serveREST_def rs_def Let_def)
  next
    case (Unmatched status)
    then show ?thesis using QP [OF Q] by (simp add: P_def serveREST_def rs_def Let_def)
  qed
qed

section \<open>Where the blocks of a running node come from\<close>

text \<open>
  \<open>m0\<close> is what the storage held at the start and \<open>m\<close> what it holds now. A block has \<open>grown\<close> on the chain
  when the fetcher supplied it, its header is accepted by the rules \<open>v\<close> on top of a block of the number
  below that was there at the start or was supplied too, and that number is stored.
\<close>

definition supplied :: "(block_fetcher \<Rightarrow> bool) \<Rightarrow> Block \<Rightarrow> bool" where
  "supplied nets b \<longleftrightarrow> (\<exists>net n. nets net \<and> if_FetchBlock net n = Ok (Some b)) \<or>
     (\<exists>net start end bs. nets net \<and> if_FetchBlocks net start end = Ok bs \<and> Some b \<in> set bs)"

definition linked :: "hash_env \<Rightarrow> PolygonValidator \<Rightarrow> Block \<Rightarrow> Block \<Rightarrow> bool" where
  "linked H v p b \<longleftrightarrow>
     (\<exists>ph h now. blk_Header p = Some ph \<and> blk_Header b = Some h \<and> header_ok H v h \<and> child_ok now v ph h)"

definition grown ::
  "hash_env \<Rightarrow> PolygonValidator \<Rightarrow> (block_fetcher \<Rightarrow> bool) \<Rightarrow> (u64 \<rightharpoonup> Block) \<Rightarrow> (u64 \<rightharpoonup> Block) \<Rightarrow> u64 \<Rightarrow> Block \<Rightarrow> bool" where
  "grown H v nets m0 m n b \<longleftrightarrow> n \<noteq> 0 \<and> m (n - 1) \<noteq> None \<and> supplied nets b \<and>
     (\<exists>p. (m0 (n - 1) = Some p \<or> supplied nets p) \<and> block_number p = Some (n - 1) \<and> linked H v p b)"

definition chain_ok ::
  "hash_env \<Rightarrow> PolygonValidator \<Rightarrow> (block_fetcher \<Rightarrow> bool) \<Rightarrow> (u64 \<rightharpoonup> Block) \<Rightarrow> (u64 \<rightharpoonup> Block) \<Rightarrow> bool" where
  "chain_ok H v nets m0 m \<longleftrightarrow> dom m0 \<subseteq> dom m \<and> (\<forall>n b. m n = Some b \<longrightarrow> m0 n = Some b \<or> grown H v nets m0 m n b)"

text \<open>What a worker holds: a validated block would be \<open>grown\<close>, a validated batch would be once it is stored.\<close>

fun forward_ok ::
  "hash_env \<Rightarrow> PolygonValidator \<Rightarrow> (block_fetcher \<Rightarrow> bool) \<Rightarrow> (u64 \<rightharpoonup> Block) \<Rightarrow> (u64 \<rightharpoonup> Block) \<Rightarrow> worker_pc \<Rightarrow> bool" where
  "forward_ok H v nets m0 m (Fetched n b) \<longleftrightarrow> (\<forall>x. b = Some x \<longrightarrow> supplied nets x)"
| "forward_ok H v nets m0 m (Validated n b) \<longleftrightarrow> (\<exists>x. b = Some x \<and> block_number x = Some n \<and> grown H v nets m0 m n x)"
| "forward_ok H v nets m0 m pc \<longleftrightarrow> True"

definition batch_grown ::
  "hash_env \<Rightarrow> PolygonValidator \<Rightarrow> (block_fetcher \<Rightarrow> bool) \<Rightarrow> (u64 \<rightharpoonup> Block) \<Rightarrow> (u64 \<rightharpoonup> Block) \<Rightarrow> Block list \<Rightarrow> bool" where
  "batch_grown H v nets m0 m bs \<longleftrightarrow>
     (\<forall>b \<in> set bs. \<exists>n. block_number b = Some n \<and> grown H v nets m0 (view_after m bs) n b)"

fun backward_ok ::
  "hash_env \<Rightarrow> PolygonValidator \<Rightarrow> (block_fetcher \<Rightarrow> bool) \<Rightarrow> (u64 \<rightharpoonup> Block) \<Rightarrow> (u64 \<rightharpoonup> Block) \<Rightarrow> batch_pc \<Rightarrow> bool" where
  "backward_ok H v nets m0 m (BFetched bs) \<longleftrightarrow> (\<forall>x. Some x \<in> set bs \<longrightarrow> supplied nets x)"
| "backward_ok H v nets m0 m (BValidated blocks) \<longleftrightarrow> (\<exists>bs. blocks = map Some bs \<and> batch_grown H v nets m0 m bs)"
| "backward_ok H v nets m0 m pc \<longleftrightarrow> True"

lemma supplied_one: "nets net \<Longrightarrow> if_FetchBlock net n = Ok (Some b) \<Longrightarrow> supplied nets b"
  unfolding supplied_def by blast

lemma supplied_batch: "nets net \<Longrightarrow> if_FetchBlocks net start end = Ok bs \<Longrightarrow> Some b \<in> set bs \<Longrightarrow> supplied nets b"
  unfolding supplied_def by blast

lemma grown_mono: "grown H v nets m0 m n b \<Longrightarrow> dom m \<subseteq> dom m' \<Longrightarrow> grown H v nets m0 m' n b"
  by (fastforce simp: grown_def)

lemma forward_ok_mono: "forward_ok H v nets m0 m pc \<Longrightarrow> dom m \<subseteq> dom m' \<Longrightarrow> forward_ok H v nets m0 m' pc"
  by (cases pc) (auto intro: grown_mono)

lemma backward_ok_mono: "backward_ok H v nets m0 m pc \<Longrightarrow> dom m \<subseteq> dom m' \<Longrightarrow> backward_ok H v nets m0 m' pc"
proof (cases pc)
  case (BValidated blocks)
  assume m: "backward_ok H v nets m0 m pc" "dom m \<subseteq> dom m'"
  have "dom (view_after m bs) \<subseteq> dom (view_after m' bs)" for bs using m(2) by (auto simp: view_after_dom)
  then have "batch_grown H v nets m0 m' bs" if "batch_grown H v nets m0 m bs" for bs
    using that grown_mono unfolding batch_grown_def by meson
  with m(1) BValidated show ?thesis by auto
qed auto

lemma chain_ok_start: "chain_ok H v nets m0 m0"
  by (simp add: chain_ok_def)

lemma chain_ok_batch:
  assumes "chain_ok H v nets m0 m" and "batch_grown H v nets m0 m bs"
  shows "chain_ok H v nets m0 (view_after m bs)"
proof -
  have dom: "dom m \<subseteq> dom (view_after m bs)" by (auto simp: view_after_dom)
  have "m0 n = Some b \<or> grown H v nets m0 (view_after m bs) n b" if b: "view_after m bs n = Some b" for n b
    using view_after_cases [OF b]
  proof
    assume "b \<in> set bs \<and> block_number b = Some n"
    then show ?thesis using assms(2) by (fastforce simp: batch_grown_def)
  next
    assume "m n = Some b"
    then show ?thesis using assms(1) grown_mono [OF _ dom] unfolding chain_ok_def by blast
  qed
  moreover have "dom m0 \<subseteq> dom (view_after m bs)" using assms(1) dom unfolding chain_ok_def by blast
  ultimately show ?thesis by (simp add: chain_ok_def)
qed

lemma chain_ok_block:
  assumes "chain_ok H v nets m0 m" and "grown H v nets m0 m n b" and "block_number b = Some n"
  shows "chain_ok H v nets m0 (m(n \<mapsto> b))"
proof -
  have "dom m \<subseteq> dom (m(n \<mapsto> b))" by auto
  then have "batch_grown H v nets m0 m [b]"
    using assms(2,3) by (auto simp: batch_grown_def intro: grown_mono)
  from chain_ok_batch [OF assms(1) this] assms(3) show ?thesis by simp
qed

text \<open>A block the chain rests on.\<close>

lemma chain_ok_source:
  "chain_ok H v nets m0 m \<Longrightarrow> m n = Some p \<Longrightarrow> m0 n = Some p \<or> supplied nets p"
  by (auto simp: chain_ok_def grown_def)

lemma header_chain_grown:
  assumes "header_chain H v ph hs" and "map blk_Header bs = map Some hs" and "blk_Header p = Some ph"
    and "m (hd_Number ph) = Some p" and "chain_ok H v nets m0 m" and "\<forall>x \<in> set bs. supplied nets x"
  shows "batch_grown H v nets m0 m bs"
  unfolding batch_grown_def
proof
  fix b assume "b \<in> set bs"
  then obtain i where i: "i < length bs" "b = bs ! i" by (auto simp: in_set_conv_nth)
  have len: "length hs = length bs" using assms(2) by (metis length_map)
  have hdr: "blk_Header (bs ! j) = Some (hs ! j)" if "j < length bs" for j
    using that assms(2) len by (metis nth_map)
  obtain now where ok: "header_ok H v (hs ! i)" "child_ok now v ((ph # hs) ! i) (hs ! i)"
    using header_chain_links [OF assms(1), of i] i(1) len by auto
  let ?p = "(p # bs) ! i" and ?n = "hd_Number (hs ! i)" and ?ph = "(ph # hs) ! i"
  have hp: "blk_Header ?p = Some ?ph" using hdr i(1) assms(3) by (cases i) auto
  have num: "?n \<noteq> 0" "hd_Number ?ph = ?n - 1" using ok by (simp_all add: header_ok_def child_ok_def)
  have "?n - 1 \<in> dom (view_after m bs) \<and> (m0 (?n - 1) = Some ?p \<or> supplied nets ?p)"
  proof (cases i)
    case 0
    then have "m (?n - 1) = Some p" using assms(4) num(2) by simp
    with 0 chain_ok_source [OF assms(5) this] show ?thesis by (auto simp: view_after_dom)
  next
    case (Suc j)
    then have "bs ! j \<in> set bs" using i(1) by simp
    moreover have "block_number (bs ! j) = Some (?n - 1)" using hdr [of j] Suc i(1) num(2) by (simp add: block_number_def)
    ultimately have "?n - 1 \<in> numbers bs" unfolding numbers_def by (metis (mono_tags) image_eqI mem_Collect_eq)
    moreover have "supplied nets (bs ! j)" using Suc i(1) assms(6) by simp
    ultimately show ?thesis using Suc by (simp add: view_after_dom)
  qed
  moreover have "linked H v ?p b" using hp hdr [OF i(1)] i(2) ok by (auto simp: linked_def)
  moreover have "supplied nets b" using assms(6) i by simp
  ultimately have "grown H v nets m0 (view_after m bs) ?n b"
    using num hp unfolding grown_def by (auto simp: block_number_def)
  moreover have "block_number b = Some ?n" using hdr [OF i(1)] i(2) by (simp add: block_number_def)
  ultimately show "\<exists>n. block_number b = Some n \<and> grown H v nets m0 (view_after m bs) n b" by blast
qed

text \<open>The invariant of a run: both syncers keep a validator with the rules \<open>v\<close>, and the storage and the workers are in order.\<close>

definition real_syncers :: "PolygonValidator \<Rightarrow> Coordinator \<Rightarrow> bool" where
  "real_syncers v c \<longleftrightarrow>
     (\<forall>f. co_forwardSync c = Some f \<longrightarrow> Option.bind (fs_validator f) rules_of = Some v) \<and>
     (\<forall>b. co_backwardSync c = Some b \<longrightarrow> Option.bind (bs_validator b) rules_of = Some v)"

lemma real_syncers_simps [simp]:
  "real_syncers v (PauseBackwardSync c) = real_syncers v c" "real_syncers v (ResumeBackwardSync c) = real_syncers v c"
  "real_syncers v (updateStatus ops c s) = real_syncers v c" "real_syncers v (c\<lparr>co_cancelled := x\<rparr>) = real_syncers v c"
  by (auto simp: real_syncers_def PauseBackwardSync_def ResumeBackwardSync_def Pause_def Resume_def updateStatus_def Let_def
      split: option.splits)

definition workers_ok ::
  "('s \<Rightarrow> bool) \<Rightarrow> ('s \<Rightarrow> u64 \<rightharpoonup> Block) \<Rightarrow> hash_env \<Rightarrow> PolygonValidator \<Rightarrow> (block_fetcher \<Rightarrow> bool) \<Rightarrow> (u64 \<rightharpoonup> Block) \<Rightarrow>
   ('s, 'c, 'l, 'x) node_run \<Rightarrow> bool" where
  "workers_ok ok view H v nets m0 st \<longleftrightarrow>
     real_syncers v (sv_coordinator (nr_api st)) \<and> ok (sv_storage (nr_api st)) \<and>
     chain_ok H v nets m0 (view (sv_storage (nr_api st))) \<and>
     (\<forall>pc \<in> set (nr_forward st). forward_ok H v nets m0 (view (sv_storage (nr_api st))) pc) \<and>
     (\<forall>pc \<in> set (nr_backward st). backward_ok H v nets m0 (view (sv_storage (nr_api st))) pc)"

context batch_store
begin

lemma forward_step_ok:
  assumes storable: "\<And>x. supplied nets x \<Longrightarrow> storable x" and net: "nets net"
    and V: "Option.bind (fs_validator f) rules_of = Some v" and s: "inv s" and m: "chain_ok H v nets m0 (view s)"
    and pc: "forward_ok H v nets m0 (view s) pc"
    and step: "workerStep H now net c ops pc f s = Inr (pc', f', s')"
  shows "Option.bind (fs_validator f') rules_of = Some v \<and> inv s' \<and> chain_ok H v nets m0 (view s') \<and>
    forward_ok H v nets m0 (view s') pc' \<and> dom (view s) \<subseteq> dom (view s')"
proof (cases pc)
  case (Fetching n)
  with V s m step supplied_one [of nets net, OF net] show ?thesis by (auto simp: fetchForSync_def split: if_splits outcome.splits)
next
  case (Fetched n b)
  obtain V0 where V0: "fs_validator f = Some V0" "rules_of V0 = Some v" using V by (auto simp: bind_eq_Some_conv)
  show ?thesis
  proof (cases "validateForSync H now ops s (Some V0) n b = Ok ()")
    case True
    then obtain x p where x: "b = Some x" "n \<noteq> 0" "st_GetBlock ops s (n - 1) = Ok p"
      "ValidateBlock H now V0 (Some x) (Some p) = Ok ()" using V0(2) by (rule validateForSync_Ok)
    have p: "view s (n - 1) = Some p" using get_ok_view [OF s x(3)] .
    then have num: "block_number p = Some (n - 1)" by (rule view_number [OF s])
    then obtain ph where ph: "blk_Header p = Some ph" "hd_Number ph = n - 1" by (auto simp: block_number_def)
    obtain h where h: "blk_Header x = Some h" "header_ok H v h" "child_ok now v ph h" using ValidateBlock_child [OF x(4) V0(2) ph(1)] .
    have "linked H v p x" using ph(1) h by (auto simp: linked_def)
    moreover have "supplied nets x" using pc Fetched x(1) by simp
    ultimately have "grown H v nets m0 (view s) n x" using x(2) p num chain_ok_source [OF m p] by (auto simp: grown_def)
    moreover have "block_number x = Some n" using h ph(2) by (simp add: block_number_def child_ok_def)
    ultimately show ?thesis using Fetched True V0(1) x(1) V s m step by auto
  next
    case False
    with Fetched V0(1) V s m step show ?thesis by (auto split: outcome.splits)
  qed
next
  case (Validated n b)
  then obtain x where x: "b = Some x" "block_number x = Some n" "grown H v nets m0 (view s) n x" using pc by auto
  have sx: "storable x" using storable x(3) by (simp add: grown_def)
  have upd: "chain_ok H v nets m0 ((view s)(n \<mapsto> x))" using chain_ok_block [OF m x(3,2)] .
  obtain r s1 where store: "st_StoreBlock ops s (Some x) = (r, s1)" by fastforce
  have res: "inv s1 \<and> (view s1 = view s \<or> view s1 = (view s)(n \<mapsto> x))" if "r = Ok () \<or> (\<exists>e. r = Err e)"
    using that store store_ok [OF s sx _ x(2)] store_err [OF s sx _ x(2)] by auto
  show ?thesis
  proof (cases r)
    case (Panic p)
    with Validated x(1) store step show ?thesis by simp
  qed (use Validated x(1) store step res m upd V in auto)
qed (use assms in \<open>auto split: if_splits\<close>)

lemma backward_step_ok:
  assumes storable: "\<And>x. supplied nets x \<Longrightarrow> storable x" and net: "nets net"
    and V: "Option.bind (bs_validator b) rules_of = Some v" and s: "inv s" and m: "chain_ok H v nets m0 (view s)"
    and pc: "backward_ok H v nets m0 (view s) pc"
    and step: "batchStep H now net c ops pc b s = Inr (pc', b', s')"
  shows "Option.bind (bs_validator b') rules_of = Some v \<and> inv s' \<and> chain_ok H v nets m0 (view s') \<and>
    backward_ok H v nets m0 (view s') pc' \<and> dom (view s) \<subseteq> dom (view s')"
proof (cases pc)
  case (BGap gap)
  with V s m step supplied_batch [of nets net, OF net] show ?thesis by (auto simp: Let_def split: if_splits outcome.splits prod.splits)
next
  case (BFetched blocks)
  obtain V0 where V0: "bs_validator b = Some V0" "rules_of V0 = Some v" using V by (auto simp: bind_eq_Some_conv)
  show ?thesis
  proof (cases "validateBatch H now ops s V0 0 None blocks = Ok ()")
    case True
    have "\<exists>bs. blocks = map Some bs \<and> batch_grown H v nets m0 (view s) bs"
    proof (cases "blocks = []")
      case True
      then show ?thesis by (simp add: batch_grown_def)
    next
      case False
      obtain p ph bs hs where c: "st_GetBlock ops s (hd_Number ph) = Ok p" "blk_Header p = Some ph"
        "blocks = map Some bs" "map blk_Header bs = map Some hs" "header_chain H v ph hs" "hs \<noteq> []"
        using validateBatch_Ok [OF True V0(2) False get_number [OF s]] .
      have "\<forall>x \<in> set bs. supplied nets x" using pc BFetched c(3) by auto
      then have "batch_grown H v nets m0 (view s) bs"
        by (rule header_chain_grown [OF c(5,4,2) get_ok_view [OF s c(1)] m])
      with c(3) show ?thesis by blast
    qed
    then show ?thesis using BFetched True V0(1) V s m step by auto
  next
    case False
    with BFetched V0(1) V s m step show ?thesis by (auto split: outcome.splits)
  qed
next
  case (BValidated blocks)
  then obtain bs where bs: "blocks = map Some bs" "batch_grown H v nets m0 (view s) bs" using pc by auto
  have sb: "list_all storable bs" using bs(2) storable by (auto simp: list_all_iff batch_grown_def grown_def)
  have upd: "chain_ok H v nets m0 (view_after (view s) bs)" using chain_ok_batch [OF m bs(2)] .
  obtain r s1 where store: "st_StoreBlocks ops s (map Some bs) = (r, s1)" by fastforce
  have res: "inv s1 \<and> (view s1 = view s \<or> view s1 = view_after (view s) bs)" if "\<And>p. r \<noteq> Panic p"
    using batch_effect [OF s sb store that] .
  have dom: "dom (view s) \<subseteq> dom (view_after (view s) bs)" by (auto simp: view_after_dom)
  show ?thesis
  proof (cases r)
    case (Panic p)
    with BValidated bs(1) store step show ?thesis by simp
  qed (use BValidated bs(1) store step res m upd V dom in auto)
qed (use assms in \<open>auto split: if_splits option.splits\<close>)

lemma step_keeps_workers:
  assumes storable: "\<And>x. supplied nets x \<Longrightarrow> storable x" and E: "re_ops E = ops" "re_hash E = H" "mux_contract (re_mux E)"
    and ok: "workers_ok inv view H v nets m0 st" and a: "allowed nets a" and step: "nodeDo E a st = Inr st'"
  shows "workers_ok inv view H v nets m0 st'"
proof (cases a)
  case (ForwardWorker i now net)
  let ?api = "nr_api st"
  show ?thesis
  proof (cases "co_forwardSync (sv_coordinator ?api) \<noteq> None \<and> i < length (nr_forward st)")
    case True
    then obtain f where f: "co_forwardSync (sv_coordinator ?api) = Some f" and i: "i < length (nr_forward st)" by auto
    obtain pc f' s where w: "workerStep H now net (co_cancelled (sv_coordinator ?api)) ops (nr_forward st ! i) f (sv_storage ?api) = Inr (pc, f', s)"
      and st': "st' = st\<lparr>nr_forward := (nr_forward st)[i := pc], nr_api := setForward f' ?api\<lparr>sv_storage := s\<rparr>\<rparr>"
      using step ForwardWorker f i E by (auto simp: Let_def split: sum.splits)
    have "nets net" using a ForwardWorker by simp
    then have K: "Option.bind (fs_validator f') rules_of = Some v \<and> inv s \<and> chain_ok H v nets m0 (view s) \<and>
        forward_ok H v nets m0 (view s) pc \<and> dom (view (sv_storage ?api)) \<subseteq> dom (view s)"
      using ok f i by (intro forward_step_ok [OF storable _ _ _ _ _ w]) (auto simp: workers_ok_def real_syncers_def)
    have "forward_ok H v nets m0 (view s) q" if "q \<in> set ((nr_forward st)[i := pc])" for q
      using that set_update_subset_insert [of "nr_forward st" i pc] K ok unfolding workers_ok_def by (blast intro: forward_ok_mono)
    moreover have "backward_ok H v nets m0 (view s) q" if "q \<in> set (nr_backward st)" for q
      using that K ok unfolding workers_ok_def by (blast intro: backward_ok_mono)
    ultimately show ?thesis using K ok by (simp add: workers_ok_def st' setForward_def real_syncers_def)
  qed (use step ok ForwardWorker in \<open>auto simp: Let_def split: option.splits if_splits\<close>)
next
  case (BackwardWorker i now net)
  let ?api = "nr_api st"
  show ?thesis
  proof (cases "co_backwardSync (sv_coordinator ?api) \<noteq> None \<and> i < length (nr_backward st)")
    case True
    then obtain b where b: "co_backwardSync (sv_coordinator ?api) = Some b" and i: "i < length (nr_backward st)" by auto
    obtain pc b' s where w: "batchStep H now net (co_cancelled (sv_coordinator ?api)) ops (nr_backward st ! i) b (sv_storage ?api) = Inr (pc, b', s)"
      and st': "st' = st\<lparr>nr_backward := (nr_backward st)[i := pc], nr_api := setBackward b' ?api\<lparr>sv_storage := s\<rparr>\<rparr>"
      using step BackwardWorker b i E by (auto simp: Let_def split: sum.splits)
    have "nets net" using a BackwardWorker by simp
    then have K: "Option.bind (bs_validator b') rules_of = Some v \<and> inv s \<and> chain_ok H v nets m0 (view s) \<and>
        backward_ok H v nets m0 (view s) pc \<and> dom (view (sv_storage ?api)) \<subseteq> dom (view s)"
      using ok b i by (intro backward_step_ok [OF storable _ _ _ _ _ w]) (auto simp: workers_ok_def real_syncers_def)
    have "backward_ok H v nets m0 (view s) q" if "q \<in> set ((nr_backward st)[i := pc])" for q
      using that set_update_subset_insert [of "nr_backward st" i pc] K ok unfolding workers_ok_def by (blast intro: backward_ok_mono)
    moreover have "forward_ok H v nets m0 (view s) q" if "q \<in> set (nr_forward st)" for q
      using that K ok unfolding workers_ok_def by (blast intro: forward_ok_mono)
    ultimately show ?thesis using K ok by (simp add: workers_ok_def st' setBackward_def real_syncers_def)
  qed (use step ok BackwardWorker in \<open>auto simp: Let_def split: option.splits if_splits\<close>)
next
  case (TargetTick net)
  with step ok show ?thesis
    by (auto simp: workers_ok_def real_syncers_def setForward_def targetUpdate_def split: option.splits outcome.splits if_splits)
next
  case CheckpointTick
  with step ok show ?thesis by (auto simp: workers_ok_def Let_def split: option.splits prod.splits outcome.splits)
next
  case (Request now r)
  with step ok request_frame [OF E(3), of "nr_api st" "re_jwt E" "re_rate E" "re_ops E" now r]
  show ?thesis by (auto simp: workers_ok_def same_parts_def)
qed (use step ok in \<open>auto simp: workers_ok_def Let_def\<close>)

lemma run_keeps_workers:
  assumes "node_reach E nets st0 st" and "\<And>x. supplied nets x \<Longrightarrow> storable x" and "re_ops E = ops" "re_hash E = H" "mux_contract (re_mux E)"
    and "workers_ok inv view H v nets m0 st0"
  shows "workers_ok inv view H v nets m0 st"
  using assms(1) by (induction rule: node_reach.induct) (use assms(6) step_keeps_workers [OF assms(2-5)] in blast)+

end

end
