(* ===== verification/Node_Safety.thy ===== *)
theory Node_Safety
  imports Node_Run
begin

text \<open>
  What holds of every run of a node that \<open>startNode\<close> has started: the chain its storage holds only
  grows by linked, validated blocks, an empty storage stays empty, and its shape never changes.
\<close>

section \<open>The start of a run\<close>

lemma api_Start_frame:
  assumes "api_Start E fs s = (r, s')"
  shows "sv_config s' = sv_config s \<and> sv_jwtManager s' = sv_jwtManager s \<and> same_parts s s' \<and> sv_coordinator s' = sv_coordinator s"
  using assms
  by (auto simp: api_Start_def startRESTServer_def startMetricsServer_def same_parts_def Let_def
      split: if_splits outcome.splits prod.splits)

text \<open>What \<open>main\<close> hands to the goroutines: the coordinator as it was built and started, on the storage it opened.\<close>

lemma startNode_parts:
  fixes ME :: "('d, 'b, 'w, 'c, 'r, 'n, 'k, 'q, 'x) main_env" and nd :: "('d, 'c, 'r, 'n, 'k, 'l, 'x) Node"
  assumes "startNode ME now path dir = Some (Ok nd)"
  obtains cfg store m fwd where "nd_config nd = cfg" "NewStorage (me_pebble ME) (Some (cfg_Storage cfg)) = Ok store"
    "startManager ME cfg = Some (Ok m)" "nd_forward nd = fwd"
    "coord_Start (NewCoordinator (cfg_Sync cfg) (GetLatest m) True now) (GetLatest m) store = Ok (sv_coordinator (nd_api nd), fwd)"
    "sv_storage (nd_api nd) = store" "sv_checkpoint (nd_api nd) = m" "sv_config (nd_api nd) = cfg_API cfg"
proof -
  obtain cfg store where cs: "nodeConfig (me_load ME) path dir = Ok cfg" "NewStorage (me_pebble ME) (Some (cfg_Storage cfg)) = Ok store"
    "map_option (\<lambda>r. bind_outcome r (startServices ME now cfg store)) (startManager ME cfg) = Some (Ok nd)"
    using assms by (auto simp: startNode_def split: outcome.splits)
  then obtain m where m: "startManager ME cfg = Some (Ok m)" "startServices ME now cfg store m = Ok nd" by auto
  obtain fetcher c fwd where c: "coord_Start (NewCoordinator (cfg_Sync cfg) (GetLatest m) True now) (GetLatest m) store = Ok (c, fwd)"
    "(case api_Start (me_tls ME) (me_files ME) (NewServer (cfg_API cfg) c store m) of
       (Err e, _) \<Rightarrow> Err (StartAPIFatal e)
     | (Panic p, _) \<Rightarrow> Panic p
     | (Ok _, api) \<Rightarrow>
         Ok \<lparr>nd_config = cfg, nd_fetcher = fetcher, nd_forward = fwd, nd_cluster = startCluster ME cfg, nd_devp2p = startDevP2P ME cfg store,
             nd_monitor = NewMonitor now \<lparr>mc_CheckInterval = 5 * 60000000000, mc_UnhealthyTimeout = 15 * 60000000000, mc_EnableAutoHeal = True\<rparr>,
             nd_api = api\<rparr>) = Ok nd"
    using m(2) unfolding startServices_def by (auto simp del: prod.case_eq_if)
  obtain r and api :: "('d storage_engine, checkpoint_source, 'l, 'x) Server" where api: "api_Start (me_tls ME) (me_files ME) (NewServer (cfg_API cfg) c store m) = (r, api)" by fastforce
  with c(2) have s: "nd_api nd = api" "nd_config nd = cfg" "nd_forward nd = fwd" by (auto split: outcome.splits)
  from api_Start_frame [OF api] that [of cfg store m fwd] cs(2) m(1) s c(1) show thesis
    by (simp add: same_parts_def NewServer_def Let_def)
qed

definition syncRules :: "Checkpoint option \<Rightarrow> PolygonValidator" where
  "syncRules latest = NewPolygonValidator (Some (syncValidatorConfig (syncChainID latest)))"

lemma real_validators:
  assumes "level \<noteq> ''none''"
  shows "rules_of (forwardValidatorFor level (syncChainID latest)) = Some (syncRules latest)"
    and "rules_of (backwardValidatorFor level (syncChainID latest)) = Some (syncRules latest)"
  using assms by (simp_all add: forwardValidatorFor_def backwardValidatorFor_def ParseValidationLevel_def NewLightValidator_def syncRules_def)

lemma coord_Start_syncers:
  assumes "coord_Start (NewCoordinator cfg latest True now) latest s = Ok (c, fwd)"
  shows "co_config c = cfg" and "co_status c = zeroStatus now"
    and "\<exists>f. co_forwardSync c = Some f \<and> fs_config f = sc_Forward cfg \<and> fs_hasFetcher f \<and>
      fs_validator f = Some (forwardValidatorFor (fc_ValidationLevel (sc_Forward cfg)) (syncChainID latest))"
    and "\<exists>b. co_backwardSync c = Some b \<and> bs_config b = sc_Backward cfg \<and> bs_hasFetcher b \<and>
      bs_validator b = Some (backwardValidatorFor (bc_ValidationLevel (sc_Backward cfg)) (syncChainID latest)) \<and>
      bs_workers b = (if bc_Enabled (sc_Backward cfg) then nat (bc_Workers (sc_Backward cfg)) else 0)"
    and "(case fwd of None \<Rightarrow> [] | Some st \<Rightarrow> fw_workers st) =
      replicate (if fc_Enabled (sc_Forward cfg) then nat (fc_Workers (sc_Forward cfg)) else 0) Idle"
  using assms
  by (auto simp: coord_Start_def NewCoordinator_def NewForwardSyncer_def NewBackwardSyncer_def fwd_Start_def bwd_Start_def Let_def
      split: if_splits option.splits)

section \<open>Properties\<close>

context pebble_engine
begin

lemma engine_run:
  assumes "node_reach E nets st0 st" and "\<forall>x. supplied nets x \<longrightarrow> rlp_storable env x" and "re_ops E = engine_ops env" and "mux_contract (re_mux E)"
    and "workers_ok (engine_inv env kv) (engine_view env kv) (re_hash E) v nets m0 st0"
  shows "workers_ok (engine_inv env kv) (engine_view env kv) (re_hash E) v nets m0 st"
  using assms by (intro engine.run_keeps_workers [OF assms(1)]) auto

lemma engine_missing:
  assumes "engine_inv env kv s" and "engine_view env kv s n = None"
  shows "\<not> st_HasBlock (engine_ops env) s n \<and> \<not> is_ok (st_GetBlock (engine_ops env) s n)"
  using engine.has_view [OF assms(1)] engine.get_missing [OF assms] assms(2) by simp

end

lemma start_workers_ok:
  assumes "startNode ME now path dir = Some (Ok nd)" and "ok (sv_storage (nd_api nd))"
    and "fc_ValidationLevel (sc_Forward (cfg_Sync (nd_config nd))) \<noteq> ''none''"
    and "bc_ValidationLevel (sc_Backward (cfg_Sync (nd_config nd))) \<noteq> ''none''"
  shows "workers_ok ok view H (syncRules (GetLatest (sv_checkpoint (nd_api nd)))) nets (view (sv_storage (nd_api nd))) (node_start nd)"
proof (rule startNode_parts [OF assms(1)])
  fix cfg store m fwd
  assume p: "nd_config nd = cfg" "nd_forward nd = fwd"
    "coord_Start (NewCoordinator (cfg_Sync cfg) (GetLatest m) True now) (GetLatest m) store = Ok (sv_coordinator (nd_api nd), fwd)"
    "sv_storage (nd_api nd) = store" "sv_checkpoint (nd_api nd) = m"
  note c = coord_Start_syncers [OF p(3)]
  have "real_syncers (syncRules (GetLatest m)) (sv_coordinator (nd_api nd))"
    using c(3,4) assms(3,4) p(1) by (auto simp: real_syncers_def real_validators)
  moreover have "\<forall>pc \<in> set (nr_forward (node_start nd)). pc = Idle" using c(5) p(2) by (auto simp: node_start_def)
  moreover have "\<forall>pc \<in> set (nr_backward (node_start nd)). pc = BPolling" by (auto simp: node_start_def split: option.splits)
  ultimately show ?thesis using assms(2) p(5) by (auto simp: workers_ok_def chain_ok_start node_start_def)
qed

text \<open>A forward worker that runs alone is a run of the node.\<close>

definition first_worker :: "worker_pc \<Rightarrow> ForwardSyncer \<Rightarrow> 's \<Rightarrow> ('s, 'c, 'l, 'x) node_run \<Rightarrow> bool" where
  "first_worker pc f s st \<longleftrightarrow> co_forwardSync (sv_coordinator (nr_api st)) = Some f \<and> sv_storage (nr_api st) = s \<and>
     (\<exists>pcs. nr_forward st = pc # pcs) \<and> \<not> co_cancelled (sv_coordinator (nr_api st))"

lemma first_worker_step:
  assumes "workerStep (re_hash E) now net False (re_ops E) pc f s = Inr (pc', f', s')" and "nets net"
    and "node_reach E nets st0 st" and "first_worker pc f s st"
  shows "\<exists>st'. node_reach E nets st0 st' \<and> first_worker pc' f' s' st'"
proof -
  obtain pcs where pcs: "nr_forward st = pc # pcs" using assms(4) by (auto simp: first_worker_def)
  let ?st = "st\<lparr>nr_forward := pc' # pcs, nr_api := setForward f' (nr_api st)\<lparr>sv_storage := s'\<rparr>\<rparr>"
  have "nodeDo E (ForwardWorker 0 now net) st = Inr ?st" using assms(1,4) pcs by (simp add: first_worker_def Let_def)
  moreover have "allowed nets (ForwardWorker 0 now net)" using assms(2) by simp
  ultimately have "node_reach E nets st0 ?st" using node_do [OF assms(3)] by blast
  moreover have "first_worker pc' f' s' ?st" using assms(4) by (simp add: first_worker_def setForward_def)
  ultimately show ?thesis by blast
qed

lemma first_worker_run:
  assumes "run_worker (re_hash E) now net (re_ops E) k pc f s = Inr (pc', f', s')" and "nets net"
    and "node_reach E nets st0 st" and "first_worker pc f s st"
  shows "\<exists>st'. node_reach E nets st0 st' \<and> first_worker pc' f' s' st'"
  using assms(1,3,4)
proof (induction k arbitrary: pc f s st)
  case 0
  then show ?case by auto
next
  case (Suc k)
  have "\<exists>st'. node_reach E nets st0 st' \<and> first_worker pc' f' s' st'"
    if "workerStep (re_hash E) now net False (re_ops E) pc f s = Inr (pc1, f1, s1)"
      "run_worker (re_hash E) now net (re_ops E) k pc1 f1 s1 = Inr (pc', f', s')" for pc1 f1 s1
    using first_worker_step [OF that(1) assms(2) Suc.prems(2,3)] Suc.IH [OF that(2)] by blast
  then show ?case using Suc.prems by (cases pc) (auto split: sum.splits)
qed

lemma coord_Start_first:
  assumes "coord_Start (NewCoordinator cfg (Some cp) True now) (Some cp) s = Ok (c, fwd)" and "fc_Enabled (sc_Forward cfg)"
  shows "\<not> co_cancelled c \<and> (\<exists>f. co_forwardSync c = Some f \<and> fs_currentBlock f = cp_BlockNumber cp \<and> fs_targetBlock f = cp_BlockNumber cp + 1000 \<and>
    fs_hasFetcher f \<and> fs_validator f = Some (forwardValidatorFor (fc_ValidationLevel (sc_Forward cfg)) (syncChainID (Some cp))))"
  using assms by (auto simp: coord_Start_def NewCoordinator_def NewForwardSyncer_def fwd_Start_def Let_def split: if_splits)

lemma start_first_worker:
  assumes "startNode ME now path dir = Some (Ok nd)" and "fc_Enabled (sc_Forward (cfg_Sync (nd_config nd)))"
    and "0 < nat (fc_Workers (sc_Forward (cfg_Sync (nd_config nd))))" and "GetLatest (sv_checkpoint (nd_api nd)) = Some cp"
  shows "\<exists>f. first_worker Idle f (sv_storage (nd_api nd)) (node_start nd) \<and> fs_currentBlock f = cp_BlockNumber cp \<and>
    fs_targetBlock f = cp_BlockNumber cp + 1000 \<and> fs_hasFetcher f \<and>
    fs_validator f = Some (forwardValidatorFor (fc_ValidationLevel (sc_Forward (cfg_Sync (nd_config nd)))) (syncChainID (Some cp)))"
proof (rule startNode_parts [OF assms(1)])
  fix cfg store m fwd
  assume p: "nd_config nd = cfg" "nd_forward nd = fwd"
    "coord_Start (NewCoordinator (cfg_Sync cfg) (GetLatest m) True now) (GetLatest m) store = Ok (sv_coordinator (nd_api nd), fwd)"
    "sv_checkpoint (nd_api nd) = m"
  have "nr_forward (node_start nd) = replicate (nat (fc_Workers (sc_Forward (cfg_Sync cfg)))) Idle"
    using coord_Start_syncers(5) [OF p(3)] assms(2) p(1,2) by (simp add: node_start_def)
  then have "\<exists>pcs. nr_forward (node_start nd) = Idle # pcs" using assms(3) p(1) by (auto simp: gr0_conv_Suc)
  with coord_Start_first [of "cfg_Sync cfg" cp now store "sv_coordinator (nd_api nd)" fwd] p assms(2,4) show ?thesis
    by (auto simp: first_worker_def node_start_def)
qed

text \<open>
  The example: the node with the built-in configuration on a database that holds block 99999, the block
  below the mock checkpoint, and a fetcher that knows every block.
\<close>

definition ex_node_env :: "(bytes \<rightharpoonup> bytes) \<Rightarrow>
  (bytes \<rightharpoonup> bytes, (bytes \<times> bytes) list, unit, string, ex_redis, unit, unit, unit, unit) main_env" where
  "ex_node_env disk = ex_main\<lparr>me_pebble := map_env disk\<rparr>"

definition ex_run_env :: "(bytes \<rightharpoonup> bytes) \<Rightarrow> ((bytes \<rightharpoonup> bytes) storage_engine, checkpoint_source, ex_bucket, unit, unit) run_env" where
  "ex_run_env disk = \<lparr>re_hash = ex_hash, re_ops = engine_ops (map_env disk), re_mux = ex_mux, re_jwt = ex_api_env [], re_rate = ex_rate,
     re_source = source_dispatch (\<lambda>_. '''') ex_contract, re_validator = devValidator\<rparr>"

abbreviation ex_nets :: "block_fetcher \<Rightarrow> bool" where
  "ex_nets \<equiv> (\<lambda>net. net = ex_net)"

lemma ex_supplied: "supplied ex_nets x \<Longrightarrow> rlp_storable (map_env disk) x"
  by (auto simp: supplied_def ex_net_def ex_storable)

lemma ex_node_starts:
  assumes "disk prefixGapRanges = None"
  shows "\<exists>nd :: (bytes \<rightharpoonup> bytes, string, ex_redis, unit, unit, ex_bucket, unit) Node.
    startNode (ex_node_env disk) 0 '''' '''' = Some (Ok nd) \<and> nd_config nd = bareConfig \<and>
    GetLatest (sv_checkpoint (nd_api nd)) = Some (mock_checkpoint 100000) \<and>
    sv_storage (nd_api nd) = PebbleEngine \<lparr>ps_db = disk, ps_gapTracker = NewGapTracker\<rparr> \<and> nd_cluster nd = None \<and> nd_devp2p nd = None"
proof -
  have "ToLower ''pebble'' = ''pebble''" by code_simp
  then have "NewStorage (me_pebble (ex_node_env disk)) (Some (cfg_Storage bareConfig)) = Ok (PebbleEngine \<lparr>ps_db = disk, ps_gapTracker = NewGapTracker\<rparr>)"
    using assms by (simp add: ex_node_env_def NewStorage_def bareConfig_def DefaultConfig_def NewPebbleStorage_def loadGapTracker_def map_env_def Let_def)
  moreover have "rpc_Dial (me_rpc (ex_node_env disk)) ''https://polygon-rpc.com'' \<noteq> None" by (simp add: ex_node_env_def ex_main_def ex_rpc_def)
  ultimately show ?thesis using default_node_starts [of "ex_node_env disk" _ 0] by blast
qed

lemma bareConfig_levels:
  "fc_ValidationLevel (sc_Forward (cfg_Sync bareConfig)) \<noteq> ''none''" "bc_ValidationLevel (sc_Backward (cfg_Sync bareConfig)) \<noteq> ''none''"
  "fc_Enabled (sc_Forward (cfg_Sync bareConfig))" "0 < nat (fc_Workers (sc_Forward (cfg_Sync bareConfig)))"
  by (simp_all add: bareConfig_def DefaultConfig_def)


definition ex_disk :: "bytes \<rightharpoonup> bytes" where
  "ex_disk = [makeBlockNumberKey 99999 \<mapsto> put_uint64 99999]"

definition ex_store :: "(bytes \<rightharpoonup> bytes) PebbleStorage" where
  "ex_store = \<lparr>ps_db = ex_disk, ps_gapTracker = NewGapTracker\<rparr>"

lemma ex_disk_props:
  "ex_disk prefixGapRanges = None" "ps_inv (map_env disk) (\<lambda>d. d) ex_store"
  "pebble_view (map_env disk) (\<lambda>d. d) ex_store = [99999 \<mapsto> example_block 99999]"
proof -
  have dec: "rlp_decBlock (map_env disk) (put_uint64 n) = Some (example_block n)" for n
    by (simp add: map_env_def ex_decBlock_def bytes_nat_put)
  show "ex_disk prefixGapRanges = None" by (simp add: ex_disk_def)
  show "ps_inv (map_env disk) (\<lambda>d. d) ex_store" by (auto simp: ps_inv_def ex_store_def kv_wf_def ex_disk_def dec)
  show "pebble_view (map_env disk) (\<lambda>d. d) ex_store = [99999 \<mapsto> example_block 99999]"
    by (auto simp: pebble_view_def kv_view_def ex_store_def ex_disk_def dec fun_eq_iff)
qed

lemma ex_valid_checkpoint:
  "ValidateBlock ex_hash 0 (forwardValidatorFor ''full'' (syncChainID (Some (mock_checkpoint 100000)))) (Some (example_block 100000)) (Some (example_block 99999)) = Ok ()"
  by (simp add: forwardValidatorFor_def ParseValidationLevel_def syncValidatorConfig_def polygon_ValidateBlock_def ValidateBlockHeader_def
      validateHeaderAgainstParent_def validateHeaderHash_def ValidateTransactions_def ValidateConsensus_def validateExtraData_def
      NewPolygonValidator_def example_header_def gasLimitDelta_def maxGasDelta_def to_int64_def Let_def)

lemma ex_sync_checkpoint:
  assumes "fs_hasFetcher f" and "fs_validator f = Some (forwardValidatorFor ''full'' (syncChainID (Some (mock_checkpoint 100000))))"
  shows "\<exists>s. syncBlock ex_hash 0 ex_net (engine_ops (map_env disk)) f (PebbleEngine ex_store) 100000 = (Ok (), PebbleEngine s) \<and>
    pebble_view (map_env disk) (\<lambda>d. d) s 100000 = Some (example_block 100000)"
proof -
  have view: "pebble_view (map_env disk) (\<lambda>d. d) ex_store 100000 = None" "pebble_view (map_env disk) (\<lambda>d. d) ex_store 99999 = Some (example_block 99999)"
    using ex_disk_props(3) by simp_all
  have "\<not> st_HasBlock (pebble_ops (map_env disk)) ex_store 100000" using map_db.store.has_view [OF ex_disk_props(2)] view(1) by simp
  moreover have "st_GetBlock (pebble_ops (map_env disk)) ex_store 99999 = Ok (example_block 99999)"
    using map_db.store.get_view [OF ex_disk_props(2) view(2)] .
  moreover obtain s where s: "pebble_StoreBlock (map_env disk) ex_store (Some (example_block 100000)) = (Ok (), s)"
    using map_env_store_ok [where n = 100000, OF ex_disk_props(2)] by (metis prod.collapse)
  moreover have "ps_inv (map_env disk) (\<lambda>d. d) s \<and> pebble_view (map_env disk) (\<lambda>d. d) s =
      (pebble_view (map_env disk) (\<lambda>d. d) ex_store)(100000 \<mapsto> example_block 100000)"
    using s by (intro map_db.store.store_ok [OF ex_disk_props(2) ex_storable(1)]) (simp_all add: pebble_ops_def)
  ultimately show ?thesis
    using assms ex_valid_checkpoint
    by (simp add: syncBlock_def fetchForSync_def validateForSync_def storedParent_def ex_net_def engine_ops_simps pebble_ops_def)
qed


text \<open>On an empty storage nothing can grow.\<close>

lemma chain_ok_empty:
  assumes "chain_ok H v nets Map.empty m"
  shows "m = Map.empty"
proof -
  have descend: "n \<noteq> 0 \<and> m (n - 1) \<noteq> None" if "m n \<noteq> None" for n
    using assms that by (fastforce simp: chain_ok_def grown_def)
  have "m n = None" for n
  proof (induction "unat n" arbitrary: n)
    case 0
    then have "n = 0" by (simp add: unat_eq_zero)
    then show ?case using descend [of n] by blast
  next
    case (Suc k)
    then have "k = unat (n - 1)" by (metis diff_Suc_1 nat.distinct(1) unat_0 unat_minus_one)
    then have "m (n - 1) = None" by (rule Suc(1))
    then show ?case using descend [of n] by blast
  qed
  then show ?thesis by (simp add: fun_eq_iff)
qed


lemma empty_disk_props:
  "ps_inv env (\<lambda>d. d) \<lparr>ps_db = Map.empty, ps_gapTracker = NewGapTracker\<rparr>"
  "pebble_view env (\<lambda>d. d) \<lparr>ps_db = Map.empty, ps_gapTracker = NewGapTracker\<rparr> = Map.empty"
  by (simp_all add: ps_inv_def pebble_view_def kv_view_def fun_eq_iff)


text \<open>What no step changes: the configuration, the credentials, the syncers' settings and the number of workers.\<close>

definition node_frame :: "('s, 'c, 'l, 'x) node_run \<Rightarrow> APIConfig \<times> JWTManager option \<times> SyncConfig \<times>
    (ForwardSyncConfig \<times> bool \<times> BlockValidator option) option \<times> (BackwardSyncConfig \<times> bool \<times> BlockValidator option) option \<times> nat \<times> nat" where
  "node_frame st =
     (let api = nr_api st; c = sv_coordinator api in
      (sv_config api, sv_jwtManager api, co_config c,
       map_option (\<lambda>f. (fs_config f, fs_hasFetcher f, fs_validator f)) (co_forwardSync c),
       map_option (\<lambda>b. (bs_config b, bs_hasFetcher b, bs_validator b)) (co_backwardSync c),
       length (nr_forward st), length (nr_backward st)))"

lemma workerStep_frame:
  assumes "workerStep H now net c ops pc f s = Inr (pc', f', s')"
  shows "fs_config f' = fs_config f \<and> fs_hasFetcher f' = fs_hasFetcher f \<and> fs_validator f' = fs_validator f"
  using assms by (cases pc) (auto split: if_splits outcome.splits prod.splits)

lemma frame_pause: "map_option g (map_option Pause x) = map_option g x" "map_option g (map_option Resume x) = map_option g x"
  if "\<And>b. g (Pause b) = g b" "\<And>b. g (Resume b) = g b"
  using that by (simp_all add: option.map_comp comp_def)

lemma updateStatus_frame [simp]:
  "co_config (updateStatus ops c s) = co_config c" "co_forwardSync (updateStatus ops c s) = co_forwardSync c"
  "co_backwardSync (updateStatus ops c s) = co_backwardSync c"
  by (simp_all add: updateStatus_def Let_def)

lemma step_frame:
  assumes "mux_contract (re_mux E)" and "nodeDo E a st = Inr st'"
  shows "node_frame st' = node_frame st"
proof (cases a)
  case (ForwardWorker i now net)
  with assms(2) show ?thesis
    by (auto simp: node_frame_def setForward_def Let_def dest!: workerStep_frame split: option.splits if_splits sum.splits)
next
  case (BackwardWorker i now net)
  with assms(2) show ?thesis
    by (auto simp: node_frame_def setBackward_def Let_def dest!: batchStep_frame split: option.splits if_splits sum.splits)
next
  case (Request now r)
  with assms(2) request_frame [OF assms(1), of "nr_api st" "re_jwt E" "re_rate E" "re_ops E" now r] show ?thesis
    by (auto simp: node_frame_def same_parts_def PauseBackwardSync_def ResumeBackwardSync_def Let_def frame_pause Pause_def Resume_def)
next
  case (TargetTick net)
  with assms(2) show ?thesis
    by (auto simp: node_frame_def setForward_def targetUpdate_def Let_def split: option.splits outcome.splits if_splits)
next
  case CheckpointTick
  with assms(2) show ?thesis by (auto simp: node_frame_def Let_def split: option.splits prod.splits outcome.splits)
qed (use assms(2) in \<open>auto simp: node_frame_def Let_def\<close>)

lemma run_frame: "node_reach E nets st0 st \<Longrightarrow> mux_contract (re_mux E) \<Longrightarrow> node_frame st = node_frame st0"
  by (induction rule: node_reach.induct) (auto dest: step_frame)

lemma step_status:
  assumes "mux_contract (re_mux E)" and "nodeDo E a st = Inr st'"
    and "0 \<le> fst_Progress (ss_ForwardSync (co_status (sv_coordinator (nr_api st)))) \<and>
      fst_Progress (ss_ForwardSync (co_status (sv_coordinator (nr_api st)))) \<le> 100"
  shows "0 \<le> fst_Progress (ss_ForwardSync (co_status (sv_coordinator (nr_api st')))) \<and>
      fst_Progress (ss_ForwardSync (co_status (sv_coordinator (nr_api st')))) \<le> 100"
proof (cases a)
  case StatusTick
  with assms(2,3) forward_progress_range show ?thesis by (auto simp: updateStatus_def Let_def split: option.splits)
next
  case (Request now r)
  have "co_status (PauseBackwardSync c) = co_status c" "co_status (ResumeBackwardSync c) = co_status c" for c
    by (simp_all add: PauseBackwardSync_def ResumeBackwardSync_def)
  with Request assms(2,3) request_frame [OF assms(1), of "nr_api st" "re_jwt E" "re_rate E" "re_ops E" now r] show ?thesis by auto
qed (use assms(2,3) in \<open>auto simp: setForward_def setBackward_def Let_def split: option.splits if_splits sum.splits prod.splits outcome.splits\<close>)

lemma updateLatestCheckpoint_latest:
  "updateLatestCheckpoint S V m = Some (r, m') \<Longrightarrow> (\<exists>p. r = Panic p) \<or> mg_latest m' = mg_latest m \<or> mg_latest m' \<noteq> None"
  "updateLatestCheckpoint S V m = Some (Ok u, m') \<Longrightarrow> mg_latest m' \<noteq> None"
  by (auto simp: updateLatestCheckpoint_def split: option.splits prod.splits outcome.splits)

lemma step_latest:
  assumes "mux_contract (re_mux E)" and "nodeDo E a st = Inr st'" and "mg_latest (sv_checkpoint (nr_api st)) \<noteq> None"
  shows "mg_latest (sv_checkpoint (nr_api st')) \<noteq> None"
proof (cases a)
  case CheckpointTick
  with assms(2,3) updateLatestCheckpoint_latest(1) [of "re_source E" "re_validator E" "sv_checkpoint (nr_api st)"] show ?thesis
    by (fastforce simp: Let_def split: option.splits prod.splits outcome.splits)
next
  case (Request now r)
  with assms(2,3) request_frame [OF assms(1), of "nr_api st" "re_jwt E" "re_rate E" "re_ops E" now r] show ?thesis
    by (auto simp: same_parts_def)
qed (use assms(2,3) in \<open>auto simp: setForward_def setBackward_def Let_def split: option.splits if_splits sum.splits prod.splits outcome.splits\<close>)

lemma startManager_latest:
  assumes "startManager ME cfg = Some (Ok m)"
  shows "mg_latest m \<noteq> None"
  using assms by (auto simp: startManager_def mgr_Start_def dest: updateLatestCheckpoint_latest(2) split: outcome.splits)



end
