(* ===== verification/Node_Shutdown.thy ===== *)
theory Node_Shutdown
  imports Node_Safety
begin

text \<open>
  The end of a run: \<open>main\<close> waits for a signal and then runs the deferred calls, last one first.
  \<open>Coordinator.Stop\<close> cancels the context and waits for the workers, which takes a bounded number of
  their steps; the storage is closed last, when no worker is left.
\<close>

section \<open>Model\<close>

text \<open>The outcome of \<open>main\<close> up to the signal. \<open>fatal\<close> ends the process without the deferred calls.\<close>

datatype ('d, 'c, 'r, 'n, 'k, 'l, 'x) program =
    VersionPrinted | Fatal fatal_error | Crashed go_panic | NeverStarts | Started "('d, 'c, 'r, 'n, 'k, 'l, 'x) Node"

definition runMain ::
  "('d, 'b, 'w, 'c, 'r, 'n, 'k, 'q, 'x) main_env \<Rightarrow> int \<Rightarrow> bool \<Rightarrow> string \<Rightarrow> string \<Rightarrow> ('d, 'c, 'r, 'n, 'k, 'l, 'x) program" where
  "runMain ME now showVer configPath dataDir =
     (if showVer then VersionPrinted
      else (case startNode ME now configPath dataDir of
          None \<Rightarrow> NeverStarts | Some (Err e) \<Rightarrow> Fatal e | Some (Panic p) \<Rightarrow> Crashed p | Some (Ok nd) \<Rightarrow> Started nd))"

datatype stop_call = StopAPI | StopHealth | StopDevP2P | StopCluster | CloseRedis | StopCoordinator | StopManager | CloseStorage

text \<open>The deferred calls of \<open>main\<close> in the order they run.\<close>

definition deferredCalls :: "('d, 'c, 'r, 'n, 'k, 'l, 'x) Node \<Rightarrow> stop_call list" where
  "deferredCalls nd =
     [StopAPI, StopHealth] @ (if nd_devp2p nd \<noteq> None then [StopDevP2P] else []) @
     (if nd_cluster nd \<noteq> None then [StopCluster, CloseRedis] else []) @ [StopCoordinator, StopManager, CloseStorage]"

record ('s, 'c, 'l, 'x) shutdown =
  sh_run :: "('s, 'c, 'l, 'x) node_run"
  sh_calls :: "stop_call list"
  sh_closed :: bool

definition workers_stopped :: "('s, 'c, 'l, 'x) node_run \<Rightarrow> bool" where
  "workers_stopped st \<longleftrightarrow> list_all (\<lambda>pc. pc = Stopped) (nr_forward st) \<and> list_all (\<lambda>pc. pc = BStopped) (nr_backward st)"

text \<open>
  While the calls run, the goroutines go on: requests until the server has stopped, checkpoint updates
  until the manager has. \<open>Stop\<close> of the coordinator cancels the context and returns once every worker
  has returned.
\<close>

fun still_runs :: "stop_call list \<Rightarrow> node_action \<Rightarrow> bool" where
  "still_runs calls (Request now r) = (StopAPI \<in> set calls)"
| "still_runs calls CheckpointTick = (StopManager \<in> set calls)"
| "still_runs calls Cancel = False"
| "still_runs calls _ = True"

inductive shut_step ::
  "('s, 'c, 'l, 'e, 'r) run_env \<Rightarrow> (block_fetcher \<Rightarrow> bool) \<Rightarrow> ('s, 'c, 'l, 'x) shutdown \<Rightarrow> ('s, 'c, 'l, 'x) shutdown \<Rightarrow> bool"
  for E nets where
  shut_goroutine: "sh_calls sh \<noteq> [] \<Longrightarrow> allowed nets a \<Longrightarrow> still_runs (sh_calls sh) a \<Longrightarrow> nodeDo E a (sh_run sh) = Inr st \<Longrightarrow>
    shut_step E nets sh (sh\<lparr>sh_run := st\<rparr>)"
| shut_api: "sh_calls sh = StopAPI # cs \<Longrightarrow>
    shut_step E nets sh (sh\<lparr>sh_calls := cs, sh_run := (sh_run sh)\<lparr>nr_api := api_Stop (nr_api (sh_run sh))\<rparr>\<rparr>)"
| shut_other: "sh_calls sh = c # cs \<Longrightarrow> c \<in> {StopHealth, StopDevP2P, StopCluster, CloseRedis, StopManager} \<Longrightarrow>
    shut_step E nets sh (sh\<lparr>sh_calls := cs\<rparr>)"
| shut_cancel: "sh_calls sh = StopCoordinator # cs \<Longrightarrow> nodeDo E Cancel (sh_run sh) = Inr st \<Longrightarrow>
    shut_step E nets sh (sh\<lparr>sh_run := st\<rparr>)"
| shut_wait: "sh_calls sh = StopCoordinator # cs \<Longrightarrow> co_cancelled (sv_coordinator (nr_api (sh_run sh))) \<Longrightarrow> workers_stopped (sh_run sh) \<Longrightarrow>
    shut_step E nets sh (sh\<lparr>sh_calls := cs\<rparr>)"
| shut_close: "sh_calls sh = CloseStorage # cs \<Longrightarrow> shut_step E nets sh (sh\<lparr>sh_calls := cs, sh_closed := True\<rparr>)"

section \<open>The workers stop\<close>

text \<open>How many steps a worker takes at most once the context is cancelled.\<close>

fun forwardRank :: "worker_pc \<Rightarrow> nat" where
  "forwardRank Stopped = 0"
| "forwardRank Idle = 1"
| "forwardRank (Failed n) = 2"
| "forwardRank (Synced n) = 2"
| "forwardRank (Validated n b) = 3"
| "forwardRank (Fetched n b) = 4"
| "forwardRank (Fetching n) = 5"
| "forwardRank (Checking n) = 6"
| "forwardRank (Claimed n) = 7"

fun batchRank :: "batch_pc \<Rightarrow> nat" where
  "batchRank BStopped = 0"
| "batchRank BPolling = 1"
| "batchRank (BCounted n) = 2"
| "batchRank (BStored n) = 3"
| "batchRank (BValidated bs) = 4"
| "batchRank (BFetched bs) = 5"
| "batchRank (BGap gap) = 6"
| "batchRank BReady = 7"
| "batchRank BRunning = 8"

definition stopRank :: "('s, 'c, 'l, 'x) node_run \<Rightarrow> nat" where
  "stopRank st = sum_list (map forwardRank (nr_forward st)) + sum_list (map batchRank (nr_backward st))"

lemma workerStep_rank:
  "workerStep H now net True ops pc f s = Inr (pc', f', s') \<Longrightarrow> forwardRank pc' \<le> forwardRank pc - 1"
  by (cases pc) (auto split: if_splits outcome.splits prod.splits)

lemma batchStep_rank:
  "batchStep H now net True ops pc b s = Inr (pc', b', s') \<Longrightarrow> batchRank pc' \<le> batchRank pc - 1"
  by (cases pc) (auto simp: Let_def split: if_splits option.splits outcome.splits prod.splits)

lemma rank_0 [simp]: "forwardRank pc = 0 \<longleftrightarrow> pc = Stopped" "batchRank q = 0 \<longleftrightarrow> q = BStopped"
  by (cases pc; simp) (cases q; simp)

lemma rank_bounds: "forwardRank pc \<le> 7" "batchRank q \<le> 8"
  by (cases pc; simp) (cases q; simp)

lemma stopRank_bound: "stopRank st \<le> 7 * length (nr_forward st) + 8 * length (nr_backward st)"
proof -
  have "sum_list (map forwardRank xs) \<le> 7 * length xs" for xs by (induction xs) (use rank_bounds(1) in \<open>auto intro: add_mono\<close>)
  moreover have "sum_list (map batchRank xs) \<le> 8 * length xs" for xs by (induction xs) (use rank_bounds(2) in \<open>auto intro: add_mono\<close>)
  ultimately show ?thesis unfolding stopRank_def by (meson add_mono)
qed

lemma sum_list_update_less:
  fixes f :: "'a \<Rightarrow> nat"
  assumes "i < length xs" and "f x \<le> f (xs ! i) - 1"
  shows "sum_list (map f (xs[i := x])) \<le> sum_list (map f xs) - (if f (xs ! i) = 0 then 0 else 1)"
proof -
  have "sum_list (map f (xs[i := x])) + f (xs ! i) = sum_list (map f xs) + f x"
    using assms(1) by (induction xs arbitrary: i) (auto simp: nth_Cons' split: nat.split)
  moreover have "f (xs ! i) \<le> sum_list (map f xs)" using assms(1) by (metis elem_le_sum_list length_map nth_map)
  ultimately show ?thesis using assms(2) by (cases "f (xs ! i)") auto
qed

text \<open>A step of a worker that has not stopped; a run of a list of actions and how many of its steps are such steps.\<close>

fun busy :: "node_action \<Rightarrow> ('s, 'c, 'l, 'x) node_run \<Rightarrow> bool" where
  "busy (ForwardWorker i now net) st \<longleftrightarrow> co_forwardSync (sv_coordinator (nr_api st)) \<noteq> None \<and> i < length (nr_forward st) \<and> nr_forward st ! i \<noteq> Stopped"
| "busy (BackwardWorker i now net) st \<longleftrightarrow> co_backwardSync (sv_coordinator (nr_api st)) \<noteq> None \<and> i < length (nr_backward st) \<and> nr_backward st ! i \<noteq> BStopped"
| "busy _ st \<longleftrightarrow> False"

fun nodeRun ::
  "('s, 'c, 'l, 'e, 'r) run_env \<Rightarrow> node_action list \<Rightarrow> ('s, 'c, 'l, 'x) node_run \<Rightarrow> go_panic + ('s, 'c, 'l, 'x) node_run" where
  "nodeRun E [] st = Inr st"
| "nodeRun E (a # as) st = (case nodeDo E a st of Inl p \<Rightarrow> Inl p | Inr st' \<Rightarrow> nodeRun E as st')"

fun busySteps :: "('s, 'c, 'l, 'e, 'r) run_env \<Rightarrow> node_action list \<Rightarrow> ('s, 'c, 'l, 'x) node_run \<Rightarrow> nat" where
  "busySteps E [] st = 0"
| "busySteps E (a # as) st =
     (case nodeDo E a st of Inl p \<Rightarrow> 0 | Inr st' \<Rightarrow> (if busy a st then 1 else 0) + busySteps E as st')"

abbreviation cancelled :: "('s, 'c, 'l, 'x) node_run \<Rightarrow> bool" where
  "cancelled st \<equiv> co_cancelled (sv_coordinator (nr_api st))"

lemma cancelled_parts [simp]:
  "co_cancelled (PauseBackwardSync c) = co_cancelled c" "co_cancelled (ResumeBackwardSync c) = co_cancelled c"
  "co_cancelled (updateStatus ops c s) = co_cancelled c"
  by (simp_all add: PauseBackwardSync_def ResumeBackwardSync_def updateStatus_def Let_def)

lemma step_rank:
  assumes "mux_contract (re_mux E)" and "cancelled st" and "nodeDo E a st = Inr st'"
  shows "cancelled st' \<and> stopRank st' + (if busy a st then 1 else 0) \<le> stopRank st"
proof (cases a)
  case (ForwardWorker i now net)
  show ?thesis
  proof (cases "co_forwardSync (sv_coordinator (nr_api st)) \<noteq> None \<and> i < length (nr_forward st)")
    case True
    then obtain f where f: "co_forwardSync (sv_coordinator (nr_api st)) = Some f" and i: "i < length (nr_forward st)" by auto
    obtain pc f' s where w: "workerStep (re_hash E) now net True (re_ops E) (nr_forward st ! i) f (sv_storage (nr_api st)) = Inr (pc, f', s)"
      and st': "st' = st\<lparr>nr_forward := (nr_forward st)[i := pc], nr_api := setForward f' (nr_api st)\<lparr>sv_storage := s\<rparr>\<rparr>"
      using assms(2,3) ForwardWorker f i by (auto simp: Let_def split: sum.splits)
    have le: "forwardRank (nr_forward st ! i) \<le> sum_list (map forwardRank (nr_forward st))" using i by (metis elem_le_sum_list length_map nth_map)
    have "sum_list (map forwardRank ((nr_forward st)[i := pc])) \<le> sum_list (map forwardRank (nr_forward st)) - (if nr_forward st ! i = Stopped then 0 else 1)"
      using sum_list_update_less [of i "nr_forward st" forwardRank pc, OF i workerStep_rank [OF w]] by simp
    moreover have "nr_forward st ! i \<noteq> Stopped \<Longrightarrow> 1 \<le> sum_list (map forwardRank (nr_forward st))"
      using le rank_0(1) [of "nr_forward st ! i"] by linarith
    ultimately show ?thesis using assms(2) ForwardWorker f i by (auto simp: st' stopRank_def setForward_def)
  qed (use assms(2,3) ForwardWorker in \<open>auto simp: Let_def split: option.splits if_splits\<close>)
next
  case (BackwardWorker i now net)
  show ?thesis
  proof (cases "co_backwardSync (sv_coordinator (nr_api st)) \<noteq> None \<and> i < length (nr_backward st)")
    case True
    then obtain b where b: "co_backwardSync (sv_coordinator (nr_api st)) = Some b" and i: "i < length (nr_backward st)" by auto
    obtain pc b' s where w: "batchStep (re_hash E) now net True (re_ops E) (nr_backward st ! i) b (sv_storage (nr_api st)) = Inr (pc, b', s)"
      and st': "st' = st\<lparr>nr_backward := (nr_backward st)[i := pc], nr_api := setBackward b' (nr_api st)\<lparr>sv_storage := s\<rparr>\<rparr>"
      using assms(2,3) BackwardWorker b i by (auto simp: Let_def split: sum.splits)
    have le: "batchRank (nr_backward st ! i) \<le> sum_list (map batchRank (nr_backward st))" using i by (metis elem_le_sum_list length_map nth_map)
    have "sum_list (map batchRank ((nr_backward st)[i := pc])) \<le> sum_list (map batchRank (nr_backward st)) - (if nr_backward st ! i = BStopped then 0 else 1)"
      using sum_list_update_less [of i "nr_backward st" batchRank pc, OF i batchStep_rank [OF w]] by simp
    moreover have "nr_backward st ! i \<noteq> BStopped \<Longrightarrow> 1 \<le> sum_list (map batchRank (nr_backward st))"
      using le rank_0(2) [of "nr_backward st ! i"] by linarith
    ultimately show ?thesis using assms(2) BackwardWorker b i by (auto simp: st' stopRank_def setBackward_def)
  qed (use assms(2,3) BackwardWorker in \<open>auto simp: Let_def split: option.splits if_splits\<close>)
next
  case (Request now r)
  with assms(2,3) request_frame [OF assms(1), of "nr_api st" "re_jwt E" "re_rate E" "re_ops E" now r] show ?thesis
    by (auto simp: stopRank_def)
qed (use assms(2,3) in \<open>auto simp: stopRank_def setForward_def Let_def split: option.splits sum.splits prod.splits outcome.splits\<close>)

lemma busySteps_bound: "mux_contract (re_mux E) \<Longrightarrow> cancelled st \<Longrightarrow> busySteps E as st \<le> stopRank st"
proof (induction as arbitrary: st)
  case (Cons a as)
  show ?case
  proof (cases "nodeDo E a st")
    case (Inr st')
    with step_rank [OF Cons.prems Inr] Cons.IH [of st'] Cons.prems(1) show ?thesis by auto
  qed simp
qed simp

lemma stopRank_0: "stopRank st = 0 \<Longrightarrow> workers_stopped st"
  by (auto simp: stopRank_def workers_stopped_def list_all_iff)

lemma busy_exists:
  assumes "\<not> workers_stopped st" and "co_forwardSync (sv_coordinator (nr_api st)) \<noteq> None" and "co_backwardSync (sv_coordinator (nr_api st)) \<noteq> None"
  shows "\<exists>i. busy (ForwardWorker i now net) st \<or> busy (BackwardWorker i nows net) st"
proof -
  have "(\<exists>pc \<in> set (nr_forward st). pc \<noteq> Stopped) \<or> (\<exists>pc \<in> set (nr_backward st). pc \<noteq> BStopped)"
    using assms(1) by (auto simp: workers_stopped_def list_all_iff)
  then obtain i where "(i < length (nr_forward st) \<and> nr_forward st ! i \<noteq> Stopped) \<or> (i < length (nr_backward st) \<and> nr_backward st ! i \<noteq> BStopped)"
    by (metis in_set_conv_nth)
  then show ?thesis using assms(2,3) by auto
qed

lemma frame_syncers:
  "node_frame st' = node_frame st \<Longrightarrow> (co_forwardSync (sv_coordinator (nr_api st')) = None \<longleftrightarrow> co_forwardSync (sv_coordinator (nr_api st)) = None) \<and>
   (co_backwardSync (sv_coordinator (nr_api st')) = None \<longleftrightarrow> co_backwardSync (sv_coordinator (nr_api st)) = None)"
  by (auto simp: node_frame_def Let_def)

lemma nodeRun_frame: "nodeRun E as st = Inr st' \<Longrightarrow> mux_contract (re_mux E) \<Longrightarrow> node_frame st' = node_frame st"
proof (induction as arbitrary: st)
  case (Cons a as)
  then show ?case using step_frame by (fastforce split: sum.splits)
qed simp

lemma start_has_syncers:
  assumes "startNode ME now path dir = Some (Ok nd)"
  shows "co_forwardSync (sv_coordinator (nr_api (node_start nd))) \<noteq> None \<and> co_backwardSync (sv_coordinator (nr_api (node_start nd))) \<noteq> None"
  by (rule startNode_parts [OF assms]) (use coord_Start_syncers(3,4) in \<open>fastforce simp: node_start_def\<close>)

section \<open>Properties\<close>



lemma stopped_stays:
  assumes "workers_stopped st" and "nodeDo E a st = Inr st'"
  shows "workers_stopped st'"
proof -
  have "nr_forward st ! i = Stopped" if "i < length (nr_forward st)" for i using assms(1) that by (simp add: workers_stopped_def list_all_length)
  moreover have "nr_backward st ! i = BStopped" if "i < length (nr_backward st)" for i using assms(1) that by (simp add: workers_stopped_def list_all_length)
  ultimately show ?thesis
    using assms by (cases a) (auto simp: workers_stopped_def list_all_length nth_list_update Let_def split: option.splits if_splits sum.splits prod.splits)
qed

text \<open>
  C5. The storage is closed last: in every run of the deferred calls, interleaved with the goroutines that
  are still at work, once the storage has been closed every worker has returned, all calls are done
  and nothing happens any more, so no block is written to a closed storage.
\<close>

theorem storage_closed_last:
  assumes "(shut_step E nets)\<^sup>*\<^sup>* \<lparr>sh_run = st, sh_calls = deferredCalls nd, sh_closed = False\<rparr> sh" and "sh_closed sh"
  shows "workers_stopped (sh_run sh) \<and> sh_calls sh = [] \<and> \<not> shut_step E nets sh sh'"
proof -
  have last: "cs = []" if "deferredCalls nd = pre @ CloseStorage # cs" for pre cs
    using arg_cong [OF that, of rev] by (auto simp: deferredCalls_def Cons_eq_append_conv split: if_splits)
  let ?I = "\<lambda>sh. (\<exists>pre. deferredCalls nd = pre @ sh_calls sh) \<and>
    (StopCoordinator \<notin> set (sh_calls sh) \<longrightarrow> workers_stopped (sh_run sh)) \<and> (sh_closed sh \<longrightarrow> sh_calls sh = [])"
  have "?I sh" using assms(1)
  proof (induction rule: rtranclp_induct)
    case base
    show ?case by (auto simp: deferredCalls_def)
  next
    case (step sh1 sh2)
    from step(2,3) show ?case
    proof (cases rule: shut_step.cases)
      case (shut_goroutine a st)
      with step(3) stopped_stays show ?thesis by auto
    next
      case (shut_api cs)
      with step(3) show ?thesis by (auto simp: workers_stopped_def intro: exI [of _ "_ @ [StopAPI]"])
    next
      case (shut_other c cs)
      with step(3) show ?thesis by (auto intro: exI [of _ "_ @ [c]"])
    next
      case (shut_cancel cs st)
      with step(3) show ?thesis by auto
    next
      case (shut_wait cs)
      with step(3) show ?thesis by (auto intro: exI [of _ "_ @ [StopCoordinator]"])
    next
      case (shut_close cs)
      with step(3) last show ?thesis by (auto intro: exI [of _ "_ @ [CloseStorage]"])
    qed
  qed
  then show ?thesis using assms(2) by (auto elim: shut_step.cases)
qed

lemma shut_run_trans: "shut_step E nets sh sh1 \<Longrightarrow> (shut_step E nets)\<^sup>*\<^sup>* sh1 sh2 \<Longrightarrow> (shut_step E nets)\<^sup>*\<^sup>* sh sh2"
  by (rule converse_rtranclp_into_rtranclp)

theorem storage_closed_last_witness:
  "\<exists>(nd :: (bytes \<rightharpoonup> bytes, string, ex_redis, unit, unit, ex_bucket, unit) Node) sh.
    startNode (ex_node_env ex_disk) 0 '''' '''' = Some (Ok nd) \<and>
    (shut_step (ex_run_env ex_disk) ex_nets)\<^sup>*\<^sup>*
      \<lparr>sh_run = (node_start nd)\<lparr>nr_forward := [Idle], nr_backward := []\<rparr>, sh_calls = deferredCalls nd, sh_closed = False\<rparr> sh \<and>
    sh_closed sh \<and> workers_stopped (sh_run sh)"
proof -
  let ?E = "ex_run_env ex_disk"
  obtain nd :: "(bytes \<rightharpoonup> bytes, string, ex_redis, unit, unit, ex_bucket, unit) Node" where
    nd: "startNode (ex_node_env ex_disk) 0 '''' '''' = Some (Ok nd)" "nd_cluster nd = None" "nd_devp2p nd = None"
    using ex_node_starts [of ex_disk, OF ex_disk_props(1)] by auto
  obtain f where f: "co_forwardSync (sv_coordinator (nd_api nd)) = Some f" using start_has_syncers [OF nd(1)] by (auto simp: node_start_def)
  define st0 where "st0 = (node_start nd)\<lparr>nr_forward := [Idle], nr_backward := []\<rparr>"
  define st1 where "st1 = st0\<lparr>nr_api := api_Stop (nr_api st0)\<rparr>"
  define st2 where "st2 = st1\<lparr>nr_api := (nr_api st1)\<lparr>sv_coordinator := (sv_coordinator (nr_api st1))\<lparr>co_cancelled := True\<rparr>\<rparr>\<rparr>"
  define st3 where "st3 = st2\<lparr>nr_forward := [Stopped], nr_api := setForward f (nr_api st2)\<lparr>sv_storage := sv_storage (nr_api st2)\<rparr>\<rparr>"
  have calls: "deferredCalls nd = [StopAPI, StopHealth, StopCoordinator, StopManager, CloseStorage]" using nd by (simp add: deferredCalls_def)
  let ?sh = "\<lambda>st cs c. \<lparr>sh_run = st, sh_calls = cs, sh_closed = c\<rparr> :: ((bytes \<rightharpoonup> bytes) storage_engine, checkpoint_source, ex_bucket, unit) shutdown"
  have f2: "co_forwardSync (sv_coordinator (nr_api st2)) = Some f" "nr_forward st2 = [Idle]" "cancelled st2" "nodeDo ?E Cancel st1 = Inr st2"
    using f by (simp_all add: st2_def st1_def st0_def api_Stop_def node_start_def Let_def)
  have stop: "nodeDo ?E (ForwardWorker 0 0 ex_net) st2 = Inr st3" using f2 by (simp add: st3_def Let_def)
  have ws: "workers_stopped st3" "cancelled st3" using f2(3)
    by (simp_all add: st3_def workers_stopped_def setForward_def st2_def st1_def st0_def)
  have "shut_step ?E ex_nets (?sh st0 (deferredCalls nd) False) (?sh st1 [StopHealth, StopCoordinator, StopManager, CloseStorage] False)"
    using shut_api [of "?sh st0 (deferredCalls nd) False" _ ?E ex_nets] calls by (simp add: st1_def)
  moreover have "shut_step ?E ex_nets (?sh st1 [StopHealth, StopCoordinator, StopManager, CloseStorage] False) (?sh st1 [StopCoordinator, StopManager, CloseStorage] False)"
    using shut_other [of "?sh st1 [StopHealth, StopCoordinator, StopManager, CloseStorage] False" _ _ ?E ex_nets] by simp
  moreover have "shut_step ?E ex_nets (?sh st1 [StopCoordinator, StopManager, CloseStorage] False) (?sh st2 [StopCoordinator, StopManager, CloseStorage] False)"
    using shut_cancel [of "?sh st1 [StopCoordinator, StopManager, CloseStorage] False" _ ?E st2 ex_nets] f2(4) by simp
  moreover have "shut_step ?E ex_nets (?sh st2 [StopCoordinator, StopManager, CloseStorage] False) (?sh st3 [StopCoordinator, StopManager, CloseStorage] False)"
    using shut_goroutine [of "?sh st2 [StopCoordinator, StopManager, CloseStorage] False" ex_nets "ForwardWorker 0 0 ex_net" ?E st3] stop by simp
  moreover have "shut_step ?E ex_nets (?sh st3 [StopCoordinator, StopManager, CloseStorage] False) (?sh st3 [StopManager, CloseStorage] False)"
    using shut_wait [of "?sh st3 [StopCoordinator, StopManager, CloseStorage] False" _ ?E ex_nets] ws by simp
  moreover have "shut_step ?E ex_nets (?sh st3 [StopManager, CloseStorage] False) (?sh st3 [CloseStorage] False)"
    using shut_other [of "?sh st3 [StopManager, CloseStorage] False" _ _ ?E ex_nets] by simp
  moreover have "shut_step ?E ex_nets (?sh st3 [CloseStorage] False) (?sh st3 [] True)"
    using shut_close [of "?sh st3 [CloseStorage] False" _ ?E ex_nets] by simp
  ultimately have run: "(shut_step ?E ex_nets)\<^sup>*\<^sup>* (?sh st0 (deferredCalls nd) False) (?sh st3 [] True)"
    by (meson shut_run_trans rtranclp.rtrancl_refl)
  with storage_closed_last [OF run] nd(1) show ?thesis
    by (intro exI [of _ nd] exI [of _ "?sh st3 [] True"]) (simp add: st0_def)
qed

end
