(* ===== verification/Cluster_Run.thy ===== *)
theory Cluster_Run
  imports Node_Main
begin

text \<open>
  A cluster at work: several coordinators of \<open>pkg/cluster/coordinator.go\<close> on one Redis server. Each
  instance sends heartbeats, discovers its peers, elects a leader and handles events whenever one of its
  loops comes round (\<open>clusterDo\<close>); instances join and stop at any time, and time passes in between. A
  published event may reach any instance, any number of times. \<open>PUBLISH\<close> does not touch the keys of the
  server, so the events are kept beside its state. An election may come round at any instance, also at
  one that has elections turned off; this only adds runs.
\<close>

section \<open>Model\<close>

record 'r cluster_run =
  cr_inst :: "string \<rightharpoonup> ClusterCoordinator"
  cr_redis :: 'r
  cr_events :: "json_object list"
  cr_now :: int

text \<open>What the loops need of the outside: the Redis client, the JSON encoding and the cache configuration.\<close>

record 'r cluster_env =
  ce_redis :: "'r redis_ops"
  ce_json :: json_codec
  ce_config :: RedisConfig

definition knownStatuses :: "'r cluster_env \<Rightarrow> 'r cluster_run \<Rightarrow> (string \<times> json_object) list option" where
  "knownStatuses E st =
     (case GetAllInstanceStatuses (ce_redis E) (ce_json E) (ce_config E) (cr_now st) (cr_redis st) of Ok entries \<Rightarrow> Some entries | _ \<Rightarrow> None)"

text \<open>A tick of each loop; a heartbeat that cannot be stored is only reported.\<close>

definition heartbeatLoop :: "'r cluster_env \<Rightarrow> string \<Rightarrow> 'r cluster_run \<Rightarrow> 'r cluster_run" where
  "heartbeatLoop E i st =
     (case cr_inst st i of
        None \<Rightarrow> st
      | Some c \<Rightarrow> st\<lparr>cr_redis := snd (SetSyncStatus (ce_redis E) (ce_json E) (ce_config E) (cr_now st) (cr_redis st) (cl_instanceID c)
          (sendHeartbeat (cr_now st) c))\<rparr>)"

definition discoveryLoop :: "'r cluster_env \<Rightarrow> string \<Rightarrow> 'r cluster_run \<Rightarrow> 'r cluster_run" where
  "discoveryLoop E i st =
     (case cr_inst st i of
        None \<Rightarrow> st
      | Some c \<Rightarrow> st\<lparr>cr_inst := (cr_inst st)(i \<mapsto> discoverPeers (cr_now st) (knownStatuses E st) c)\<rparr>)"

definition eventLoop :: "'r cluster_env \<Rightarrow> string \<Rightarrow> json_object option \<Rightarrow> 'r cluster_run \<Rightarrow> 'r cluster_run" where
  "eventLoop E i event st =
     (case cr_inst st i of
        None \<Rightarrow> st
      | Some c \<Rightarrow> st\<lparr>cr_inst := (cr_inst st)(i \<mapsto> handleEvent (cr_now st) (knownStatuses E st) event c)\<rparr>)"

definition leaderElectionLoop :: "string \<Rightarrow> string list \<Rightarrow> 'r cluster_run \<Rightarrow> 'r cluster_run" where
  "leaderElectionLoop i ids st =
     (case cr_inst st i of
        None \<Rightarrow> st
      | Some c \<Rightarrow> (case electLeader (cr_now st) ids c of None \<Rightarrow> st | Some event \<Rightarrow> st\<lparr>cr_events := event # cr_events st\<rparr>))"

text \<open>\<open>Stop\<close> ends the loops; neither the status entry is deleted nor an event published.\<close>

definition cluster_Stop :: "string \<Rightarrow> 'r cluster_run \<Rightarrow> 'r cluster_run" where
  "cluster_Stop i st = st\<lparr>cr_inst := (cr_inst st)(i := None)\<rparr>"

datatype cluster_action =
    Join CoordinatorConfig
  | Heartbeat string
  | Discover string
  | Elect string "string list"
  | AnnounceBlock string u64
  | Deliver string "json_object option"
  | Elapse nat
  | Leave string

fun clusterDo :: "'r cluster_env \<Rightarrow> cluster_action \<Rightarrow> 'r cluster_run \<Rightarrow> 'r cluster_run" where
  "clusterDo E (Join cfg) st = st\<lparr>cr_inst := (cr_inst st)(cc_InstanceID cfg \<mapsto> NewClusterCoordinator cfg)\<rparr>"
| "clusterDo E (Heartbeat i) st = heartbeatLoop E i st"
| "clusterDo E (Discover i) st = discoveryLoop E i st"
| "clusterDo E (Elect i ids) st = leaderElectionLoop i ids st"
| "clusterDo E (AnnounceBlock i n) st =
     (case cr_inst st i of None \<Rightarrow> st | Some c \<Rightarrow> st\<lparr>cr_events := PublishBlockSynced (cr_now st) c n # cr_events st\<rparr>)"
| "clusterDo E (Deliver i event) st = eventLoop E i event st"
| "clusterDo E (Elapse d) st = st\<lparr>cr_now := cr_now st + int d\<rparr>"
| "clusterDo E (Leave i) st = cluster_Stop i st"

text \<open>An event that arrives was published, or cannot be decoded.\<close>

fun possible :: "cluster_action \<Rightarrow> 'r cluster_run \<Rightarrow> bool" where
  "possible (Deliver i (Some event)) st \<longleftrightarrow> event \<in> set (cr_events st)"
| "possible _ st \<longleftrightarrow> True"

inductive cluster_reach :: "'r cluster_env \<Rightarrow> (cluster_action \<Rightarrow> bool) \<Rightarrow> 'r cluster_run \<Rightarrow> 'r cluster_run \<Rightarrow> bool"
  for E allow st0 where
  cluster_refl: "cluster_reach E allow st0 st0"
| cluster_do: "cluster_reach E allow st0 st \<Longrightarrow> allow a \<Longrightarrow> possible a st \<Longrightarrow> cluster_reach E allow st0 (clusterDo E a st)"

section \<open>What instances know of each other\<close>

text \<open>The events that the code publishes change nothing at the receiver.\<close>

definition harmless :: "json_object \<Rightarrow> bool" where
  "harmless event \<longleftrightarrow> as_string event ''type'' \<in> {Some ''leader_changed'', Some ''block_synced''}"

lemma published_harmless: "harmless (PublishBlockSynced now c n)" "harmless (announceLeader now c)"
  by (simp_all add: harmless_def as_string_def PublishBlockSynced_def announceLeader_def)

lemma harmless_event: "harmless event \<Longrightarrow> handleEvent now statuses (Some event) c = c"
  by (auto simp: harmless_def handleEvent_def or_zero_def Let_def)

lemma elect_harmless: "electLeader now ids c = Some event \<Longrightarrow> harmless event"
  by (auto simp: electLeader_def published_harmless split: if_splits)

lemma deliver_known:
  assumes "\<forall>e \<in> set (cr_events st). harmless e" and "possible (Deliver i event) st"
  shows "eventLoop E i event st = st"
proof -
  have "handleEvent now statuses event c = c" for now statuses c
    using assms harmless_event [of "the event"] by (cases event) (simp_all add: handleEvent_def)
  then show ?thesis by (simp add: eventLoop_def fun_upd_idem split: option.split)
qed

lemma discover_instance [simp]:
  "cl_instanceID (discoverPeers now statuses c) = cl_instanceID c" "cl_config (discoverPeers now statuses c) = cl_config c"
proof -
  have "cl_instanceID (foldl (discoverOne now) c es) = cl_instanceID c \<and> cl_config (foldl (discoverOne now) c es) = cl_config c" for es
    by (rule foldl_invariant) simp_all
  then show "cl_instanceID (discoverPeers now statuses c) = cl_instanceID c" "cl_config (discoverPeers now statuses c) = cl_config c"
    by (simp_all add: discoverPeers_def split: option.split)
qed

lemma healthy_discoverPeers:
  assumes "distinct (map fst es)"
  shows "healthy_peers (discoverPeers now (Some es) c) =
    (healthy_peers c - (fst ` set es - {cl_instanceID c})) \<union>
    {i. i \<noteq> cl_instanceID c \<and> (\<exists>st. (i, st) \<in> set es \<and> fresh now c st)}"
  by (simp add: discoverPeers_def healthy_discover [OF assms])

lemma new_instance [simp]:
  "cl_instanceID (NewClusterCoordinator cfg) = cc_InstanceID cfg" "healthy_peers (NewClusterCoordinator cfg) = {}"
  by (simp_all add: NewClusterCoordinator_def healthy_peers_def Let_def)

section \<open>What the server shows\<close>

abbreviation statusEntry :: "'r cluster_env \<Rightarrow> string \<Rightarrow> string" where
  "statusEntry E i \<equiv> cacheKey (ce_config E) (statusKey i)"

lemma statusEntry_inject [simp]: "statusKey i = statusKey j \<longleftrightarrow> i = j"
  by (simp add: statusKey_def)

text \<open>What an instance learns in a round of discovery: the decodable live entries.\<close>

lemma known_statuses:
  assumes "redis_contract (ce_redis E) live" and "plain_pattern (rcf_Prefix (ce_config E))"
  obtains es where "knownStatuses E st = Some es" and "distinct (map fst es)"
    and "\<And>i d. (i, d) \<in> set es \<longleftrightarrow> (\<exists>x. live (cr_redis st) (cr_now st) (statusEntry E i) = Some x \<and> js_unObject (ce_json E) x = Ok d)"
  by (rule all_statuses [OF assms, of "ce_json E" "cr_now st" "cr_redis st"]) (auto simp: knownStatuses_def)

text \<open>A heartbeat that can be encoded replaces the sender's entry, for a minute.\<close>

lemma heartbeat_effect:
  assumes "redis_contract (ce_redis E) live" and "cr_inst st i = Some c" and "cr_now st \<le> t"
  shows "live (cr_redis (heartbeatLoop E i st)) t =
    (case js_Object (ce_json E) (sendHeartbeat (cr_now st) c) of
       Ok x \<Rightarrow> (live (cr_redis st) t)(statusEntry E (cl_instanceID c) := if t < cr_now st + 60000000000 then Some x else None)
     | _ \<Rightarrow> live (cr_redis st) t)"
proof (cases "js_Object (ce_json E) (sendHeartbeat (cr_now st) c)")
  case (Ok x)
  obtain s' where "cacheSet (ce_redis E) (ce_config E) (Ok x) (cr_now st) (cr_redis st) (statusKey (cl_instanceID c)) 60000000000 = (Ok (), s')"
    "live s' t = (live (cr_redis st) t)(statusEntry E (cl_instanceID c) := if t < cr_now st + 60000000000 then Some x else None)"
    by (rule cacheSet_live [OF assms(1), of "ce_config E" x "cr_now st" "cr_redis st" "statusKey (cl_instanceID c)" 60000000000])
      (simp add: assms(3))
  then show ?thesis using assms(2) Ok by (simp add: heartbeatLoop_def SetSyncStatus_def)
qed (use assms(2) in \<open>simp_all add: heartbeatLoop_def SetSyncStatus_def cacheSet_def\<close>)

lemma heartbeat_others:
  assumes "redis_contract (ce_redis E) live" and "cr_inst st i = Some c" and "cr_now st \<le> t" and "k \<noteq> statusEntry E (cl_instanceID c)"
  shows "live (cr_redis (heartbeatLoop E i st)) t k = live (cr_redis st) t k"
  by (simp add: heartbeat_effect [OF assms(1-3)] assms(4) split: outcome.split)

lemma loops_frame [simp]:
  "cr_inst (heartbeatLoop E i st) = cr_inst st" "cr_now (heartbeatLoop E i st) = cr_now st" "cr_events (heartbeatLoop E i st) = cr_events st"
  "cr_redis (discoveryLoop E i st) = cr_redis st" "cr_now (discoveryLoop E i st) = cr_now st" "cr_events (discoveryLoop E i st) = cr_events st"
  "cr_inst (leaderElectionLoop i ids st) = cr_inst st" "cr_now (leaderElectionLoop i ids st) = cr_now st"
  "cr_redis (leaderElectionLoop i ids st) = cr_redis st"
  by (simp_all add: heartbeatLoop_def discoveryLoop_def leaderElectionLoop_def split: option.split)

lemma discovery_inst:
  "cr_inst (discoveryLoop E i st) j =
     (if j = i then map_option (discoverPeers (cr_now st) (knownStatuses E st)) (cr_inst st i) else cr_inst st j)"
  by (simp add: discoveryLoop_def split: option.split)

lemma election_events: "set (cr_events (leaderElectionLoop i ids st)) \<subseteq> set (cr_events st) \<union> Collect harmless"
  by (auto simp: leaderElectionLoop_def elect_harmless split: option.splits)

section \<open>Only members are known\<close>

definition cluster_inv :: "'r cluster_env \<Rightarrow> ('r \<Rightarrow> int \<Rightarrow> string \<Rightarrow> bytes option) \<Rightarrow> string set \<Rightarrow> 'r cluster_run \<Rightarrow> bool" where
  "cluster_inv E live I st \<longleftrightarrow>
     (\<forall>i c. cr_inst st i = Some c \<longrightarrow> i \<in> I \<and> cl_instanceID c = i \<and> healthy_peers c \<subseteq> I) \<and>
     (\<forall>i. live (cr_redis st) (cr_now st) (statusEntry E i) \<noteq> None \<longrightarrow> i \<in> I) \<and>
     (\<forall>e \<in> set (cr_events st). harmless e)"

lemma cluster_inv_parts:
  assumes "cluster_inv E live I st"
  shows "cr_inst st i = Some c \<Longrightarrow> i \<in> I \<and> cl_instanceID c = i \<and> healthy_peers c \<subseteq> I"
    and "live (cr_redis st) (cr_now st) (statusEntry E i) \<noteq> None \<Longrightarrow> i \<in> I" and "\<forall>e \<in> set (cr_events st). harmless e"
  using assms by (simp_all add: cluster_inv_def)

fun joins_of :: "string set \<Rightarrow> cluster_action \<Rightarrow> bool" where
  "joins_of I (Join cfg) \<longleftrightarrow> cc_InstanceID cfg \<in> I"
| "joins_of I _ \<longleftrightarrow> True"

lemma heartbeat_inv:
  assumes "redis_contract (ce_redis E) live" and "cluster_inv E live I st"
  shows "cluster_inv E live I (heartbeatLoop E i st)"
proof (cases "cr_inst st i")
  case (Some c)
  note parts = cluster_inv_parts [OF assms(2)]
  have "j \<in> I" if "live (cr_redis (heartbeatLoop E i st)) (cr_now st) (statusEntry E j) \<noteq> None" for j
  proof (cases "j = cl_instanceID c")
    case False
    then show ?thesis using that parts(2) heartbeat_others [OF assms(1) Some order_refl, of "statusEntry E j"] by simp
  qed (use parts(1) [OF Some] in simp)
  then show ?thesis using parts(1,3) by (simp add: cluster_inv_def)
qed (use assms(2) in \<open>simp add: heartbeatLoop_def\<close>)

lemma discovery_inv:
  assumes "redis_contract (ce_redis E) live" and "plain_pattern (rcf_Prefix (ce_config E))" and "cluster_inv E live I st"
  shows "cluster_inv E live I (discoveryLoop E i st)"
proof -
  note parts = cluster_inv_parts [OF assms(3)]
  obtain es where es: "knownStatuses E st = Some es" "distinct (map fst es)"
    "\<And>i d. (i, d) \<in> set es \<longleftrightarrow> (\<exists>x. live (cr_redis st) (cr_now st) (statusEntry E i) = Some x \<and> js_unObject (ce_json E) x = Ok d)"
    by (rule known_statuses [OF assms(1,2), of st]) blast
  have "j \<in> I" if "(j, d) \<in> set es" for j d using that es(3) parts(2) by blast
  then have "healthy_peers (discoverPeers (cr_now st) (Some es) c) \<subseteq> I" if "cr_inst st i = Some c" for c
    using parts(1) [OF that] unfolding healthy_discoverPeers [OF es(2)] by blast
  then have "j \<in> I \<and> cl_instanceID c = j \<and> healthy_peers c \<subseteq> I" if "cr_inst (discoveryLoop E i st) j = Some c" for j c
    using that parts(1) es(1) by (auto simp: discovery_inst split: if_splits)
  then show ?thesis using parts(2,3) by (simp add: cluster_inv_def)
qed

lemma cluster_step_inv:
  assumes "redis_contract (ce_redis E) live" and "plain_pattern (rcf_Prefix (ce_config E))" and "cluster_inv E live I st"
    and "joins_of I a" and "possible a st"
  shows "cluster_inv E live I (clusterDo E a st)"
proof (cases a)
  case (Deliver i event)
  then show ?thesis using deliver_known [OF cluster_inv_parts(3) [OF assms(3)], of i event E] assms(3,5) by simp
next
  case (Elapse d)
  have "j \<in> I" if "live (cr_redis st) (cr_now st + int d) (statusEntry E j) \<noteq> None" for j
    using redis_live_mono [OF assms(1) _ that, of "cr_now st"] cluster_inv_parts(2) [OF assms(3)] by simp
  then show ?thesis using Elapse assms(3) by (simp add: cluster_inv_def)
next
  case (Elect i ids)
  have "\<forall>e \<in> set (cr_events (leaderElectionLoop i ids st)). harmless e"
    using election_events [of i ids st] cluster_inv_parts(3) [OF assms(3)] by blast
  then show ?thesis using Elect assms(3) by (simp add: cluster_inv_def)
qed (use assms(3,4) heartbeat_inv [OF assms(1,3)] discovery_inv [OF assms(1-3)] in
  \<open>auto simp: cluster_inv_def cluster_Stop_def published_harmless split: option.splits\<close>)

lemma cluster_reach_inv:
  assumes "cluster_reach E (joins_of I) st0 st" and "redis_contract (ce_redis E) live" and "plain_pattern (rcf_Prefix (ce_config E))"
    and "cluster_inv E live I st0"
  shows "cluster_inv E live I st"
  using assms(1) by induction (auto intro: cluster_step_inv [OF assms(2,3)] assms(4))

lemma lowest_leads:
  assumes "finite I" and "cluster_inv E live I st" and "cr_inst st (Min I) = Some c"
  shows "isLeader c"
proof -
  have "cl_instanceID c = Min I" "healthy_peers c \<subseteq> I" using cluster_inv_parts(1) [OF assms(2,3)] by simp_all
  then show ?thesis using Min_le [OF assms(1)] by (auto simp: isLeader_iff leD)
qed

text \<open>A discovery finds a peer with a fresh entry.\<close>

lemma discovery_finds:
  assumes "redis_contract (ce_redis E) live" and "plain_pattern (rcf_Prefix (ce_config E))"
    and "live (cr_redis st) (cr_now st) (statusEntry E m) = Some x" and "js_unObject (ce_json E) x = Ok d"
    and "fresh (cr_now st) c d" and "m \<noteq> cl_instanceID c"
  shows "m \<in> healthy_peers (discoverPeers (cr_now st) (knownStatuses E st) c)"
proof -
  obtain es where es: "knownStatuses E st = Some es" "distinct (map fst es)"
    "\<And>i d. (i, d) \<in> set es \<longleftrightarrow> (\<exists>x. live (cr_redis st) (cr_now st) (statusEntry E i) = Some x \<and> js_unObject (ce_json E) x = Ok d)"
    by (rule known_statuses [OF assms(1,2), of st]) blast
  have "(m, d) \<in> set es" using es(3) assms(3,4) by blast
  then show ?thesis using assms(5,6) by (auto simp: es(1) healthy_discoverPeers [OF es(2)])
qed

section \<open>Election\<close>

text \<open>Instances discover their peers one after the other; \<open>d\<close> is the time that passes before the turn of \<open>j\<close>.\<close>

definition discoverTurn :: "'r cluster_env \<Rightarrow> 'r cluster_run \<Rightarrow> nat \<times> string \<Rightarrow> 'r cluster_run" where
  "discoverTurn E st = (\<lambda>(d, j). clusterDo E (Discover j) (clusterDo E (Elapse d) st))"

lemma discover_turn:
  "cr_redis (discoverTurn E st (d, j)) = cr_redis st" "cr_now (discoverTurn E st (d, j)) = cr_now st + int d"
  "cr_inst (discoverTurn E st (d, j)) = (cr_inst st)(j :=
     map_option (discoverPeers (cr_now st + int d) (knownStatuses E (st\<lparr>cr_now := cr_now st + int d\<rparr>))) (cr_inst st j))"
  by (simp_all add: discoverTurn_def discovery_inst fun_eq_iff)

lemma discover_turns_frame:
  "cr_redis (foldl (discoverTurn E) st ts) = cr_redis st \<and> cr_now (foldl (discoverTurn E) st ts) = cr_now st + int (sum_list (map fst ts)) \<and>
   dom (cr_inst (foldl (discoverTurn E) st ts)) = dom (cr_inst st)"
proof (induction ts rule: rev_induct)
  case (snoc t ts)
  then show ?case by (cases t) (auto simp: discover_turn dom_def)
qed simp

lemma discover_turns_inv:
  assumes "redis_contract (ce_redis E) live" and "plain_pattern (rcf_Prefix (ce_config E))" and "cluster_inv E live I st"
  shows "cluster_inv E live I (foldl (discoverTurn E) st ts)"
proof (rule foldl_invariant [where P = "cluster_inv E live I"])
  fix st' t assume "cluster_inv E live I st'"
  then show "cluster_inv E live I (discoverTurn E st' t)"
    unfolding discoverTurn_def by (cases t) (auto simp del: clusterDo.simps intro!: cluster_step_inv [OF assms(1,2)])
qed (rule assms(3))

lemma discover_turns_config:
  fixes st :: "'r cluster_run"
  shows "\<forall>j c. cr_inst (foldl (discoverTurn E) st ts) j = Some c \<longrightarrow>
     (\<exists>c0. cr_inst st j = Some c0 \<and> cl_config c = cl_config c0 \<and> cl_instanceID c = cl_instanceID c0)"
proof (rule foldl_invariant)
  fix st' :: "'r cluster_run" and t
  assume "\<forall>j c. cr_inst st' j = Some c \<longrightarrow> (\<exists>c0. cr_inst st j = Some c0 \<and> cl_config c = cl_config c0 \<and> cl_instanceID c = cl_instanceID c0)"
  then show "\<forall>j c. cr_inst (discoverTurn E st' t) j = Some c \<longrightarrow>
      (\<exists>c0. cr_inst st j = Some c0 \<and> cl_config c = cl_config c0 \<and> cl_instanceID c = cl_instanceID c0)"
    by (cases t) (auto simp: discover_turn)
qed simp

text \<open>
  After a heartbeat of \<open>m\<close> at time \<open>t\<close> every instance with a turn in the next minute and within its own
  peer timeout counts \<open>m\<close> as healthy.
\<close>

lemma turns_find:
  assumes "redis_contract (ce_redis E) live" and "plain_pattern (rcf_Prefix (ce_config E))"
    and "\<And>t'. t \<le> t' \<Longrightarrow> t' < t + 60000000000 \<Longrightarrow> live (cr_redis st) t' (statusEntry E m) = Some x"
    and "js_unObject (ce_json E) x = Ok (sendHeartbeat t b)" and "t = cr_now st"
    and "\<And>j c. cr_inst st j = Some c \<Longrightarrow> cl_instanceID c = j \<and> int (sum_list (map fst ts)) + 1000000000 \<le> cc_PeerTimeout (cl_config c)"
    and "sum_list (map fst ts) < 60000000000"
  shows "\<forall>j c. cr_inst (foldl (discoverTurn E) st ts) j = Some c \<longrightarrow> j \<in> snd ` set ts \<longrightarrow> j \<noteq> m \<longrightarrow> m \<in> healthy_peers c"
  using assms(6,7)
proof (induction ts rule: rev_induct)
  case (snoc dj ts)
  obtain d j where dj: "dj = (d, j)" by fastforce
  let ?st = "foldl (discoverTurn E) st ts"
  let ?u = "?st\<lparr>cr_now := cr_now ?st + int d\<rparr>"
  have "cl_instanceID c = i \<and> int (sum_list (map fst ts)) + 1000000000 \<le> cc_PeerTimeout (cl_config c)"
    if "cr_inst st i = Some c" for i c using snoc.prems(1) [OF that] by simp
  then have IH: "\<forall>j c. cr_inst ?st j = Some c \<longrightarrow> j \<in> snd ` set ts \<longrightarrow> j \<noteq> m \<longrightarrow> m \<in> healthy_peers c"
    using snoc.IH snoc.prems(2) by simp
  have frame: "cr_redis ?st = cr_redis st" "cr_now ?st = t + int (sum_list (map fst ts))"
    using discover_turns_frame [of E st ts] assms(5) by simp_all
  have found: "m \<in> healthy_peers (discoverPeers (cr_now ?u) (knownStatuses E ?u) c)" if c: "cr_inst ?st j = Some c" "j \<noteq> m" for c
  proof -
    obtain c0 where c0: "cr_inst st j = Some c0" "cl_config c = cl_config c0" "cl_instanceID c = cl_instanceID c0"
      using discover_turns_config [of E st ts] c(1) by blast
    have bound: "int (sum_list (map fst (ts @ [dj]))) + 1000000000 \<le> cc_PeerTimeout (cl_config c)" "cl_instanceID c = j"
      using snoc.prems(1) [OF c0(1)] c0(2,3) by simp_all
    show ?thesis
    proof (rule discovery_finds [OF assms(1,2) _ assms(4)])
      show "live (cr_redis ?u) (cr_now ?u) (statusEntry E m) = Some x"
        using assms(3) [of "cr_now ?u"] snoc.prems(2) by (simp add: frame dj)
      show "fresh (cr_now ?u) c (sendHeartbeat t b)"
        using bound(1) unfolding heartbeat_fresh by (simp add: frame dj)
    qed (use bound(2) c(2) in simp)
  qed
  have "discoverTurn E ?st dj = foldl (discoverTurn E) st (ts @ [dj])" by simp
  then show ?case using IH found by (auto simp: dj discover_turn split: if_splits)
qed simp

text \<open>
  C38. A cluster elects its lowest member. Members of \<open>I\<close> join and leave a cluster that started on an
  empty Redis in any order and at any time, with heartbeats, discoveries, elections and events of all of
  them in between. When the lowest member is up and sends a heartbeat, and then every instance runs one
  discovery within a minute and a second before its own peer timeout, exactly the lowest member
  considers itself the leader.
\<close>

theorem heartbeat_round_elects_lowest:
  assumes "redis_contract (ce_redis E) live" and "plain_pattern (rcf_Prefix (ce_config E))" and "finite I"
    and "cr_inst st0 = Map.empty" and "cr_events st0 = []" and "\<forall>k. live (cr_redis st0) (cr_now st0) k = None"
    and "cluster_reach E (joins_of I) st0 st" and "cr_inst st (Min I) = Some b"
    and "js_Object (ce_json E) (sendHeartbeat (cr_now st) b) = Ok x" and "js_unObject (ce_json E) x = Ok (sendHeartbeat (cr_now st) b)"
    and "\<forall>j c. cr_inst st j = Some c \<longrightarrow> j \<in> snd ` set ts \<and> int (sum_list (map fst ts)) + 1000000000 \<le> cc_PeerTimeout (cl_config c)"
    and "sum_list (map fst ts) < 60000000000"
  shows "{j. \<exists>c. cr_inst (foldl (discoverTurn E) (clusterDo E (Heartbeat (Min I)) st) ts) j = Some c \<and> isLeader c} = {Min I}"
proof -
  let ?h = "heartbeatLoop E (Min I) st"
  let ?e = "foldl (discoverTurn E) ?h ts"
  have "cluster_inv E live I st0" using assms(4-6) by (simp add: cluster_inv_def)
  then have start: "cluster_inv E live I st" by (rule cluster_reach_inv [OF assms(7,1,2)])
  then have inv: "cluster_inv E live I ?e" by (intro discover_turns_inv heartbeat_inv assms(1,2))
  note parts = cluster_inv_parts(1) [OF start]
  have "live (cr_redis ?h) t (statusEntry E (Min I)) = Some x" if "cr_now st \<le> t" "t < cr_now st + 60000000000" for t
    using parts [OF assms(8)] that assms(9) by (simp add: heartbeat_effect [OF assms(1,8)])
  then have "\<forall>j c. cr_inst ?e j = Some c \<longrightarrow> j \<in> snd ` set ts \<longrightarrow> j \<noteq> Min I \<longrightarrow> Min I \<in> healthy_peers c"
    by (rule turns_find [OF assms(1,2) _ assms(10)]) (use assms(11,12) parts in simp_all)
  moreover have dom: "dom (cr_inst ?e) = dom (cr_inst st)" using discover_turns_frame [of E ?h ts] by simp
  ultimately have follower: "\<not> isLeader c" if "cr_inst ?e j = Some c" "j \<noteq> Min I" for j c
  proof -
    have "j \<in> I" "cl_instanceID c = j" using cluster_inv_parts(1) [OF inv that(1)] by simp_all
    then have "Min I < cl_instanceID c" using that(2) Min_le [OF assms(3)] by (simp add: order.not_eq_order_implies_strict)
    moreover have "j \<in> snd ` set ts" using dom that(1) assms(11) by blast
    ultimately show ?thesis using \<open>\<forall>j c. cr_inst ?e j = Some c \<longrightarrow> _\<close> that by (auto simp: isLeader_iff)
  qed
  obtain c where "cr_inst ?e (Min I) = Some c" using dom assms(8) by blast
  then show ?thesis using follower lowest_leads [OF assms(3) inv] by auto
qed

section \<open>Failures\<close>

text \<open>Every entry on the server is a heartbeat of the last minute.\<close>

definition recent :: "'r cluster_env \<Rightarrow> ('r \<Rightarrow> int \<Rightarrow> string \<Rightarrow> bytes option) \<Rightarrow> 'r cluster_run \<Rightarrow> bool" where
  "recent E live st \<longleftrightarrow> (\<forall>i t x. cr_now st \<le> t \<longrightarrow> live (cr_redis st) t (statusEntry E i) = Some x \<longrightarrow>
     (\<exists>t0 d. js_unObject (ce_json E) x = Ok (sendHeartbeat t0 d) \<and> t < t0 + 60000000000))"

lemma recentD:
  "recent E live st \<Longrightarrow> cr_now st \<le> t \<Longrightarrow> live (cr_redis st) t (statusEntry E i) = Some x \<Longrightarrow>
     \<exists>t0 d. js_unObject (ce_json E) x = Ok (sendHeartbeat t0 d) \<and> t < t0 + 60000000000"
  unfolding recent_def by blast

lemma heartbeat_recent:
  assumes "redis_contract (ce_redis E) live" and "recent E live st"
    and "\<forall>t d x. js_Object (ce_json E) (sendHeartbeat t d) = Ok x \<longrightarrow> js_unObject (ce_json E) x = Ok (sendHeartbeat t d)"
  shows "recent E live (heartbeatLoop E i st)"
proof (cases "cr_inst st i")
  case (Some c)
  show ?thesis unfolding recent_def
  proof (intro allI impI)
    fix j t x
    assume t: "cr_now (heartbeatLoop E i st) \<le> t" and x: "live (cr_redis (heartbeatLoop E i st)) t (statusEntry E j) = Some x"
    show "\<exists>t0 d. js_unObject (ce_json E) x = Ok (sendHeartbeat t0 d) \<and> t < t0 + 60000000000"
    proof (cases "live (cr_redis st) t (statusEntry E j) = Some x")
      case True
      then show ?thesis using recentD [OF assms(2)] t by simp
    next
      case False
      then have "js_Object (ce_json E) (sendHeartbeat (cr_now st) c) = Ok x" "t < cr_now st + 60000000000"
        using x t by (auto simp: heartbeat_effect [OF assms(1) Some] split: outcome.splits if_splits)
      then show ?thesis using assms(3) by blast
    qed
  qed
qed (use assms(2) in \<open>simp add: heartbeatLoop_def\<close>)

lemma recent_step:
  assumes "redis_contract (ce_redis E) live" and "recent E live st"
    and "\<forall>t d x. js_Object (ce_json E) (sendHeartbeat t d) = Ok x \<longrightarrow> js_unObject (ce_json E) x = Ok (sendHeartbeat t d)"
  shows "recent E live (clusterDo E a st)"
proof (cases a)
  case (Elapse d)
  then show ?thesis using assms(2) by (simp add: recent_def)
qed (use assms(2) heartbeat_recent [OF assms] in
  \<open>simp_all add: recent_def cluster_Stop_def eventLoop_def split: option.split\<close>)

text \<open>With a timeout longer than the entries live (and a second for the rounding of the time) no peer becomes offline.\<close>

lemma patient_discovery:
  assumes "redis_contract (ce_redis E) live" and "plain_pattern (rcf_Prefix (ce_config E))" and "recent E live st"
    and "61000000000 \<le> cc_PeerTimeout (cl_config c)"
  shows "healthy_peers c \<subseteq> healthy_peers (discoverPeers (cr_now st) (knownStatuses E st) c)"
proof -
  obtain es where es: "knownStatuses E st = Some es" "distinct (map fst es)"
    "\<And>i d. (i, d) \<in> set es \<longleftrightarrow> (\<exists>x. live (cr_redis st) (cr_now st) (statusEntry E i) = Some x \<and> js_unObject (ce_json E) x = Ok d)"
    by (rule known_statuses [OF assms(1,2), of st]) blast
  have "fresh (cr_now st) c d" if entry: "(i, d) \<in> set es" for i d
  proof -
    obtain x where x: "live (cr_redis st) (cr_now st) (statusEntry E i) = Some x" "js_unObject (ce_json E) x = Ok d"
      using entry es(3) by blast
    obtain t0 b where "d = sendHeartbeat t0 b" "cr_now st < t0 + 60000000000"
      using recentD [OF assms(3) order_refl x(1)] x(2) by auto
    then show ?thesis using assms(4) by (simp add: heartbeat_fresh)
  qed
  then show ?thesis by (auto simp: es(1) healthy_discoverPeers [OF es(2)])
qed

text \<open>The instance \<open>j\<close> keeps running.\<close>

fun keeps_running :: "string \<Rightarrow> cluster_action \<Rightarrow> bool" where
  "keeps_running j (Leave i) \<longleftrightarrow> i \<noteq> j"
| "keeps_running j (Join cfg) \<longleftrightarrow> cc_InstanceID cfg \<noteq> j"
| "keeps_running j _ \<longleftrightarrow> True"

lemma patient_step:
  assumes "redis_contract (ce_redis E) live" and "plain_pattern (rcf_Prefix (ce_config E))" and "recent E live st"
    and "\<forall>e \<in> set (cr_events st). harmless e" and "possible a st" and "keeps_running j a"
    and "cr_inst st j = Some c" and "61000000000 \<le> cc_PeerTimeout (cl_config c)"
  shows "\<exists>c'. cr_inst (clusterDo E a st) j = Some c' \<and> cl_config c' = cl_config c \<and> cl_instanceID c' = cl_instanceID c \<and>
    healthy_peers c \<subseteq> healthy_peers c'"
proof (cases a)
  case (Discover i)
  then show ?thesis using assms(7) patient_discovery [OF assms(1-3,8)] by (cases "j = i") (auto simp: discovery_inst)
next
  case (Deliver i event)
  then show ?thesis using deliver_known [OF assms(4), of i event E] assms(5,7) by simp
qed (use assms(6,7) in \<open>auto simp: cluster_Stop_def split: option.split\<close>)

text \<open>
  C39. A patient cluster never fails over. The status entries live for a minute, so an instance whose
  peer timeout is a minute and a second or more never sees an entry that is too old: it marks nobody
  offline. Once it counts an instance with a lower identifier as healthy it is not the leader again, in
  whatever way the cluster continues, even when that instance stopped long ago. (\<open>main.go\<close> sets 30
  seconds.)
\<close>

theorem patient_cluster_never_fails_over:
  assumes "redis_contract (ce_redis E) live" and "plain_pattern (rcf_Prefix (ce_config E))"
    and "\<forall>t d x. js_Object (ce_json E) (sendHeartbeat t d) = Ok x \<longrightarrow> js_unObject (ce_json E) x = Ok (sendHeartbeat t d)"
    and "cr_inst st0 = Map.empty" and "cr_events st0 = []" and "\<forall>t k. live (cr_redis st0) t k = None"
    and "cluster_reach E (\<lambda>a. True) st0 st" and "cr_inst st j = Some c" and "61000000000 \<le> cc_PeerTimeout (cl_config c)"
    and "v \<in> healthy_peers c" and "v < j" and "cluster_reach E (keeps_running j) st st'"
  shows "\<exists>c'. cr_inst st' j = Some c' \<and> v \<in> healthy_peers c' \<and> \<not> isLeader c'"
proof -
  let ?ok = "\<lambda>u. cluster_inv E live UNIV u \<and> recent E live u"
  have step: "?ok (clusterDo E a u)" if "?ok u" "possible a u" for a u
    using that by (cases a) (auto intro!: cluster_step_inv [OF assms(1,2)] recent_step [OF assms(1) _ assms(3)] simp del: clusterDo.simps)
  have "?ok st" using assms(7)
  proof induction
    case cluster_refl
    show ?case using assms(4-6) by (simp add: cluster_inv_def recent_def)
  qed (rule step)
  then have me: "cl_instanceID c = j" using cluster_inv_parts(1) assms(8) by blast
  have "?ok st' \<and> (\<exists>c'. cr_inst st' j = Some c' \<and> cl_config c' = cl_config c \<and> cl_instanceID c' = j \<and> v \<in> healthy_peers c')"
    using assms(12)
  proof induction
    case cluster_refl
    then show ?case using \<open>?ok st\<close> me assms(8,10) by simp
  next
    case (cluster_do u a)
    then obtain c' where c': "cr_inst u j = Some c'" "cl_config c' = cl_config c" "cl_instanceID c' = j" "v \<in> healthy_peers c'" by blast
    have "\<exists>c''. cr_inst (clusterDo E a u) j = Some c'' \<and> cl_config c'' = cl_config c' \<and> cl_instanceID c'' = cl_instanceID c' \<and>
        healthy_peers c' \<subseteq> healthy_peers c''"
      by (rule patient_step [OF assms(1,2)]) (use cluster_do c' assms(9) cluster_inv_parts(3) [of E live UNIV u] in simp_all)
    then show ?case using c' step cluster_do by auto
  qed
  then show ?thesis using assms(11) by (auto simp: isLeader_iff)
qed

section \<open>Two instances\<close>

definition ex_member :: "string \<Rightarrow> int \<Rightarrow> CoordinatorConfig" where
  "ex_member i timeout = \<lparr>cc_InstanceID = i, cc_Region = ''eu'', cc_HeartbeatPeriod = 0, cc_PeerTimeout = timeout,
     cc_EnableMeshSync = False, cc_LeaderElection = True\<rparr>"

text \<open>A codec that knows one object.\<close>

definition ex_cluster_env :: "json_object \<Rightarrow> ex_redis cluster_env" where
  "ex_cluster_env hb = \<lparr>ce_redis = ex_redis_ops,
     ce_json = (ex_codec (example_block 0) hb)\<lparr>js_Object := \<lambda>m. if m = hb then Ok [1] else Err ''unsupported''\<rparr>,
     ce_config = ex_cache_config ''''\<rparr>"

definition ex_empty :: "ex_redis cluster_run" where
  "ex_empty = \<lparr>cr_inst = Map.empty, cr_redis = [], cr_events = [], cr_now = 0\<rparr>"

lemma ex_cluster_env_parts:
  "redis_contract (ce_redis (ex_cluster_env hb)) ex_live" "plain_pattern (rcf_Prefix (ce_config (ex_cluster_env hb)))"
  "js_Object (ce_json (ex_cluster_env hb)) m = Ok x \<Longrightarrow> js_unObject (ce_json (ex_cluster_env hb)) x = Ok m"
  "js_Object (ce_json (ex_cluster_env hb)) hb = Ok [1]"
  using ex_redis_contract by (auto simp: ex_cluster_env_def ex_cache_config_def plain_pattern_def ex_codec_def split: if_splits)

theorem heartbeat_round_elects_lowest_witness:
  "{j. \<exists>c. cr_inst (foldl (discoverTurn (ex_cluster_env (sendHeartbeat 0 (NewClusterCoordinator (ex_member ''a'' 0)))))
      (clusterDo (ex_cluster_env (sendHeartbeat 0 (NewClusterCoordinator (ex_member ''a'' 0)))) (Heartbeat ''a'')
        (ex_empty\<lparr>cr_inst := [''b'' \<mapsto> NewClusterCoordinator (ex_member ''b'' 0), ''a'' \<mapsto> NewClusterCoordinator (ex_member ''a'' 0)]\<rparr>))
      [(5000000000, ''b''), (3000000000, ''a'')]) j = Some c \<and> isLeader c} = {''a''}"
proof -
  let ?a = "NewClusterCoordinator (ex_member ''a'' 0)"
  let ?E = "ex_cluster_env (sendHeartbeat 0 ?a)"
  let ?st = "ex_empty\<lparr>cr_inst := [''b'' \<mapsto> NewClusterCoordinator (ex_member ''b'' 0), ''a'' \<mapsto> ?a]\<rparr>"
  have m: "Min {''a'', ''b''} = ''a''" by (simp add: min_def)
  have "cluster_reach ?E (joins_of {''a'', ''b''}) ex_empty (clusterDo ?E (Join (ex_member ''a'' 0)) (clusterDo ?E (Join (ex_member ''b'' 0)) ex_empty))"
    by (intro cluster_do cluster_refl) (simp_all add: ex_member_def)
  then have run: "cluster_reach ?E (joins_of {''a'', ''b''}) ex_empty ?st" by (simp add: ex_empty_def ex_member_def)
  have "{j. \<exists>c. cr_inst (foldl (discoverTurn ?E) (clusterDo ?E (Heartbeat (Min {''a'', ''b''})) ?st)
      [(5000000000, ''b''), (3000000000, ''a'')]) j = Some c \<and> isLeader c} = {Min {''a'', ''b''}}"
    by (rule heartbeat_round_elects_lowest [OF ex_cluster_env_parts(1,2) _ _ _ _ run, where x = "[1]"])
      (use m ex_cluster_env_parts(3,4) in \<open>auto simp: ex_empty_def NewClusterCoordinator_def ex_member_def Let_def\<close>)
  then show ?thesis unfolding m .
qed

text \<open>The instance with the lower identifier sends one heartbeat and stops; 1000 seconds later the other one is still waiting for it.\<close>

theorem patient_cluster_never_fails_over_witness:
  "\<exists>c. cr_inst (foldl (\<lambda>st a. clusterDo (ex_cluster_env (sendHeartbeat 0 (NewClusterCoordinator (ex_member ''a'' 0)))) a st) ex_empty
      [Join (ex_member ''a'' 0), Join (ex_member ''b'' 61000000000), Heartbeat ''a'', Discover ''b'', Leave ''a'', Elapse 1000000000000,
       Discover ''b'']) ''b'' = Some c \<and> ''a'' \<in> healthy_peers c \<and> \<not> isLeader c"
proof -
  let ?a = "NewClusterCoordinator (ex_member ''a'' 0)" and ?b = "NewClusterCoordinator (ex_member ''b'' 61000000000)"
  let ?E = "ex_cluster_env (sendHeartbeat 0 ?a)"
  let ?u = "clusterDo ?E (Join (ex_member ''b'' 61000000000)) (clusterDo ?E (Join (ex_member ''a'' 0)) ex_empty)"
  let ?h = "clusterDo ?E (Heartbeat ''a'') ?u" and ?st = "clusterDo ?E (Discover ''b'') (clusterDo ?E (Heartbeat ''a'') ?u)"
  let ?final = "clusterDo ?E (Discover ''b'') (clusterDo ?E (Elapse 1000000000000) (clusterDo ?E (Leave ''a'') ?st))"
  have inst: "cr_inst ?u = [''a'' \<mapsto> ?a, ''b'' \<mapsto> ?b]" "cr_now ?u = 0" by (simp_all add: ex_member_def ex_empty_def fun_eq_iff)
  have ids: "cl_instanceID ?a = ''a''" "cl_instanceID ?b = ''b''" "cc_PeerTimeout (cl_config ?b) = 61000000000"
    by (simp_all add: ex_member_def NewClusterCoordinator_def Let_def)
  have entry: "ex_live (cr_redis ?h) 0 (statusEntry ?E ''a'') = Some [1]"
    using heartbeat_effect [OF ex_cluster_env_parts(1), of ?u "''a''" ?a 0] ex_cluster_env_parts(4) inst ids
    by (simp del: clusterDo.simps(1) ex_live.simps)
  have b: "cr_inst ?st ''b'' = Some (discoverPeers 0 (knownStatuses ?E ?h) ?b)"
    using inst by (simp add: discovery_inst del: clusterDo.simps(1))
  have "''a'' \<in> healthy_peers (discoverPeers (cr_now ?h) (knownStatuses ?E ?h) ?b)"
    by (rule discovery_finds [OF ex_cluster_env_parts(1,2), where x = "[1]" and d = "sendHeartbeat 0 ?a"])
      (use entry ids inst ex_cluster_env_parts(3,4) in \<open>simp_all add: heartbeat_fresh del: clusterDo.simps(1) ex_live.simps\<close>)
  then have a: "''a'' \<in> healthy_peers (discoverPeers 0 (knownStatuses ?E ?h) ?b)" using inst by (simp del: clusterDo.simps(1))
  have start: "cluster_reach ?E (\<lambda>a. True) ex_empty ?st" by (intro cluster_do cluster_refl) simp_all
  have rest: "cluster_reach ?E (keeps_running ''b'') ?st ?final" by (intro cluster_do cluster_refl) simp_all
  have "\<exists>c. cr_inst ?final ''b'' = Some c \<and> ''a'' \<in> healthy_peers c \<and> \<not> isLeader c"
    by (rule patient_cluster_never_fails_over [OF ex_cluster_env_parts(1,2) _ _ _ _ start b _ a _ rest])
      (use ids ex_cluster_env_parts(3) in \<open>auto simp: ex_empty_def\<close>)
  then show ?thesis by (simp del: clusterDo.simps)
qed

end
