(* ===== verification/Load_Bench.thy ===== *)
theory Load_Bench
  imports Block_Storage Float64
begin

text \<open>
  \<open>scripts/benchmarks/load_bench.go\<close>: the load generator that the performance figures of the README come
  from. Workers run requests side by side, count successes and failures with atomic additions and append
  the latency of a success under a mutex; when all are done the report is computed. Each worker is cut at
  its accesses to the shared variables (\<open>benchStep\<close>), and the workers take turns in any order
  (\<open>bench_run\<close>). The answers of the server and the clock are arguments; durations are in nanoseconds.
\<close>

section \<open>Model\<close>

text \<open>
  Where a worker is: before a request, with \<open>n\<close> iterations to go, or after counting a success that took
  \<open>d\<close>, before appending it.
\<close>

datatype bench_worker = Requesting nat | Recording int nat

record bench =
  bn_workers :: "bench_worker list"
  bn_completedReqs :: u64
  bn_failedReqs :: u64
  bn_latencies :: "int list"

text \<open>\<open>err != nil || resp == nil || resp.StatusCode >= 400\<close>, and \<open>err != nil || blk == nil\<close>; a status of \<open>None\<close> is a nil response.\<close>

definition httpFails :: "bool \<Rightarrow> nat option \<Rightarrow> bool" where
  "httpFails err status \<longleftrightarrow> err \<or> (case status of None \<Rightarrow> True | Some s \<Rightarrow> s \<ge> 400)"

definition storageFails :: "MemoryStorage \<Rightarrow> bool" where
  "storageFails store \<longleftrightarrow> (case mem_GetBlock store 100000 of Ok blk \<Rightarrow> False | _ \<Rightarrow> True)"

text \<open>
  The variables before the first worker starts. The capacity is a product of two 64-bit integers, and
  \<open>make\<close> panics when it is negative or more than the address space holds.
\<close>

definition startBench :: "int \<Rightarrow> int \<Rightarrow> (unit, bench) outcome" where
  "startBench concurrency requestsPerWorker =
     (let totalRequests = to_int64 (concurrency * requestsPerWorker) in
      if totalRequests < 0 \<or> totalRequests > int max_slice_cap then Panic MakesliceCap
      else Ok \<lparr>bn_workers = replicate (nat concurrency) (Requesting (nat requestsPerWorker)),
        bn_completedReqs = 0, bn_failedReqs = 0, bn_latencies = []\<rparr>)"

text \<open>The next access of worker \<open>w\<close>; \<open>failed\<close> and \<open>duration\<close> are the answer to its request, if it makes one.\<close>

definition benchStep :: "nat \<Rightarrow> bool \<Rightarrow> int \<Rightarrow> bench \<Rightarrow> bench" where
  "benchStep w failed duration b =
     (case bn_workers b ! w of
        Requesting 0 \<Rightarrow> b
      | Requesting (Suc n) \<Rightarrow>
          if failed then b\<lparr>bn_failedReqs := bn_failedReqs b + 1, bn_workers := (bn_workers b)[w := Requesting n]\<rparr>
          else b\<lparr>bn_completedReqs := bn_completedReqs b + 1, bn_workers := (bn_workers b)[w := Recording duration n]\<rparr>
      | Recording d n \<Rightarrow> b\<lparr>bn_latencies := bn_latencies b @ [d], bn_workers := (bn_workers b)[w := Requesting n]\<rparr>)"

text \<open>The block the storage benchmark reads.\<close>

definition mockBlock :: "u64 \<Rightarrow> Block" where
  "mockBlock now =
     \<lparr>blk_Header = Some \<lparr>hd_Number = 100000,
        hd_Hash = 0x1234567890abcdef1234567890abcdef1234567890abcdef1234567890abcdef, hd_ParentHash = 0, hd_Coinbase = 0,
        hd_StateRoot = 0, hd_TxHash = 0, hd_ReceiptHash = 0, hd_GasLimit = 30000000, hd_GasUsed = 21000, hd_Timestamp = now,
        hd_ExtraData = [], hd_MixDigest = 0, hd_Nonce = 0\<rparr>,
      blk_Transactions = [Some \<lparr>tx_Hash = 0xa1a1a1a1a1a1a1a1a1a1a1a1a1a1a1a1a1a1a1a1a1a1a1a1a1a1a1a1a1a1a1a1, tx_Nonce = 0,
        tx_From = 0, tx_To = 0, tx_Value = Some 1000, tx_Gas = 21000, tx_GasPrice = Some 30000000000, tx_Data = [],
        tx_V = None, tx_R = None, tx_S = None\<rparr>],
      blk_Size = 0\<rparr>"

definition benchStore :: "u64 \<Rightarrow> MemoryStorage" where
  "benchStore now = snd (mem_StoreBlock NewMemoryStorage (Some (mockBlock now)))"

text \<open>The two benchmarks differ in the request: the answer of the server, or a lookup in the storage.\<close>

definition httpStep :: "nat \<Rightarrow> bool \<Rightarrow> nat option \<Rightarrow> int \<Rightarrow> bench \<Rightarrow> bench" where
  "httpStep w err status duration b = benchStep w (httpFails err status) duration b"

definition storageStep :: "u64 \<Rightarrow> nat \<Rightarrow> int \<Rightarrow> bench \<Rightarrow> bench" where
  "storageStep now w duration b = benchStep w (storageFails (benchStore now)) duration b"

subsection \<open>The report\<close>

text \<open>\<open>Duration.Seconds\<close> of a duration that is not negative. A ratio with denominator 0 is no number (\<open>None\<close>).\<close>

definition Seconds :: "int \<Rightarrow> float64" where
  "Seconds d = f64 (f64_of_nat (nat (d div 1000000000)) + f64_div (f64_of_nat (nat (d mod 1000000000))) 1000000000)"

definition ratio :: "float64 \<Rightarrow> float64 \<Rightarrow> float64 option" where
  "ratio a b = (if b = 0 then None else Some (f64_div a b))"

definition percentile :: "int list \<Rightarrow> nat \<Rightarrow> (unit, int) outcome" where
  "percentile latencies p =
     (let i = length latencies * p div 100 in
      if i < length latencies then Ok (latencies ! i) else Panic IndexOutOfRange)"

record bench_report =
  rep_total :: int
  rep_success :: u64
  rep_success_percent :: "float64 option"
  rep_failed :: u64
  rep_failed_percent :: "float64 option"
  rep_duration :: int
  rep_rps :: "float64 option"
  rep_p50 :: int
  rep_p95 :: int
  rep_p99 :: int

definition printBenchmarkResults :: "int \<Rightarrow> u64 \<Rightarrow> u64 \<Rightarrow> int \<Rightarrow> int list \<Rightarrow> (unit, bench_report) outcome" where
  "printBenchmarkResults totalReqs success failed duration latencies =
     (let lats = sort latencies;
          percent = (\<lambda>n. map_option (\<lambda>x. f64_mult x 100) (ratio (f64_of_u64 n) (f64_of_nat (nat totalReqs)))) in
      bind_outcome (if length lats > 0 then percentile lats 50 else Ok 0) (\<lambda>p50.
      bind_outcome (if length lats > 0 then percentile lats 95 else Ok 0) (\<lambda>p95.
      bind_outcome (if length lats > 0 then percentile lats 99 else Ok 0) (\<lambda>p99.
      Ok \<lparr>rep_total = totalReqs, rep_success = success, rep_success_percent = percent success, rep_failed = failed,
        rep_failed_percent = percent failed, rep_duration = duration, rep_rps = ratio (f64_of_u64 success) (Seconds duration),
        rep_p50 = p50, rep_p95 = p95, rep_p99 = p99\<rparr>))))"

subsection \<open>Runs\<close>

definition waitDone :: "bench \<Rightarrow> bool" where
  "waitDone b \<longleftrightarrow> (\<forall>x \<in> set (bn_workers b). x = Requesting 0)"

text \<open>
  \<open>bench_run may k b b'\<close>: the workers got from \<open>b\<close> to \<open>b'\<close> in \<open>k\<close> accesses to the shared variables, where
  \<open>may failed\<close> says how a request may end. Only workers that are not done take a step.
\<close>

inductive bench_run :: "(bool \<Rightarrow> bool) \<Rightarrow> nat \<Rightarrow> bench \<Rightarrow> bench \<Rightarrow> bool" for may where
  bench_start: "bench_run may 0 b b"
| bench_turn: "bench_run may k b b' \<Longrightarrow> w < length (bn_workers b') \<Longrightarrow> bn_workers b' ! w \<noteq> Requesting 0 \<Longrightarrow> may failed \<Longrightarrow>
    bench_run may (Suc k) b (benchStep w failed duration b')"

section \<open>Counters\<close>

text \<open>Iterations and accesses a worker has to go, and latencies it still has to append.\<close>

fun iterations :: "bench_worker \<Rightarrow> nat" where
  "iterations (Requesting n) = n"
| "iterations (Recording d n) = n"

fun accesses :: "bench_worker \<Rightarrow> nat" where
  "accesses (Requesting n) = 2 * n"
| "accesses (Recording d n) = Suc (2 * n)"

fun pending :: "bench_worker \<Rightarrow> nat" where
  "pending (Requesting n) = 0"
| "pending (Recording d n) = 1"

definition over :: "(bench_worker \<Rightarrow> nat) \<Rightarrow> bench \<Rightarrow> nat" where
  "over f b = sum_list (map f (bn_workers b))"

lemma over_update:
  assumes "w < length ws"
  shows "sum_list (map f (ws[w := x])) + f (ws ! w) = sum_list (map f ws) + (f x :: nat)"
proof -
  have ws: "ws = take w ws @ ws ! w # drop (Suc w) ws" using assms by (simp add: id_take_nth_drop)
  have "ws[w := x] = take w ws @ x # drop (Suc w) ws" using assms by (simp add: upd_conv_take_nth_drop)
  then show ?thesis by (subst (3) ws) simp
qed

text \<open>Every request is to be made, counted as failed, or counted as completed and, then, recorded or about to be.\<close>

definition bench_inv :: "(bool \<Rightarrow> bool) \<Rightarrow> nat \<Rightarrow> nat \<Rightarrow> bench \<Rightarrow> bool" where
  "bench_inv may totalReqs k b \<longleftrightarrow>
     unat (bn_completedReqs b) + unat (bn_failedReqs b) + over iterations b = totalReqs \<and>
     length (bn_latencies b) + over pending b = unat (bn_completedReqs b) \<and>
     k + over accesses b \<le> 2 * totalReqs \<and> (\<not> may True \<longrightarrow> bn_failedReqs b = 0)"

lemma bench_step_inv:
  assumes "bench_inv may totalReqs k b" and "totalReqs < 2 ^ 64" and "w < length (bn_workers b)" and "bn_workers b ! w \<noteq> Requesting 0"
    and "may failed"
  shows "bench_inv may totalReqs (Suc k) (benchStep w failed duration b)"
proof -
  note upd = over_update [OF assms(3)]
  have count: "unat (x + 1) = Suc (unat x)" if "Suc (unat x) \<le> totalReqs" for x :: u64
    using that assms(2) by (intro unat_succ_u64) simp
  show ?thesis
  proof (cases "bn_workers b ! w")
    case (Requesting n)
    then obtain m where m: "bn_workers b ! w = Requesting (Suc m)" using assms(4) by (cases n) auto
    show ?thesis
    proof (cases failed)
      case True
      then show ?thesis
        using assms(1,5) m upd [of iterations "Requesting m"] upd [of pending "Requesting m"] upd [of accesses "Requesting m"]
          count [of "bn_failedReqs b"]
        by (simp add: bench_inv_def benchStep_def over_def)
    next
      case False
      then show ?thesis
        using assms(1,5) m upd [of iterations "Recording duration m"] upd [of pending "Recording duration m"]
          upd [of accesses "Recording duration m"] count [of "bn_completedReqs b"]
        by (simp add: bench_inv_def benchStep_def over_def)
    qed
  next
    case (Recording d n)
    then show ?thesis
      using assms(1) upd [of iterations "Requesting n"] upd [of pending "Requesting n"] upd [of accesses "Requesting n"]
      by (simp add: bench_inv_def benchStep_def over_def)
  qed
qed

lemma bench_run_inv:
  assumes "bench_run may k b0 b" and "bench_inv may totalReqs 0 b0" and "totalReqs < 2 ^ 64"
  shows "bench_inv may totalReqs k b"
  using assms(1,2) by induction (auto intro: bench_step_inv assms(3))

text \<open>A run that has not ended can go on, so with \<open>bench_inv\<close> every run ends.\<close>

lemma bench_goes_on:
  assumes "bench_run may k b0 b" and "\<not> waitDone b" and "may failed"
  shows "\<exists>w. w < length (bn_workers b) \<and> bench_run may (Suc k) b0 (benchStep w failed duration b)"
proof -
  obtain w where "w < length (bn_workers b)" "bn_workers b ! w \<noteq> Requesting 0"
    using assms(2) by (auto simp: waitDone_def in_set_conv_nth)
  then show ?thesis using bench_turn [OF assms(1)] assms(3) by blast
qed

lemma wait_done_over: "waitDone b \<Longrightarrow> over iterations b = 0 \<and> over pending b = 0"
  unfolding over_def waitDone_def sum_list_eq_0_iff by force

lemma startBench_ok:
  assumes "0 \<le> c" and "0 \<le> r" and "c * r \<le> int max_slice_cap"
  obtains b where "startBench c r = Ok b" and "bench_inv may (nat (c * r)) 0 b"
proof -
  let ?b = "\<lparr>bn_workers = replicate (nat c) (Requesting (nat r)), bn_completedReqs = 0, bn_failedReqs = 0, bn_latencies = []\<rparr>"
  have "0 \<le> c * r" using assms by simp
  then have "to_int64 (c * r) = c * r" using assms(3) by (intro to_int64_id) (auto simp: max_slice_cap_def)
  then have "startBench c r = Ok ?b" using assms(3) \<open>0 \<le> c * r\<close> by (simp add: startBench_def)
  moreover have "bench_inv may (nat (c * r)) 0 ?b"
    using assms by (simp add: bench_inv_def over_def sum_list_replicate nat_mult_distrib)
  ultimately show ?thesis by (rule that)
qed

section \<open>Percentiles\<close>

text \<open>More than \<open>p\<close> percent of the values are at most \<open>v\<close>, and the rest of them at least \<open>v\<close>.\<close>

definition is_percentile :: "int list \<Rightarrow> nat \<Rightarrow> int \<Rightarrow> bool" where
  "is_percentile xs p v \<longleftrightarrow> v \<in> set xs \<and> p * length xs < 100 * length (filter (\<lambda>x. x \<le> v) xs) \<and>
     (100 - p) * length xs \<le> 100 * length (filter (\<lambda>x. v \<le> x) xs)"

lemma sorted_count:
  assumes "sorted xs" and "i < length xs"
  shows "Suc i \<le> length (filter (\<lambda>x. x \<le> xs ! i) xs)" and "length xs - i \<le> length (filter (\<lambda>x. xs ! i \<le> x) xs)"
proof -
  have "xs ! j \<le> xs ! i" if "j \<le> i" for j using assms that by (simp add: sorted_nth_mono)
  then have "filter (\<lambda>x. x \<le> xs ! i) (take (Suc i) xs) = take (Suc i) xs" by (auto simp: filter_id_conv in_set_conv_nth)
  moreover have "length (filter (\<lambda>x. x \<le> xs ! i) xs) \<ge> length (filter (\<lambda>x. x \<le> xs ! i) (take (Suc i) xs))"
    by (metis append_take_drop_id filter_append length_append le_add1)
  ultimately show "Suc i \<le> length (filter (\<lambda>x. x \<le> xs ! i) xs)" using assms(2) by simp
  have "xs ! i \<le> xs ! (i + j)" if "i + j < length xs" for j using assms that by (simp add: sorted_nth_mono)
  then have "filter (\<lambda>x. xs ! i \<le> x) (drop i xs) = drop i xs" by (auto simp: filter_id_conv in_set_conv_nth)
  moreover have "length (filter (\<lambda>x. xs ! i \<le> x) xs) \<ge> length (filter (\<lambda>x. xs ! i \<le> x) (drop i xs))"
    by (metis append_take_drop_id filter_append length_append le_add2)
  ultimately show "length xs - i \<le> length (filter (\<lambda>x. xs ! i \<le> x) xs)" by simp
qed

lemma sort_counts: "length (filter P (sort xs)) = length (filter P xs)"
  by (simp add: filter_sort)

lemma percentile_ok:
  assumes "xs \<noteq> []" and "p < 100"
  shows "length xs * p div 100 < length xs \<and> percentile (sort xs) p = Ok (sort xs ! (length xs * p div 100)) \<and>
    is_percentile xs p (sort xs ! (length xs * p div 100))"
proof -
  let ?i = "length xs * p div 100"
  have "length xs * p < length xs * 100" using assms by simp
  then have i: "?i < length xs" by (metis div_less_iff_less_mult zero_less_numeral)
  note count = sorted_count [OF sorted_sort, of ?i xs, unfolded length_sort, OF i]
  have "p * length xs < 100 * Suc ?i" by (simp add: mult.commute [of p])
  moreover have "(100 - p) * length xs \<le> 100 * (length xs - ?i)"
    by (simp add: diff_mult_distrib diff_mult_distrib2 mult.commute [of p])
  ultimately have "is_percentile xs p (sort xs ! ?i)"
    using count i nth_mem [of ?i "sort xs"] unfolding is_percentile_def sort_counts by auto
  then show ?thesis using i by (simp add: percentile_def)
qed

lemma report_ok:
  "\<exists>rep. printBenchmarkResults n success failed d lats = Ok rep \<and> rep_total rep = n \<and> rep_success rep = success \<and> rep_failed rep = failed \<and>
     rep_p50 rep \<le> rep_p95 rep \<and> rep_p95 rep \<le> rep_p99 rep \<and>
     (lats \<noteq> [] \<longrightarrow> is_percentile lats 50 (rep_p50 rep) \<and> is_percentile lats 95 (rep_p95 rep) \<and> is_percentile lats 99 (rep_p99 rep))"
proof (cases "lats = []")
  case False
  define v where "v p = sort lats ! (length lats * p div 100)" for p
  note ok = percentile_ok [OF False, folded v_def]
  have "v p \<le> v q" if "p \<le> q" "q < 100" for p q
    unfolding v_def using that ok [of q] by (intro sorted_nth_mono) (auto intro: div_le_mono)
  then have "v 50 \<le> v 95" "v 95 \<le> v 99" by simp_all
  moreover have "length (sort lats) > 0" using False by simp
  ultimately show ?thesis using ok [of 50] ok [of 95] ok [of 99]
    by (simp add: printBenchmarkResults_def Let_def del: length_sort length_greater_0_conv)
qed (simp add: printBenchmarkResults_def Let_def)

section \<open>Benchmarks\<close>

text \<open>
  C40. The report of the load generator is exact. With sensible flags (a capacity that fits) the workers
  start, every run ends after at most two accesses per request, and when it has ended, in whatever order
  the workers took their turns and whatever the server answered: each of the requests is counted once,
  as completed or failed; there is one latency per completed request; the report is computed without an
  index out of range, and its three percentiles are percentiles of the latencies, in order.
\<close>

theorem benchmark_report_exact:
  assumes "0 \<le> concurrency" and "0 \<le> requests" and "concurrency * requests \<le> int max_slice_cap"
  shows "\<exists>b0. startBench concurrency requests = Ok b0 \<and>
    (\<forall>may k b. bench_run may k b0 b \<longrightarrow>
      int k \<le> 2 * (concurrency * requests) \<and>
      (waitDone b \<longrightarrow>
        int (unat (bn_completedReqs b)) + int (unat (bn_failedReqs b)) = concurrency * requests \<and>
        length (bn_latencies b) = unat (bn_completedReqs b) \<and>
        (\<exists>rep. printBenchmarkResults (concurrency * requests) (bn_completedReqs b) (bn_failedReqs b) d (bn_latencies b) = Ok rep \<and>
          rep_p50 rep \<le> rep_p95 rep \<and> rep_p95 rep \<le> rep_p99 rep \<and>
          (bn_completedReqs b \<noteq> 0 \<longrightarrow> is_percentile (bn_latencies b) 50 (rep_p50 rep) \<and>
            is_percentile (bn_latencies b) 95 (rep_p95 rep) \<and> is_percentile (bn_latencies b) 99 (rep_p99 rep)))))"
proof -
  let ?n = "nat (concurrency * requests)"
  have n: "int ?n = concurrency * requests" using assms(1,2) by simp
  have small: "?n < 2 ^ 64" using assms(3) by (simp add: max_slice_cap_def nat_less_iff)
  obtain b0 where b0: "startBench concurrency requests = Ok b0" "\<And>may. bench_inv may ?n 0 b0"
    using startBench_ok [OF assms] by (metis outcome.inject(1))
  have run: "bench_inv may ?n k b" if "bench_run may k b0 b" for may k b using bench_run_inv [OF that b0(2) small] .
  have bound: "int k \<le> 2 * (concurrency * requests)" if "bench_run may k b0 b" for may k b
    using run [OF that] n unfolding bench_inv_def by linarith
  have counts: "int (unat (bn_completedReqs b)) + int (unat (bn_failedReqs b)) = concurrency * requests \<and>
      length (bn_latencies b) = unat (bn_completedReqs b)" if "bench_run may k b0 b" "waitDone b" for may k b
    using run [OF that(1)] wait_done_over [OF that(2)] n unfolding bench_inv_def by linarith
  have report: "\<exists>rep. printBenchmarkResults (concurrency * requests) (bn_completedReqs b) (bn_failedReqs b) d (bn_latencies b) = Ok rep \<and>
      rep_p50 rep \<le> rep_p95 rep \<and> rep_p95 rep \<le> rep_p99 rep \<and>
      (bn_completedReqs b \<noteq> 0 \<longrightarrow> is_percentile (bn_latencies b) 50 (rep_p50 rep) \<and>
        is_percentile (bn_latencies b) 95 (rep_p95 rep) \<and> is_percentile (bn_latencies b) 99 (rep_p99 rep))"
    if "bench_run may k b0 b" "waitDone b" for may k b
  proof -
    have "bn_completedReqs b \<noteq> 0 \<Longrightarrow> bn_latencies b \<noteq> []" using counts [OF that] by (auto simp: unat_eq_zero)
    then show ?thesis
      using report_ok [of "concurrency * requests" "bn_completedReqs b" "bn_failedReqs b" d "bn_latencies b"] by blast
  qed
  show ?thesis
    by (rule exI [of _ b0], intro conjI allI impI) (fact b0(1), fact bound, (use counts in blast)+, fact report)
qed

text \<open>The storage benchmark always finds its block: all requests are completed.\<close>

lemma bench_store_answers: "\<not> storageFails (benchStore now)"
proof -
  obtain h where h: "blk_Header (mockBlock now) = Some h" "hd_Number h = 100000" by (simp add: mockBlock_def)
  have "mem_inv NewMemoryStorage" by (simp add: mem_inv_def NewMemoryStorage_def)
  then show ?thesis
    by (rule mem_StoreBlock_ok [OF _ h(1)])
      (auto simp: storageFails_def benchStore_def mem_GetBlock_def mem_view_def h(2) fun_eq_iff split: option.splits dest: spec [of _ 100000])
qed

lemma storageStep_eq: "storageStep now w duration b = benchStep w False duration b"
  by (simp add: storageStep_def bench_store_answers)

theorem storage_benchmark_completes:
  assumes "0 \<le> concurrency" and "0 \<le> requests" and "concurrency * requests \<le> int max_slice_cap"
    and "startBench concurrency requests = Ok b0" and "bench_run (\<lambda>failed. failed = storageFails (benchStore now)) k b0 b" and "waitDone b"
  shows "bn_failedReqs b = 0 \<and> int (unat (bn_completedReqs b)) = concurrency * requests"
proof -
  let ?may = "\<lambda>failed. failed = storageFails (benchStore now)"
  have n: "nat (concurrency * requests) < 2 ^ 64" "0 \<le> concurrency * requests"
    using assms(1-3) by (simp_all add: max_slice_cap_def nat_less_iff)
  have "bench_inv ?may (nat (concurrency * requests)) 0 b0"
    by (rule startBench_ok [OF assms(1-3), of ?may]) (use assms(4) in simp)
  from bench_run_inv [OF assms(5) this n(1)] wait_done_over [OF assms(6)]
  have all_done: "bn_failedReqs b = 0" "unat (bn_completedReqs b) = nat (concurrency * requests)"
    using bench_store_answers [of now] by (auto simp: bench_inv_def)
  have "int (unat (bn_completedReqs b)) = int (nat (concurrency * requests))" by (simp only: all_done)
  also have "\<dots> = concurrency * requests" using n(2) by simp
  finally show ?thesis using all_done(1) by blast
qed

section \<open>A small run\<close>

text \<open>One worker, two requests: the first takes 7 ns, the second fails.\<close>

definition ex_bench :: bench where
  "ex_bench = \<lparr>bn_workers = [Requesting 0], bn_completedReqs = 1, bn_failedReqs = 1, bn_latencies = [7]\<rparr>"

lemma ex_bench_run: "startBench 1 2 = Ok b0 \<Longrightarrow> bench_run (\<lambda>failed. True) 3 b0 ex_bench"
proof -
  let ?may = "\<lambda>failed. True"
  let ?b = "\<lparr>bn_workers = [Requesting 2], bn_completedReqs = 0, bn_failedReqs = 0, bn_latencies = []\<rparr>"
  assume "startBench 1 2 = Ok b0"
  then have b0: "b0 = ?b" by (simp add: startBench_def max_slice_cap_def to_int64_id)
  have "bench_run ?may (Suc (Suc (Suc 0))) ?b (benchStep 0 True 5 (benchStep 0 False 0 (benchStep 0 False 7 ?b)))"
    by (intro bench_turn bench_start) (simp_all add: benchStep_def numeral_2_eq_2)
  moreover have "benchStep 0 True 5 (benchStep 0 False 0 (benchStep 0 False 7 ?b)) = ex_bench"
    by (simp add: benchStep_def ex_bench_def numeral_2_eq_2)
  ultimately show ?thesis by (simp add: b0 numeral_3_eq_3)
qed

theorem benchmark_report_exact_witness:
  "\<exists>rep. printBenchmarkResults 2 1 1 9 [7] = Ok rep \<and> is_percentile [7] 99 (rep_p99 rep)"
proof -
  have "(1 :: int) * 2 \<le> int max_slice_cap" by (simp add: max_slice_cap_def)
  then obtain b0 where b0: "startBench 1 2 = Ok b0"
    and all: "\<And>may k b. bench_run may k b0 b \<Longrightarrow> waitDone b \<Longrightarrow> \<exists>rep. printBenchmarkResults (1 * 2) (bn_completedReqs b) (bn_failedReqs b) 9 (bn_latencies b) = Ok rep \<and>
      (bn_completedReqs b \<noteq> 0 \<longrightarrow> is_percentile (bn_latencies b) 99 (rep_p99 rep))"
    using benchmark_report_exact [of 1 2 9] by fastforce
  show ?thesis using all [OF ex_bench_run [OF b0]] by (simp add: ex_bench_def waitDone_def)
qed

end
