(* ===== verification/Spec2Isabelle.thy ===== *)
theory Spec2Isabelle
  imports Chain_Rules Connection_Pool RPC_Server Node_Shutdown Cluster_Run Load_Bench
begin

text \<open>
  A verification development for the Hypasis sync protocol, a node that synchronises a Polygon
  (Bor) chain in two directions at once: from a trusted checkpoint forward to the head of the
  chain, and from the checkpoint backward to fill in the history.

  \<^bold>\<open>The program.\<close> A checkpoint source (\<open>pkg/checkpoint\<close>) supplies verified checkpoints to a
  manager. The sync engine (\<open>pkg/sync\<close>) starts at the latest one: its forward workers fetch
  blocks from upstream RPC endpoints (\<open>pkg/p2p/block_fetcher.go\<close>), validate them against their
  stored parents (\<open>pkg/validation\<close>) and store them; its backward workers ask the storage
  (\<open>pkg/storage\<close>) for the largest gap and fill it batch by batch. The storage keeps, besides the
  blocks, a tracker of the ranges it holds. The coordinator starts both and decides whether the node
  is ready for validator duties. Around them are a REST API with authentication and rate limits
  (\<open>pkg/api\<close>, \<open>pkg/auth\<close>), a JSON-RPC and a DevP2P server that hand out blocks (\<open>pkg/p2p\<close>), a rate limiter,
  a health monitor, and a cluster of instances that find each other through Redis (\<open>pkg/cluster\<close>,
  \<open>pkg/cache\<close>). \<open>main.go\<close> builds them from the configuration and starts them in order.

  \<^bold>\<open>Conventions.\<close> \<open>Go_Prelude\<close> fixes the Go vocabulary: \<open>uint64\<close> is a 64-bit word and wraps,
  a pointer is an \<open>option\<close>, a call that may fail returns an \<open>outcome\<close> (a value, an error or a
  run-time panic), a map is nil or a finite map, \<open>for i := a; i < b; i++\<close> is \<open>u64_loop\<close>.
  \<open>Float64\<close> gives \<open>float64\<close> as rationals with correct rounding to 53 bits, which is exact for the
  ratios of counters the code forms. Third-party code (Keccak-256, RLP, the pebble key-value store,
  the elliptic-curve operations, the RootChain contract, the RPC client, token buckets, JSON web
  tokens, the HTTP router, Redis, the P2P library) is an argument of the
  definitions that use it, a record of functions; what is assumed of it is a named hypothesis
  (\<open>pebble_contract\<close>, \<open>collision_free\<close>, \<open>rootchain_ok\<close>, \<open>bucket_contract\<close>, \<open>jwt_contract\<close>, \<open>mux_contract\<close>,
  \<open>redis_contract\<close>, \<open>tls_contract\<close> and the like), each shown to be
  satisfiable by a concrete instance.

  \<^bold>\<open>The theories, and what they show.\<close>

  \<^item> \<open>Chain_Types\<close> (\<open>internal/types/types.go\<close>): the records of blocks, headers, transactions,
    checkpoints and block ranges.
  \<^item> \<open>Gap_Tracker\<close> (\<open>gap_tracker.go\<close>): the tracker as a sorted list of half-open ranges. It
    implements a set of block numbers: \<open>MarkAvailable\<close> adds a range, lookups are membership,
    \<open>GetGaps\<close> is the exact complement below the maximum, \<open>GetNextGap\<close> is a largest gap, and the list
    is a canonical form of the set. The interface is the locale \<open>range_tracker\<close>.
  \<^item> \<open>Block_Storage\<close> (\<open>storage.go\<close>): the \<open>Storage\<close> interface as a dictionary of methods, its contract
    as the locale \<open>block_store\<close>, and the in-memory engine, which keeps it: reading back what was
    stored, batches, and the span a batch with a hole hides.
  \<^item> \<open>Pebble_Storage\<close> (\<open>pebble.go\<close>): the persistent engine over an abstract key-value store. A
    \<open>sublocale\<close> shows that it keeps the same contract; restarts restore the tracker, crashes at any
    point leave only readable blocks marked, and a lost batch commit breaks that.
  \<^item> \<open>Block_Validation\<close>, \<open>Chain_Rules\<close> (\<open>validator.go\<close>, \<open>chain_rules.go\<close>): the three validators and
    the Bor rules. Accepted blocks form a hash chain determined by the hash of its tip; exactly which
    transaction lists are accepted; when validation panics.
  \<^item> \<open>Checkpoint_Signatures\<close>, \<open>L1_Checkpoints\<close>, \<open>Checkpoint_Manager\<close> (\<open>pkg/checkpoint\<close>): acceptance
    means two thirds of the stake when signatures do not repeat; the binary search over the L1
    contract terminates and finds the covering checkpoint; the manager serves only verified
    checkpoints.
  \<^item> \<open>Block_Fetcher\<close> (\<open>block_fetcher.go\<close>): round-robin client selection as a loop that may not
    return (\<open>partial_function\<close>), with the exact condition under which it does; retries; the
    health of endpoints; batches that tolerate failures.
  \<^item> \<open>Forward_Sync\<close> (\<open>forward.go\<close>): the workers as an interleaving step relation (\<open>fwd_step\<close>), cut
    at every access to shared state. On every engine that keeps \<open>block_store\<close>, whatever the
    interleaving, blocks are added only on top of stored blocks that the validator accepts as their
    parents; hence nothing can be added to an empty storage.
  \<^item> \<open>Backward_Sync\<close> (\<open>backward.go\<close>): batches from the upper end of the largest gap: stored batches
    extend the chain, wide gaps crash the worker, low gaps are never filled.
  \<^item> \<open>Sync_Coordinator\<close> (\<open>coordinator.go\<close>): construction of the validators, start, stop, status, and
    the exact condition of readiness, including the float percentage.
  \<^item> \<open>Connection_Pool\<close> (\<open>connection_pool.go\<close>): slots, cleanup of idle connections and metrics; the
    counters agree and stay within bounds, but a release after a cleanup frees a slot twice.
  \<^item> \<open>Cluster_Coordinator\<close> (\<open>pkg/cluster\<close>): discovery of peers and leader election; exactly one leader
    once all instances know each other, which is never announced and can be blocked by a peer that
    vanished.
  \<^item> \<open>Go_Strings\<close>: splitting, trimming, numerals and scanning, as the theories below use them.
  \<^item> \<open>Rate_Limiter\<close> (\<open>pkg/ratelimit\<close>): per-operator token buckets under a global one; no operator gets
    more than its burst and rate allow, but one operator can drain the global bucket.
  \<^item> \<open>Health_Monitor\<close> (\<open>pkg/health\<close>): rounds of checks and the exact verdict; healing never happens.
  \<^item> \<open>Node_Config\<close> (\<open>pkg/config\<close>, parts of \<open>storage.go\<close> and \<open>main.go\<close>): the configuration, sizes, and
    the choice of the storage engine, the checkpoint source and its validator.
  \<^item> \<open>Http_Auth\<close>, \<open>TLS_Setup\<close> (\<open>pkg/auth\<close>): tokens and certificates live exactly as long as they
    should; middleware as functions on handlers; the per-IP limit and how it is evaded.
  \<^item> \<open>API_Server\<close> (\<open>pkg/api\<close>): the REST server as one function from a state and a request to a
    response and a state. Only authorized requests change anything; anybody can get authorized.
  \<^item> \<open>RPC_Server\<close>, \<open>DevP2P_Server\<close> (\<open>pkg/p2p\<close>): the two block servers over the \<open>block_store\<close> contract:
    which blocks and headers are answered, what a query stores, why no DevP2P peer is served.
  \<^item> \<open>Redis_Cache\<close> (\<open>pkg/cache\<close>): keys that do not collide, round trips with expiry, what a flush
    removes, and the way of a heartbeat through the cache to the other instances.
  \<^item> \<open>Node_Main\<close> (\<open>main.go\<close>): the start of all components from the configuration, and what the node
    with the built-in configuration is.
  \<^item> \<open>Storage_Engine\<close> (\<open>storage.go\<close>, \<open>pebble.go\<close>): the contract of \<open>StoreBlocks\<close>, the locale \<open>batch_store\<close>,
    which both engines keep; the engine the configuration chooses keeps it by \<open>sublocale\<close>.
  \<^item> \<open>Backward_Workers\<close> (\<open>backward.go\<close>): the backward worker cut at every access to shared state, and that
    its steps without interruption are the turn of \<open>Backward_Sync\<close>.
  \<^item> \<open>Node_Run\<close>, \<open>Node_Safety\<close>: the running node as one step relation (\<open>nodeDo\<close>, \<open>node_reach\<close>) over the
    shared storage: forward and backward workers, the target, status and checkpoint updates, REST requests
    and the cancellation of the context, in any order. Every block added stands on a stored block and is
    accepted by the rules; a node that starts empty stays empty; the parts keep the shape of the start.
  \<^item> \<open>Node_Shutdown\<close> (\<open>main.go\<close>): the flags, the signal and the deferred calls. Cancelled workers return
    after a bounded number of steps, and the storage is closed when none is left.
  \<^item> \<open>Cluster_Run\<close> (\<open>pkg/cluster\<close>): instances that join, beat, discover, elect, publish and stop on one
    Redis, in any order and at any time. A heartbeat of the lowest member and a round of discovery make it
    the only leader; with a peer timeout above the life of the entries nobody ever takes over.
  \<^item> \<open>Load_Bench\<close> (\<open>scripts/benchmarks\<close>): the workers of the load generator and its report: all requests
    are counted, and the percentiles are percentiles.

  \<^bold>\<open>Loops and time.\<close> Loops over slices and counters are structural recursion or terminate by a
  measure; the binary search, the range loop and the client search, which may run forever, are
  \<open>partial_function (option)\<close>, and theorems state when they return. No fuel is used (\<open>run_batch\<close> counts the
  at most seven steps of a turn). The goroutines of the sync engine, of the cluster and of the load
  generator are interleaving step relations; elsewhere each method is one atomic step, which matches
  the mutex every one of them holds. Sleeps, tickers and time-outs only order the steps and are not
  modelled; a current time is an argument.

  \<^bold>\<open>Not modelled.\<close> Sockets and console output, with it the statistics that \<open>statsReporter\<close> prints; the
  interleaving of requests with each other inside the servers, where each request is one step; Go's
  memory model below the accesses named above; the encoding of JSON, YAML and RLP, which are
  parameters. \<open>TLSConfig\<close> of \<open>tls.go\<close> and \<open>BlockFetcherConfig\<close> are records no code reads.
\<close>

end
